theory Spec2Isabelle
  imports Complex_Main
begin

section \<open>Label-Stop Queue (LabelStopQueue.h)\<close>

text \<open>
  C++ \<^verbatim>\<open>double\<close> values (labels, times, costs) are modelled as \<^typ>\<open>real\<close>: the
  comparisons and the arithmetic of the source are read as exact, and NaN and infinities
  are outside the model. C++ \<^verbatim>\<open>int\<close> stop identifiers and counters are \<^typ>\<open>int\<close>;
  the counters of the queue are bounded by the number of heap entries, so wrap-around is
  not reachable before memory is exhausted. Output to the trace file is not modelled.
  Member names are the source's without the trailing underscore (\<^verbatim>\<open>label_\<close> is
  \<open>label\<close>), which Isabelle does not accept in a name.
\<close>

record LabelStop =
  label :: real
  stop_id :: int

text \<open>The comparator: \<open>LabelStopCompare cs1 cs2\<close> holds when \<open>cs1\<close> has lower
  priority than \<open>cs2\<close> (larger label, ties broken by larger stop id).\<close>

definition LabelStopCompare :: "LabelStop \<Rightarrow> LabelStop \<Rightarrow> bool" where
  "LabelStopCompare cs1 cs2 =
     (if label cs1 > label cs2 then True
      else if label cs1 < label cs2 then False
      else stop_id cs1 > stop_id cs2)"

text \<open>The struct \<^verbatim>\<open>LabelCount\<close>; its members carry the prefix \<open>lc\<close>, since
  record fields share one name space.\<close>

record LabelCount =
  lc_label :: real
  lc_valid :: bool
  lc_count :: int

text \<open>
  \<^verbatim>\<open>std::priority_queue<LabelStop, std::vector<LabelStop>, LabelStopCompare>\<close> is
  modelled by the list of its entries in the order in which \<^verbatim>\<open>top()\<close> and
  \<^verbatim>\<open>pop()\<close> deliver them: \<open>pq_push\<close> inserts an entry behind every entry that
  it has lower priority than, the head of the list is \<^verbatim>\<open>top()\<close>, the tail is the
  queue after \<^verbatim>\<open>pop()\<close>.
\<close>

fun pq_push :: "LabelStop \<Rightarrow> LabelStop list \<Rightarrow> LabelStop list" where
  "pq_push x [] = [x]"
| "pq_push x (y # ys) = (if LabelStopCompare x y then y # pq_push x ys else x # y # ys)"

record LabelStopQueue =
  labelstop_priority_queue :: "LabelStop list"
  labelstop_map :: "int \<rightharpoonup> LabelCount"
  valid_count :: int

definition LabelStopQueue_init :: LabelStopQueue where
  "LabelStopQueue_init =
     \<lparr>labelstop_priority_queue = [], labelstop_map = Map.empty, valid_count = 0\<rparr>"

definition push :: "LabelStop \<Rightarrow> LabelStopQueue \<Rightarrow> LabelStopQueue" where
  "push val q =
     (case labelstop_map q (stop_id val) of
        None \<Rightarrow>
          q\<lparr>labelstop_priority_queue := pq_push val (labelstop_priority_queue q),
            labelstop_map := (labelstop_map q)(stop_id val \<mapsto>
               \<lparr>lc_label = label val, lc_valid = True, lc_count = 1\<rparr>),
            valid_count := valid_count q + 1\<rparr>
      | Some lc \<Rightarrow>
          if \<not> lc_valid lc then
            q\<lparr>labelstop_priority_queue := pq_push val (labelstop_priority_queue q),
              labelstop_map := (labelstop_map q)(stop_id val \<mapsto>
                 lc\<lparr>lc_label := label val, lc_valid := True, lc_count := lc_count lc + 1\<rparr>),
              valid_count := valid_count q + 1\<rparr>
          else if label val < lc_label lc then
            q\<lparr>labelstop_priority_queue := pq_push val (labelstop_priority_queue q),
              labelstop_map := (labelstop_map q)(stop_id val \<mapsto>
                 lc\<lparr>lc_label := label val, lc_count := lc_count lc + 1\<rparr>)\<rparr>
          else q)"

text \<open>
  \<open>pop_top\<close> either throws \<^verbatim>\<open>LabelStopQueueError\<close> (fatal errors 1 and 2) or returns.
  Calling \<^verbatim>\<open>top()\<close> on an empty \<^verbatim>\<open>std::priority_queue\<close> is undefined behaviour
  (the source: "this will crash if labelstop_priority_queue is empty"); the model makes
  it the third error value.
\<close>

datatype LabelStopQueueError = FATAL_ERROR_1 | FATAL_ERROR_2 | TOP_OF_EMPTY_QUEUE

text \<open>The \<^verbatim>\<open>while (true)\<close> loop of \<^verbatim>\<open>pop_top\<close>: each round removes the head of the
  heap, so the loop is a recursion on the heap.\<close>

fun pop_top_loop ::
  "LabelStop list \<Rightarrow> (int \<rightharpoonup> LabelCount) \<Rightarrow> int \<Rightarrow> LabelStopQueueError + (LabelStop \<times> LabelStopQueue)"
where
  "pop_top_loop [] m vc = Inl TOP_OF_EMPTY_QUEUE"
| "pop_top_loop (ls # rest) m vc =
     (case m (stop_id ls) of
        None \<Rightarrow> Inl FATAL_ERROR_1
      | Some lc \<Rightarrow>
          if lc_count lc \<le> 0 then Inl FATAL_ERROR_2
          else if \<not> lc_valid lc then
            pop_top_loop rest (m(stop_id ls \<mapsto> lc\<lparr>lc_count := lc_count lc - 1\<rparr>)) vc
          else if lc_label lc \<noteq> label ls then
            pop_top_loop rest (m(stop_id ls \<mapsto> lc\<lparr>lc_count := lc_count lc - 1\<rparr>)) vc
          else
            Inr (ls, \<lparr>labelstop_priority_queue = rest,
                      labelstop_map = m(stop_id ls \<mapsto> lc\<lparr>lc_valid := False, lc_count := lc_count lc - 1\<rparr>),
                      valid_count = vc - 1\<rparr>))"

definition pop_top :: "LabelStopQueue \<Rightarrow> LabelStopQueueError + (LabelStop \<times> LabelStopQueue)" where
  "pop_top q = pop_top_loop (labelstop_priority_queue q) (labelstop_map q) (valid_count q)"

definition size_q :: "LabelStopQueue \<Rightarrow> int" where
  "size_q q = valid_count q"

definition empty_q :: "LabelStopQueue \<Rightarrow> bool" where
  "empty_q q = (valid_count q = 0)"

text \<open>Sequences of queue operations, run from the freshly constructed queue; a pop that
  throws ends the run.\<close>

datatype queue_op = Push LabelStop | PopTop

fun run_ops :: "queue_op list \<Rightarrow> LabelStopQueue \<Rightarrow> LabelStopQueueError + LabelStopQueue" where
  "run_ops [] q = Inr q"
| "run_ops (Push val # ops) q = run_ops ops (push val q)"
| "run_ops (PopTop # ops) q =
     (case pop_top q of Inl e \<Rightarrow> Inl e | Inr (ls, q') \<Rightarrow> run_ops ops q')"

section \<open>Data model of the path finder (pathfinder.cpp)\<close>

text \<open>
  The header \<^verbatim>\<open>pathfinder.h\<close> is not among the sources: the structs below are read off
  their brace initialisers and member accesses in \<^verbatim>\<open>pathfinder.cpp\<close>, in the member order
  of the initialisers. The four mode constants are the only values the source stores in
  \<^verbatim>\<open>deparr_mode_\<close> and \<^verbatim>\<open>demand_mode_type_\<close>.
\<close>

datatype DemandModeType = MODE_ACCESS | MODE_EGRESS | MODE_TRANSFER | MODE_TRANSIT

definition isTrip :: "DemandModeType \<Rightarrow> bool" where
  "isTrip mode = (mode = MODE_TRANSIT)"

text \<open>
  \<^verbatim>\<open>Attributes\<close> and \<^verbatim>\<open>NamedWeights\<close> are both \<^verbatim>\<open>std::map<std::string, double>\<close>.
  Attributes are only looked up and updated, so they are partial maps; named weights are
  only iterated, so they are the list of their (name, weight) pairs in iteration order.
  The same holds for the other containers: a \<^verbatim>\<open>std::map\<close> that the source iterates is the
  list of its pairs in iteration order (looked up with \<^const>\<open>map_of\<close>), one that is only
  searched is a partial map.
\<close>

type_synonym Attributes = "string \<rightharpoonup> real"
type_synonym NamedWeights = "(string \<times> real) list"
type_synonym StopToAttr = "(int \<times> Attributes) list"
type_synonym SupplyModeToNamedWeights = "(int \<times> NamedWeights) list"

text \<open>\<^verbatim>\<open>UserClassMode\<close>: user class, demand mode type, demand mode.\<close>

type_synonym UserClassMode = "string \<times> DemandModeType \<times> string"

text \<open>\<^verbatim>\<open>TripStop\<close>: trip id, sequence, stop id; the key of the bump-wait table.\<close>

type_synonym TripStop = "int \<times> int \<times> int"

record TripStopTime =
  tst_trip_id :: int
  tst_seq :: int
  tst_stop_id :: int
  arrive_time :: real
  depart_time :: real

record TripInfo =
  supply_mode_num :: int
  route_id :: int
  trip_attr :: Attributes

record StopState =
  deparr_time :: real
  deparr_mode :: DemandModeType
  trip_id :: int
  stop_succpred :: int
  seq :: int
  seq_succpred :: int
  link_time :: real
  link_cost :: real
  cost :: real
  iteration :: int
  arrdep_time :: real

record HyperpathState =
  latest_dep_earliest_arr :: real
  lder_trip_id :: int
  hyperpath_cost :: real
  process_count :: int

record PathSpecification =
  spec_iteration :: int
  passenger_id :: int
  path_id :: int
  hyperpath :: bool
  outbound :: bool
  user_class :: string
  access_mode :: string
  transit_mode :: string
  egress_mode :: string
  origin_taz_id :: int
  destination_taz_id :: int
  preferred_time :: real
  trace :: bool

text \<open>The configuration parameters and network tables held by the \<^verbatim>\<open>PathFinder\<close> object.\<close>

record PathFinder =
  TIME_WINDOW :: real
  BUMP_BUFFER :: real
  STOCH_PATHSET_SIZE :: int
  STOCH_DISPERSION :: real
  STOCH_MAX_STOP_PROCESS_COUNT :: int
  trip_stop_times :: "int \<rightharpoonup> TripStopTime list"
  stop_trip_times :: "int \<rightharpoonup> TripStopTime list"
  taz_access_links :: "int \<rightharpoonup> (int \<rightharpoonup> StopToAttr)"
  transfer_links_o_d :: "int \<rightharpoonup> StopToAttr"
  transfer_links_d_o :: "int \<rightharpoonup> StopToAttr"
  trip_info :: "int \<rightharpoonup> TripInfo"
  weight_lookup :: "UserClassMode \<rightharpoonup> SupplyModeToNamedWeights"
  bump_wait :: "TripStop \<rightharpoonup> real"
  transfer_supply_mode :: int

definition MAX_COST :: real where
  "MAX_COST = 999999"

definition MAX_TIME :: real where
  "MAX_TIME = 999999 / 1000"

text \<open>
  Undefined behaviour of the source (reading element 0 of an empty vector, dereferencing
  the \<^verbatim>\<open>end()\<close> iterator of a failed \<^verbatim>\<open>find\<close>, \<^verbatim>\<open>std::vector::at\<close> out of range) and
  the queue's exceptions are error values of the model.
\<close>

datatype PathFinderError =
    EMPTY_STOP_STATE
  | MISSING_KEY
  | OUT_OF_RANGE
  | QUEUE_ERROR LabelStopQueueError

text \<open>The three containers a \<^verbatim>\<open>findPath\<close> call threads through the labeling.\<close>

record LabelingState =
  stop_states :: "int \<rightharpoonup> StopState list"
  label_stop_queue :: LabelStopQueue
  hyperpath_ss :: "int \<rightharpoonup> HyperpathState"

definition LabelingState_init :: LabelingState where
  "LabelingState_init =
     \<lparr>stop_states = Map.empty, label_stop_queue = LabelStopQueue_init, hyperpath_ss = Map.empty\<rparr>"

text \<open>\<^verbatim>\<open>stop_states[stop_id]\<close>: \<^verbatim>\<open>operator[]\<close> of \<^verbatim>\<open>std::map\<close> inserts an empty vector
  for an absent key.\<close>

definition stop_states_at :: "LabelingState \<Rightarrow> int \<Rightarrow> StopState list \<times> LabelingState" where
  "stop_states_at st stop =
     (case stop_states st stop of
        None \<Rightarrow> ([], st\<lparr>stop_states := (stop_states st)(stop \<mapsto> [])\<rparr>)
      | Some v \<Rightarrow> (v, st))"

text \<open>\<^verbatim>\<open>hyperpath_ss[stop_id]\<close>: an absent key gets a value-initialised (all zero) state.\<close>

definition hyperpath_ss_at :: "LabelingState \<Rightarrow> int \<Rightarrow> HyperpathState \<times> LabelingState" where
  "hyperpath_ss_at st stop =
     (case hyperpath_ss st stop of
        None \<Rightarrow>
          (let z = \<lparr>latest_dep_earliest_arr = 0, lder_trip_id = 0, hyperpath_cost = 0, process_count = 0\<rparr>
           in (z, st\<lparr>hyperpath_ss := (hyperpath_ss st)(stop \<mapsto> z)\<rparr>))
      | Some hss \<Rightarrow> (hss, st))"

section \<open>Cost tally (tallyLinkCost)\<close>

text \<open>The loop over the weights, with the running \<^verbatim>\<open>cost\<close>; a weight whose name is not
  an attribute is skipped (the source prints a warning and continues).\<close>

fun tallyLinkCost_loop :: "NamedWeights \<Rightarrow> Attributes \<Rightarrow> real \<Rightarrow> real" where
  "tallyLinkCost_loop [] attributes c = c"
| "tallyLinkCost_loop (iter_weights # rest) attributes c =
     (case attributes (fst iter_weights) of
        None \<Rightarrow> tallyLinkCost_loop rest attributes c
      | Some a \<Rightarrow> tallyLinkCost_loop rest attributes (c + snd iter_weights * a))"

definition tallyLinkCost :: "NamedWeights \<Rightarrow> Attributes \<Rightarrow> real" where
  "tallyLinkCost weights attributes = tallyLinkCost_loop weights attributes 0"

section \<open>Trips within the time window (getTripsWithinTime)\<close>

fun getTripsWithinTime_loop ::
  "real \<Rightarrow> bool \<Rightarrow> real \<Rightarrow> TripStopTime list \<Rightarrow> TripStopTime list \<Rightarrow> TripStopTime list" where
  "getTripsWithinTime_loop tw outb timepoint [] return_trips = return_trips"
| "getTripsWithinTime_loop tw outb timepoint (it # rest) return_trips =
     (if outb \<and> arrive_time it \<le> timepoint \<and> arrive_time it > timepoint - tw
      then getTripsWithinTime_loop tw outb timepoint rest (return_trips @ [it])
      else if \<not> outb \<and> depart_time it \<ge> timepoint \<and> depart_time it < timepoint + tw
      then getTripsWithinTime_loop tw outb timepoint rest (return_trips @ [it])
      else getTripsWithinTime_loop tw outb timepoint rest return_trips)"

text \<open>The result vector \<^verbatim>\<open>return_trips\<close> is passed in by reference and appended to.\<close>

definition getTripsWithinTime ::
  "PathFinder \<Rightarrow> int \<Rightarrow> bool \<Rightarrow> real \<Rightarrow> TripStopTime list \<Rightarrow> TripStopTime list" where
  "getTripsWithinTime pf stop outb timepoint return_trips =
     (case stop_trip_times pf stop of
        None \<Rightarrow> return_trips
      | Some trips \<Rightarrow> getTripsWithinTime_loop (TIME_WINDOW pf) outb timepoint trips return_trips)"

section \<open>Hyperpath aggregate cost\<close>

text \<open>
  The term \<open>exp (- \<theta> * cost)\<close> of one stop state and the aggregate
  \<open>- 1 / \<theta> * log sum\<close> of a sum of such terms, as \<^verbatim>\<open>addStopState\<close> and
  \<^verbatim>\<open>calculateNonwalkLabel\<close> compute them. In C++ \<^verbatim>\<open>log(0)\<close> is minus infinity, which
  \<^term>\<open>ln (0::real)\<close> is not: \<^verbatim>\<open>calculateNonwalkLabel\<close> tests for the zero sum itself, and
  in \<^verbatim>\<open>addStopState\<close> the sum is positive whenever the time window is not negative.
\<close>

definition exp_cost :: "real \<Rightarrow> real \<Rightarrow> real" where
  "exp_cost theta c = exp (- 1 * theta * c)"

definition logsum_cost :: "real \<Rightarrow> real \<Rightarrow> real" where
  "logsum_cost theta s = (- 1 / theta) * ln s"

fun calculateNonwalkLabel_loop :: "real \<Rightarrow> StopState list \<Rightarrow> real \<Rightarrow> real" where
  "calculateNonwalkLabel_loop theta [] nonwalk_label = nonwalk_label"
| "calculateNonwalkLabel_loop theta (it # rest) nonwalk_label =
     (if deparr_mode it \<noteq> MODE_EGRESS \<and> deparr_mode it \<noteq> MODE_TRANSFER \<and> deparr_mode it \<noteq> MODE_ACCESS
      then calculateNonwalkLabel_loop theta rest (nonwalk_label + exp_cost theta (cost it))
      else calculateNonwalkLabel_loop theta rest nonwalk_label)"

definition calculateNonwalkLabel :: "PathFinder \<Rightarrow> StopState list \<Rightarrow> real" where
  "calculateNonwalkLabel pf current_stop_state =
     (let nonwalk_label = calculateNonwalkLabel_loop (STOCH_DISPERSION pf) current_stop_state 0
      in if nonwalk_label = 0 then MAX_COST
         else logsum_cost (STOCH_DISPERSION pf) nonwalk_label)"

section \<open>The update rule (addStopState)\<close>

text \<open>The window test, written three times in the source: too early for outbound, too
  late for inbound.\<close>

definition outside_window :: "bool \<Rightarrow> real \<Rightarrow> real \<Rightarrow> real \<Rightarrow> bool" where
  "outside_window outb tw anchor t = ((outb \<and> t < anchor - tw) \<or> (\<not> outb \<and> t > anchor + tw))"

text \<open>The test "see if it's there already" of the scan.\<close>

definition same_link :: "StopState \<Rightarrow> StopState \<Rightarrow> bool" where
  "same_link ss_check ss =
     (deparr_mode ss_check = deparr_mode ss \<and> trip_id ss_check = trip_id ss \<and>
      stop_succpred ss_check = stop_succpred ss \<and> seq_succpred ss_check = seq_succpred ss)"

text \<open>
  One round of the loop over \<^verbatim>\<open>ss_index\<close>. The loop state is the vector
  \<^verbatim>\<open>stop_states[stop_id]\<close>, the flag \<^verbatim>\<open>stop_state_found\<close>, the running sum
  \<^verbatim>\<open>hyperpath_cost\<close> and the stack \<^verbatim>\<open>prune_indices\<close> (its top is the head of the list).
\<close>

type_synonym scan_state = "StopState list \<times> bool \<times> real \<times> nat list"

definition scan_step :: "PathFinder \<Rightarrow> bool \<Rightarrow> real \<Rightarrow> StopState \<Rightarrow> scan_state \<Rightarrow> nat \<Rightarrow> scan_state" where
  "scan_step pf outb anchor ss sc ss_index =
     (case sc of (v, stop_state_found, hyperpath_cost_sum, prune_indices) \<Rightarrow>
        (let v1 = (if same_link (v ! ss_index) ss then v[ss_index := ss] else v);
             found1 = (if same_link (v ! ss_index) ss then True else stop_state_found)
         in if outside_window outb (TIME_WINDOW pf) anchor (deparr_time (v1 ! ss_index))
            then (v1, found1, hyperpath_cost_sum, ss_index # prune_indices)
            else (v1, found1,
                  hyperpath_cost_sum + exp_cost (STOCH_DISPERSION pf) (cost (v1 ! ss_index)),
                  prune_indices)))"

definition scan_stop_states :: "PathFinder \<Rightarrow> bool \<Rightarrow> real \<Rightarrow> StopState \<Rightarrow> StopState list \<Rightarrow> scan_state" where
  "scan_stop_states pf outb anchor ss v =
     foldl (scan_step pf outb anchor ss) (v, False, 0, []) [0..<length v]"

text \<open>\<^verbatim>\<open>v.erase(v.begin() + prune_index)\<close>, and the loop that empties the stack.\<close>

definition erase_at :: "'a list \<Rightarrow> nat \<Rightarrow> 'a list" where
  "erase_at v prune_index = take prune_index v @ drop (Suc prune_index) v"

definition prune_window :: "'a list \<Rightarrow> nat list \<Rightarrow> 'a list" where
  "prune_window v prune_indices = foldl erase_at v prune_indices"

text \<open>
  The hyperpath branch for a stop that already has a hyperpath state \<open>hss0\<close>. The test
  \<^verbatim>\<open>abs(hyperpath_cost - hss.hyperpath_cost_) > 0.0001\<close> is read with the floating-point
  absolute value. With a non-negative time window the sum under the logarithm holds the
  term of the new state and is positive.
\<close>

definition addStopState_hyperpath ::
  "PathFinder \<Rightarrow> PathSpecification \<Rightarrow> int \<Rightarrow> StopState \<Rightarrow> HyperpathState \<Rightarrow> LabelingState \<Rightarrow> LabelingState" where
  "addStopState_hyperpath pf path_spec stop ss hss0 st =
     (let rejected = outside_window (outbound path_spec) (TIME_WINDOW pf)
                       (latest_dep_earliest_arr hss0) (deparr_time ss);
          window = ((outbound path_spec \<and> deparr_time ss > latest_dep_earliest_arr hss0) \<or>
                    (\<not> outbound path_spec \<and> deparr_time ss < latest_dep_earliest_arr hss0));
          hss1 = (if window
                  then hss0\<lparr>latest_dep_earliest_arr := deparr_time ss, lder_trip_id := trip_id ss\<rparr>
                  else hss0);
          label1 = (if window then hyperpath_cost hss0 else cost ss)
      in if rejected then st\<lparr>hyperpath_ss := (hyperpath_ss st)(stop \<mapsto> hss1)\<rparr>
         else
           (let v = fst (stop_states_at st stop);
                sc = scan_stop_states pf (outbound path_spec) (latest_dep_earliest_arr hss1) ss v;
                v1 = fst sc;
                stop_state_found = fst (snd sc);
                sum1 = fst (snd (snd sc));
                prune_indices = snd (snd (snd sc));
                v2 = prune_window v1 prune_indices;
                v3 = (if \<not> stop_state_found then v2 @ [ss] else v2);
                sum3 = (if \<not> stop_state_found
                        then sum1 + exp_cost (STOCH_DISPERSION pf) (cost ss) else sum1);
                hc = logsum_cost (STOCH_DISPERSION pf) sum3;
                changed = (\<bar>hc - hyperpath_cost hss1\<bar> > 1 / 10000);
                hss2 = (if changed then hss1\<lparr>hyperpath_cost := hc\<rparr> else hss1);
                label2 = (if changed then hc else label1);
                update_state = (window \<or> changed)
            in st\<lparr>stop_states := (stop_states st)(stop \<mapsto> v3),
                  hyperpath_ss := (hyperpath_ss st)(stop \<mapsto> hss2),
                  label_stop_queue :=
                    (if update_state
                     then push \<lparr>label = label2, stop_id = stop\<rparr> (label_stop_queue st)
                     else label_stop_queue st)\<rparr>))"

definition addStopState ::
  "PathFinder \<Rightarrow> PathSpecification \<Rightarrow> int \<Rightarrow> StopState \<Rightarrow> LabelingState \<Rightarrow> LabelingState" where
  "addStopState pf path_spec stop ss st =
     (let ls = \<lparr>label = cost ss, stop_id = stop\<rparr> in
      if \<not> hyperpath path_spec then
        (let v = fst (stop_states_at st stop) in
         if length v = 0 then
           st\<lparr>stop_states := (stop_states st)(stop \<mapsto> v @ [ss]),
              label_stop_queue := push ls (label_stop_queue st)\<rparr>
         else if cost ss < cost (v ! 0) then
           st\<lparr>stop_states := (stop_states st)(stop \<mapsto> v[0 := ss]),
              label_stop_queue := push ls (label_stop_queue st)\<rparr>
         else st)
      else
        (case hyperpath_ss st stop of
           None \<Rightarrow>
             st\<lparr>hyperpath_ss := (hyperpath_ss st)(stop \<mapsto>
                   \<lparr>latest_dep_earliest_arr = deparr_time ss, lder_trip_id = trip_id ss,
                    hyperpath_cost = cost ss, process_count = 0\<rparr>),
                stop_states := (stop_states st)(stop \<mapsto> fst (stop_states_at st stop) @ [ss]),
                label_stop_queue := push ls (label_stop_queue st)\<rparr>
         | Some hss0 \<Rightarrow> addStopState_hyperpath pf path_spec stop ss hss0 st))"

section \<open>Relaxing transfers (updateStopStatesForTransfers)\<close>

text \<open>
  The body of the loop over the transfer links, up to the call of \<open>addStopState\<close>: the
  candidate stop state of one transfer link, or \<open>None\<close> where the source
  \<^verbatim>\<open>continue\<close>s. \<open>current_stop_state\<close> is the vector of the current stop as it is when
  the link is reached; the other arguments are the locals set before the loop.
\<close>

definition transfer_stop_state ::
  "PathFinder \<Rightarrow> PathSpecification \<Rightarrow> NamedWeights \<Rightarrow> real \<Rightarrow> real \<Rightarrow> int \<Rightarrow> LabelStop \<Rightarrow> int \<Rightarrow>
   StopState list \<Rightarrow> int \<times> Attributes \<Rightarrow> PathFinderError + StopState option" where
  "transfer_stop_state pf path_spec transfer_weights nonwalk_label latest_dep_earliest_arr_c
       current_trip current_label_stop label_iteration current_stop_state transfer_it =
     (case snd transfer_it ''time_min'' of
        None \<Rightarrow> Inl MISSING_KEY
      | Some transfer_time \<Rightarrow>
          (let dir_factor = (if outbound path_spec then 1 else - 1);
               deparr_time0 = latest_dep_earliest_arr_c - transfer_time * dir_factor;
               mk = (\<lambda>dt lcost c.
                       \<lparr>deparr_time = dt, deparr_mode = MODE_TRANSFER, trip_id = 1,
                        stop_succpred = stop_id current_label_stop, seq = - 1, seq_succpred = - 1,
                        link_time = transfer_time, link_cost = lcost, cost = c,
                        iteration = label_iteration, arrdep_time = latest_dep_earliest_arr_c\<rparr>)
           in if hyperpath path_spec then
                (let link_attr = (snd transfer_it)(''transfer_penalty'' \<mapsto> 1);
                     lcost = tallyLinkCost transfer_weights link_attr
                 in Inr (Some (mk deparr_time0 lcost (nonwalk_label + lcost))))
              else
                (let lcost = transfer_time;
                     cost0 = label current_label_stop + lcost
                 in if outbound path_spec then
                      (case current_stop_state of
                         [] \<Rightarrow> Inl EMPTY_STOP_STATE
                       | css0 # _ \<Rightarrow>
                           (case bump_wait pf (current_trip, seq css0, stop_id current_label_stop) of
                              None \<Rightarrow> Inr (Some (mk deparr_time0 lcost cost0))
                            | Some latest_time \<Rightarrow>
                                if deparr_time0 - TIME_WINDOW pf > latest_time then Inr None
                                else Inr (Some (mk (latest_time - transfer_time - BUMP_BUFFER pf) lcost
                                                   (cost0 + (deparr_time css0 - latest_time) + BUMP_BUFFER pf)))))
                    else Inr (Some (mk deparr_time0 lcost cost0)))))"

fun transfers_loop ::
  "PathFinder \<Rightarrow> PathSpecification \<Rightarrow> NamedWeights \<Rightarrow> real \<Rightarrow> real \<Rightarrow> int \<Rightarrow> LabelStop \<Rightarrow> int \<Rightarrow>
   StopToAttr \<Rightarrow> LabelingState \<Rightarrow> PathFinderError + LabelingState" where
  "transfers_loop pf path_spec tw nwl ldea ctrip cls li [] st = Inr st"
| "transfers_loop pf path_spec tw nwl ldea ctrip cls li (transfer_it # rest) st =
     (case transfer_stop_state pf path_spec tw nwl ldea ctrip cls li
             (case stop_states st (stop_id cls) of None \<Rightarrow> [] | Some v \<Rightarrow> v) transfer_it of
        Inl e \<Rightarrow> Inl e
      | Inr None \<Rightarrow> transfers_loop pf path_spec tw nwl ldea ctrip cls li rest st
      | Inr (Some ss) \<Rightarrow>
          transfers_loop pf path_spec tw nwl ldea ctrip cls li rest
            (addStopState pf path_spec (fst transfer_it) ss st))"

definition updateStopStatesForTransfers ::
  "PathFinder \<Rightarrow> PathSpecification \<Rightarrow> int \<Rightarrow> LabelStop \<Rightarrow> LabelingState \<Rightarrow> PathFinderError + LabelingState" where
  "updateStopStatesForTransfers pf path_spec label_iteration current_label_stop st0 =
     (let st = snd (stop_states_at st0 (stop_id current_label_stop)) in
      case fst (stop_states_at st0 (stop_id current_label_stop)) of
        [] \<Rightarrow> Inl EMPTY_STOP_STATE
      | css0 # css_rest \<Rightarrow>
          (let current_mode = deparr_mode css0;
               current_trip = trip_id css0
           in if current_mode = MODE_EGRESS then Inr st
              else if current_mode = MODE_ACCESS then Inr st
              else if \<not> hyperpath path_spec \<and> current_mode = MODE_TRANSFER then Inr st
              else
                (let st1 = (if hyperpath path_spec
                            then snd (hyperpath_ss_at st (stop_id current_label_stop)) else st);
                     ldea = (if hyperpath path_spec
                             then latest_dep_earliest_arr (fst (hyperpath_ss_at st (stop_id current_label_stop)))
                             else deparr_time css0);
                     nonwalk_label = (if hyperpath path_spec
                                      then calculateNonwalkLabel pf (css0 # css_rest) else 0)
                 in if hyperpath path_spec \<and> nonwalk_label = MAX_COST then Inr st1
                    else
                      (case (if outbound path_spec
                             then transfer_links_d_o pf (stop_id current_label_stop)
                             else transfer_links_o_d pf (stop_id current_label_stop)) of
                         None \<Rightarrow> Inr st1
                       | Some transfers \<Rightarrow>
                           (case weight_lookup pf (user_class path_spec, MODE_TRANSFER, ''transfer'') of
                              None \<Rightarrow> Inr st1
                            | Some sm2nw \<Rightarrow>
                                (case map_of sm2nw (transfer_supply_mode pf) of
                                   None \<Rightarrow> Inr st1
                                 | Some transfer_weights \<Rightarrow>
                                     transfers_loop pf path_spec transfer_weights nonwalk_label ldea
                                       current_trip current_label_stop label_iteration transfers st1))))))"

section \<open>Relaxing trips (updateStopStatesForTrips)\<close>

text \<open>Conversion of an \<^verbatim>\<open>int\<close> expression to \<^verbatim>\<open>unsigned int\<close>, as in the declarations
  of \<^verbatim>\<open>start_seq\<close> and \<^verbatim>\<open>end_seq\<close>.\<close>

definition to_unsigned :: "int \<Rightarrow> nat" where
  "to_unsigned x = nat (x mod 4294967296)"

text \<open>The tally of a zero-walk transfer, which the source sets up twice; \<open>dflt\<close> is the
  value \<^verbatim>\<open>link_cost\<close> keeps when the transfer weights are not configured.\<close>

definition zero_walk_transfer_cost :: "PathFinder \<Rightarrow> PathSpecification \<Rightarrow> real \<Rightarrow> real" where
  "zero_walk_transfer_cost pf path_spec dflt =
     (case weight_lookup pf (user_class path_spec, MODE_TRANSFER, ''transfer'') of
        None \<Rightarrow> dflt
      | Some xfer_weights \<Rightarrow>
          (case map_of xfer_weights (transfer_supply_mode pf) of
             None \<Rightarrow> dflt
           | Some w \<Rightarrow> tallyLinkCost w [''transfer_penalty'' \<mapsto> 1, ''walk_time_min'' \<mapsto> 0]))"

text \<open>The tally of the preferred delay against the egress (outbound) or access (inbound)
  weights of the current link's supply mode.\<close>

definition preferred_delay_cost :: "PathFinder \<Rightarrow> PathSpecification \<Rightarrow> int \<Rightarrow> real \<Rightarrow> real" where
  "preferred_delay_cost pf path_spec current_trip_id wait_time =
     (case weight_lookup pf (user_class path_spec,
                             (if outbound path_spec then MODE_EGRESS else MODE_ACCESS),
                             (if outbound path_spec then egress_mode path_spec else access_mode path_spec)) of
        None \<Rightarrow> 0
      | Some delay_weights \<Rightarrow>
          (case map_of delay_weights current_trip_id of
             None \<Rightarrow> 0
           | Some w \<Rightarrow> tallyLinkCost w [''time_min'' \<mapsto> 0, ''preferred_delay_min'' \<mapsto> wait_time]))"

text \<open>The hyperpath link cost of boarding or alighting the candidate trip.\<close>

definition trip_hyperpath_link_cost ::
  "PathFinder \<Rightarrow> PathSpecification \<Rightarrow> NamedWeights \<Rightarrow> TripInfo \<Rightarrow> DemandModeType \<Rightarrow> int \<Rightarrow>
   real \<Rightarrow> real \<Rightarrow> real" where
  "trip_hyperpath_link_cost pf path_spec named_weights tinfo current_mode current_trip_id
       in_vehicle_time wait_time =
     (let link_attr0 = (trip_attr tinfo)(''in_vehicle_time_min'' \<mapsto> in_vehicle_time,
                                          ''wait_time_min'' \<mapsto> wait_time);
          at_taz_link = ((outbound path_spec \<and> current_mode = MODE_EGRESS) \<or>
                         (\<not> outbound path_spec \<and> current_mode = MODE_ACCESS));
          link_attr1 = (if at_taz_link then link_attr0(''wait_time_min'' \<mapsto> 0) else link_attr0);
          link_cost1 = (if at_taz_link then preferred_delay_cost pf path_spec current_trip_id wait_time
                        else if isTrip current_mode then zero_walk_transfer_cost pf path_spec 0
                        else 0);
          link_attr2 = link_attr1(''transfer_penalty'' \<mapsto>
                          (if current_mode = MODE_ACCESS \<or> current_mode = MODE_EGRESS then 0 else 1));
          link_cost2 = (if isTrip current_mode then zero_walk_transfer_cost pf path_spec link_cost1
                        else link_cost1)
      in link_cost2 + tallyLinkCost named_weights link_attr2)"

text \<open>
  The body of the loop over \<^verbatim>\<open>seq_num\<close>: one possible board (outbound) or alight
  (inbound) stop of the candidate trip \<open>it\<close>.
\<close>

definition trips_board_alight ::
  "PathFinder \<Rightarrow> PathSpecification \<Rightarrow> NamedWeights \<Rightarrow> TripInfo \<Rightarrow> DemandModeType \<Rightarrow> int \<Rightarrow>
   LabelStop \<Rightarrow> int \<Rightarrow> TripStopTime \<Rightarrow> real \<Rightarrow> real \<Rightarrow> TripStopTime \<Rightarrow> LabelingState \<Rightarrow>
   PathFinderError + LabelingState" where
  "trips_board_alight pf path_spec named_weights tinfo current_mode current_trip_id
       current_label_stop label_iteration it arrdep wait_time possible_board_alight st =
     (let board_alight_stop = tst_stop_id possible_board_alight in
      if hyperpath path_spec \<and>
         (case stop_states st board_alight_stop of
            None \<Rightarrow> False
          | Some [] \<Rightarrow> False
          | Some (f # _) \<Rightarrow> deparr_mode f = MODE_ACCESS \<or> deparr_mode f = MODE_EGRESS)
      then Inr st
      else
        (let dir_factor = (if outbound path_spec then 1 else - 1);
             deparr0 = (if outbound path_spec then depart_time possible_board_alight
                        else arrive_time possible_board_alight);
             deparr = (if outbound path_spec \<and> arrdep < deparr0 then deparr0 - 24 * 60
                       else if \<not> outbound path_spec \<and> deparr0 < arrdep then deparr0 + 24 * 60
                       else deparr0);
             in_vehicle_time = (arrdep - deparr) * dir_factor;
             mk = (\<lambda>lcost c.
                     \<lparr>deparr_time = deparr, deparr_mode = MODE_TRANSIT,
                      trip_id = tst_trip_id possible_board_alight,
                      stop_succpred = stop_id current_label_stop,
                      seq = tst_seq possible_board_alight, seq_succpred = tst_seq it,
                      link_time = in_vehicle_time + wait_time, link_cost = lcost, cost = c,
                      iteration = label_iteration, arrdep_time = arrdep\<rparr>)
         in if hyperpath path_spec then
              (let lcost = trip_hyperpath_link_cost pf path_spec named_weights tinfo current_mode
                             current_trip_id in_vehicle_time wait_time;
                   hss = fst (hyperpath_ss_at st (stop_id current_label_stop));
                   st1 = snd (hyperpath_ss_at st (stop_id current_label_stop))
               in Inr (addStopState pf path_spec board_alight_stop
                         (mk lcost (hyperpath_cost hss + lcost)) st1))
            else
              (case stop_states st (stop_id current_label_stop) of
                 None \<Rightarrow> Inl EMPTY_STOP_STATE
               | Some [] \<Rightarrow> Inl EMPTY_STOP_STATE
               | Some (css0 # _) \<Rightarrow>
                   (let lcost = in_vehicle_time + wait_time
                    in Inr (addStopState pf path_spec board_alight_stop
                              (mk lcost (cost css0 + lcost)) st)))))"

text \<open>The loop over \<^verbatim>\<open>seq_num\<close> from \<^verbatim>\<open>start_seq\<close> to \<^verbatim>\<open>end_seq\<close>;
  \<^verbatim>\<open>possible_stops.at(seq_num-1)\<close> throws for an index out of range.\<close>

fun trips_seq_loop ::
  "PathFinder \<Rightarrow> PathSpecification \<Rightarrow> NamedWeights \<Rightarrow> TripInfo \<Rightarrow> DemandModeType \<Rightarrow> int \<Rightarrow>
   LabelStop \<Rightarrow> int \<Rightarrow> TripStopTime \<Rightarrow> real \<Rightarrow> real \<Rightarrow> TripStopTime list \<Rightarrow> nat list \<Rightarrow>
   LabelingState \<Rightarrow> PathFinderError + LabelingState" where
  "trips_seq_loop pf path_spec nw tinfo cmode ctrip cls li it arrdep wait_time possible_stops [] st = Inr st"
| "trips_seq_loop pf path_spec nw tinfo cmode ctrip cls li it arrdep wait_time possible_stops (seq_num # rest) st =
     (if seq_num = 0 \<or> length possible_stops \<le> seq_num - 1 then Inl OUT_OF_RANGE
      else
        (case trips_board_alight pf path_spec nw tinfo cmode ctrip cls li it arrdep wait_time
                (possible_stops ! (seq_num - 1)) st of
           Inl e \<Rightarrow> Inl e
         | Inr st' \<Rightarrow>
             trips_seq_loop pf path_spec nw tinfo cmode ctrip cls li it arrdep wait_time
               possible_stops rest st'))"

text \<open>The capacity check of deterministic path finding: whether the candidate trip is
  skipped because of a bump-wait entry.\<close>

definition trips_bump_skip ::
  "PathFinder \<Rightarrow> PathSpecification \<Rightarrow> LabelStop \<Rightarrow> StopState \<Rightarrow> TripStopTime \<Rightarrow> real \<Rightarrow> bool" where
  "trips_bump_skip pf path_spec current_label_stop css0 it arrdep =
     (let check_for_bump_wait =
            (if outbound path_spec then (trip_id css0, seq css0, stop_id current_label_stop)
             else (tst_trip_id it, tst_seq it, stop_id current_label_stop));
          arrive = (if outbound path_spec then arrdep else deparr_time css0)
      in case bump_wait pf check_for_bump_wait of
           None \<Rightarrow> False
         | Some latest_time \<Rightarrow> arrive + 1 / 100 \<ge> latest_time \<and> trip_id css0 \<noteq> tst_trip_id it)"

text \<open>The body of the loop over the relevant trips. The failing \<^verbatim>\<open>assert\<close> on the trip's
  stop times is the error \<open>MISSING_KEY\<close>.\<close>

definition trips_relevant_trip ::
  "PathFinder \<Rightarrow> PathSpecification \<Rightarrow> SupplyModeToNamedWeights \<Rightarrow> DemandModeType \<Rightarrow> int \<Rightarrow> real \<Rightarrow>
   LabelStop \<Rightarrow> int \<Rightarrow> TripStopTime \<Rightarrow> LabelingState \<Rightarrow> PathFinderError + LabelingState" where
  "trips_relevant_trip pf path_spec transit_weights current_mode current_trip_id ldea
       current_label_stop label_iteration it st0 =
     (let st = (if hyperpath path_spec then snd (hyperpath_ss_at st0 (stop_id current_label_stop))
                else st0)
      in if hyperpath path_spec \<and>
            lder_trip_id (fst (hyperpath_ss_at st0 (stop_id current_label_stop))) = tst_trip_id it
         then Inr st
         else
           (case trip_info pf (tst_trip_id it) of
              None \<Rightarrow> Inl MISSING_KEY
            | Some tinfo \<Rightarrow>
                (case map_of transit_weights (supply_mode_num tinfo) of
                   None \<Rightarrow> Inr st
                 | Some named_weights \<Rightarrow>
                     (let dir_factor = (if outbound path_spec then 1 else - 1);
                          arrdep = (if outbound path_spec then arrive_time it else depart_time it);
                          wait_time = (ldea - arrdep) * dir_factor
                      in case (if hyperpath path_spec then Inr False
                               else (case stop_states st (stop_id current_label_stop) of
                                       None \<Rightarrow> Inl EMPTY_STOP_STATE
                                     | Some [] \<Rightarrow> Inl EMPTY_STOP_STATE
                                     | Some (css0 # _) \<Rightarrow>
                                         Inr (trips_bump_skip pf path_spec current_label_stop css0 it arrdep))) of
                           Inl e \<Rightarrow> Inl e
                         | Inr True \<Rightarrow> Inr st
                         | Inr False \<Rightarrow>
                             (case trip_stop_times pf (tst_trip_id it) of
                                None \<Rightarrow> Inl MISSING_KEY
                              | Some possible_stops \<Rightarrow>
                                  (let start_seq = to_unsigned (if outbound path_spec then 1 else tst_seq it + 1);
                                       end_seq = to_unsigned (if outbound path_spec then tst_seq it - 1
                                                              else int (length possible_stops))
                                   in trips_seq_loop pf path_spec named_weights tinfo current_mode
                                        current_trip_id current_label_stop label_iteration it arrdep
                                        wait_time possible_stops [start_seq..<Suc end_seq] st))))))"

fun trips_loop ::
  "PathFinder \<Rightarrow> PathSpecification \<Rightarrow> SupplyModeToNamedWeights \<Rightarrow> DemandModeType \<Rightarrow> int \<Rightarrow> real \<Rightarrow>
   LabelStop \<Rightarrow> int \<Rightarrow> TripStopTime list \<Rightarrow> LabelingState \<Rightarrow> PathFinderError + LabelingState" where
  "trips_loop pf path_spec tw cmode ctrip ldea cls li [] st = Inr st"
| "trips_loop pf path_spec tw cmode ctrip ldea cls li (it # rest) st =
     (case trips_relevant_trip pf path_spec tw cmode ctrip ldea cls li it st of
        Inl e \<Rightarrow> Inl e
      | Inr st' \<Rightarrow> trips_loop pf path_spec tw cmode ctrip ldea cls li rest st')"

text \<open>The set \<^verbatim>\<open>trips_done\<close> is only ever inserted into and is left out.\<close>

definition updateStopStatesForTrips ::
  "PathFinder \<Rightarrow> PathSpecification \<Rightarrow> int \<Rightarrow> LabelStop \<Rightarrow> LabelingState \<Rightarrow> PathFinderError + LabelingState" where
  "updateStopStatesForTrips pf path_spec label_iteration current_label_stop st0 =
     (case weight_lookup pf (user_class path_spec, MODE_TRANSIT, transit_mode path_spec) of
        None \<Rightarrow> Inr st0
      | Some transit_weights \<Rightarrow>
          (let st = snd (stop_states_at st0 (stop_id current_label_stop)) in
           case fst (stop_states_at st0 (stop_id current_label_stop)) of
             [] \<Rightarrow> Inl EMPTY_STOP_STATE
           | css0 # css_rest \<Rightarrow>
               (let st1 = (if hyperpath path_spec
                           then snd (hyperpath_ss_at st (stop_id current_label_stop)) else st);
                    ldea = (if hyperpath path_spec
                            then latest_dep_earliest_arr (fst (hyperpath_ss_at st (stop_id current_label_stop)))
                            else deparr_time css0);
                    relevant_trips = getTripsWithinTime pf (stop_id current_label_stop)
                                       (outbound path_spec) ldea []
                in trips_loop pf path_spec transit_weights (deparr_mode css0) (trip_id css0) ldea
                     current_label_stop label_iteration relevant_trips st1)))"

section \<open>Seeding (initializeStopStates)\<close>

fun init_links_loop ::
  "PathFinder \<Rightarrow> PathSpecification \<Rightarrow> int \<Rightarrow> NamedWeights \<Rightarrow> int \<Rightarrow> StopToAttr \<Rightarrow> LabelingState \<Rightarrow>
   PathFinderError + LabelingState" where
  "init_links_loop pf path_spec supply_mode w start_taz_id [] st = Inr st"
| "init_links_loop pf path_spec supply_mode w start_taz_id (link_iter # rest) st =
     (case snd link_iter ''time_min'' of
        None \<Rightarrow> Inl MISSING_KEY
      | Some attr_time \<Rightarrow>
          (let dir_factor = (if outbound path_spec then 1 else - 1);
               deparr = preferred_time path_spec - attr_time * dir_factor;
               link_attr = (snd link_iter)(''preferred_delay_min'' \<mapsto> 0);
               c = (if hyperpath path_spec then tallyLinkCost w link_attr else attr_time);
               ss = \<lparr>deparr_time = deparr,
                     deparr_mode = (if outbound path_spec then MODE_EGRESS else MODE_ACCESS),
                     trip_id = supply_mode, stop_succpred = start_taz_id,
                     seq = - 1, seq_succpred = - 1, link_time = attr_time, link_cost = c, cost = c,
                     iteration = 0, arrdep_time = preferred_time path_spec\<rparr>
           in init_links_loop pf path_spec supply_mode w start_taz_id rest
                (addStopState pf path_spec (fst link_iter) ss st)))"

fun init_modes_loop ::
  "PathFinder \<Rightarrow> PathSpecification \<Rightarrow> int \<Rightarrow> (int \<rightharpoonup> StopToAttr) \<Rightarrow> SupplyModeToNamedWeights \<Rightarrow>
   LabelingState \<Rightarrow> PathFinderError + LabelingState" where
  "init_modes_loop pf path_spec start_taz_id tss2a [] st = Inr st"
| "init_modes_loop pf path_spec start_taz_id tss2a (iter_s2w # rest) st =
     (case tss2a (fst iter_s2w) of
        None \<Rightarrow> init_modes_loop pf path_spec start_taz_id tss2a rest st
      | Some links \<Rightarrow>
          (case init_links_loop pf path_spec (fst iter_s2w) (snd iter_s2w) start_taz_id links st of
             Inl e \<Rightarrow> Inl e
           | Inr st' \<Rightarrow> init_modes_loop pf path_spec start_taz_id tss2a rest st'))"

text \<open>The result is the returned flag (whether anything was seeded) and the state.\<close>

definition initializeStopStates ::
  "PathFinder \<Rightarrow> PathSpecification \<Rightarrow> LabelingState \<Rightarrow> PathFinderError + (bool \<times> LabelingState)" where
  "initializeStopStates pf path_spec st =
     (let start_taz_id = (if outbound path_spec then destination_taz_id path_spec
                          else origin_taz_id path_spec)
      in case taz_access_links pf start_taz_id of
           None \<Rightarrow> Inr (False, st)
         | Some tss2a \<Rightarrow>
             (case weight_lookup pf (user_class path_spec,
                                     (if outbound path_spec then MODE_EGRESS else MODE_ACCESS),
                                     (if outbound path_spec then egress_mode path_spec
                                      else access_mode path_spec)) of
                None \<Rightarrow> Inr (False, st)
              | Some ws \<Rightarrow>
                  (case init_modes_loop pf path_spec start_taz_id tss2a ws st of
                     Inl e \<Rightarrow> Inl e
                   | Inr st' \<Rightarrow> Inr (size_q (label_stop_queue st') > 0, st'))))"

section \<open>The labeling loop (labelStops)\<close>

text \<open>
  One round of the loop after the pop and after the test against the previously popped
  stop: the process count of hyperpath mode, then the two relaxations. The result says
  whether the stop was processed (\<open>False\<close> where the source \<^verbatim>\<open>continue\<close>s at the process
  limit) and gives the state and \<^verbatim>\<open>max_process_count\<close>.
\<close>

definition labelStops_process ::
  "PathFinder \<Rightarrow> PathSpecification \<Rightarrow> int \<Rightarrow> LabelStop \<Rightarrow> LabelingState \<Rightarrow> int \<Rightarrow>
   PathFinderError + (bool \<times> LabelingState \<times> int)" where
  "labelStops_process pf path_spec label_iterations current_label_stop st0 max_process_count =
     (let hss = fst (hyperpath_ss_at st0 (stop_id current_label_stop));
          sth = snd (hyperpath_ss_at st0 (stop_id current_label_stop))
      in if hyperpath path_spec \<and> STOCH_MAX_STOP_PROCESS_COUNT pf > 0 \<and>
            process_count hss = STOCH_MAX_STOP_PROCESS_COUNT pf
         then Inr (False, sth, max_process_count)
         else
           (let st1 = (if hyperpath path_spec
                       then sth\<lparr>hyperpath_ss := (hyperpath_ss sth)(stop_id current_label_stop \<mapsto>
                                   hss\<lparr>process_count := process_count hss + 1\<rparr>)\<rparr>
                       else st0);
                mpc = (if hyperpath path_spec then max max_process_count (process_count hss + 1)
                       else max_process_count);
                st2 = snd (stop_states_at st1 (stop_id current_label_stop))
            in case updateStopStatesForTransfers pf path_spec label_iterations current_label_stop st2 of
                 Inl e \<Rightarrow> Inl e
               | Inr st3 \<Rightarrow>
                   (case updateStopStatesForTrips pf path_spec label_iterations current_label_stop st3 of
                      Inl e \<Rightarrow> Inl e
                    | Inr st4 \<Rightarrow> Inr (True, st4, mpc))))"

text \<open>
  The \<^verbatim>\<open>while (!label_stop_queue.empty())\<close> loop. Its state is the labeling state,
  \<^verbatim>\<open>label_iterations\<close>, the stop id of \<^verbatim>\<open>last_label_stop\<close> and \<^verbatim>\<open>max_process_count\<close>.
  A run that does not end has the value \<open>None\<close>.
\<close>

partial_function (option) labelStops_loop ::
  "PathFinder \<Rightarrow> PathSpecification \<Rightarrow> LabelingState \<times> int \<times> int \<times> int \<Rightarrow>
   (PathFinderError + (LabelingState \<times> int \<times> int)) option" where
  "labelStops_loop pf path_spec s =
     (case s of (st, label_iterations, last_stop_id, max_process_count) \<Rightarrow>
        if empty_q (label_stop_queue st) then Some (Inr (st, label_iterations, max_process_count))
        else
          (case pop_top (label_stop_queue st) of
             Inl e \<Rightarrow> Some (Inl (QUEUE_ERROR e))
           | Inr (current_label_stop, q') \<Rightarrow>
               if stop_id current_label_stop = last_stop_id
               then labelStops_loop pf path_spec
                      (st\<lparr>label_stop_queue := q'\<rparr>, label_iterations, last_stop_id, max_process_count)
               else
                 (case labelStops_process pf path_spec label_iterations current_label_stop
                         (st\<lparr>label_stop_queue := q'\<rparr>) max_process_count of
                    Inl e \<Rightarrow> Some (Inl e)
                  | Inr (processed, st', mpc) \<Rightarrow>
                      if processed
                      then labelStops_loop pf path_spec
                             (st', label_iterations + 1, stop_id current_label_stop, mpc)
                      else labelStops_loop pf path_spec
                             (st', label_iterations, last_stop_id, mpc))))"

text \<open>
  \<^verbatim>\<open>LabelStop last_label_stop;\<close> is declared without an initialiser, and its
  \<^verbatim>\<open>stop_id_\<close> is read in the first round of the loop. The indeterminate value it holds
  then is the argument \<open>uninit_last_stop_id\<close>.
\<close>

definition labelStops ::
  "PathFinder \<Rightarrow> PathSpecification \<Rightarrow> int \<Rightarrow> LabelingState \<Rightarrow> int \<Rightarrow>
   (PathFinderError + (LabelingState \<times> int \<times> int)) option" where
  "labelStops pf path_spec uninit_last_stop_id st max_process_count =
     labelStops_loop pf path_spec (st, 1, uninit_last_stop_id, max_process_count)"

section \<open>Finalization (finalizeTazState)\<close>

text \<open>
  The body of the loop over the access (outbound) or egress (inbound) links of the end
  TAZ. In the capacity check the source builds the \<^verbatim>\<open>TripStop\<close> key from
  \<^verbatim>\<open>deparr_mode_\<close> of the first state, which is \<^verbatim>\<open>MODE_TRANSIT\<close> there; the number
  of that enumerator is declared in the absent header and is the argument
  \<open>mode_transit_num\<close>.
\<close>

definition finalize_link ::
  "PathFinder \<Rightarrow> PathSpecification \<Rightarrow> int \<Rightarrow> int \<Rightarrow> NamedWeights \<Rightarrow> int \<Rightarrow> int \<Rightarrow>
   int \<times> Attributes \<Rightarrow> LabelingState \<Rightarrow> PathFinderError + LabelingState" where
  "finalize_link pf path_spec mode_transit_num supply_mode w end_taz_id label_iteration link_iter st =
     (let stop = fst link_iter;
          link_attr = (snd link_iter)(''preferred_delay_min'' \<mapsto> 0)
      in case link_attr ''time_min'' of
           None \<Rightarrow> Inl MISSING_KEY
         | Some access_time \<Rightarrow>
             (case stop_states st stop of
                None \<Rightarrow> Inr st
              | Some [] \<Rightarrow> Inl EMPTY_STOP_STATE
              | Some (css0 # css_rest) \<Rightarrow>
                  (let dir_factor = (if outbound path_spec then 1 else - 1);
                       mk = (\<lambda>dt lcost c e.
                               \<lparr>deparr_time = dt,
                                deparr_mode = (if outbound path_spec then MODE_ACCESS else MODE_EGRESS),
                                trip_id = supply_mode, stop_succpred = stop,
                                seq = - 1, seq_succpred = - 1, link_time = access_time,
                                link_cost = lcost, cost = c, iteration = label_iteration,
                                arrdep_time = e\<rparr>)
                   in if hyperpath path_spec then
                        (let e = fold (\<lambda>ssi e. if outbound path_spec then min e (deparr_time ssi)
                                               else max e (deparr_time ssi))
                                   (css0 # css_rest) (deparr_time css0);
                             nonwalk_label = calculateNonwalkLabel pf (css0 # css_rest)
                         in if nonwalk_label = MAX_COST then Inr st
                            else
                              (let lcost = tallyLinkCost w link_attr
                               in Inr (addStopState pf path_spec end_taz_id
                                         (mk (e - access_time * dir_factor) lcost (nonwalk_label + lcost) e)
                                         st)))
                      else
                        (let e = deparr_time css0;
                             deparr = e - access_time * dir_factor
                         in if deparr_mode css0 = MODE_TRANSFER then Inr st
                            else if deparr_mode css0 = MODE_EGRESS then Inr st
                            else if deparr_mode css0 = MODE_ACCESS then Inr st
                            else
                              (let lcost = access_time;
                                   cost0 = cost css0 + lcost
                               in if outbound path_spec then
                                    (case bump_wait pf (mode_transit_num, seq css0, stop) of
                                       None \<Rightarrow>
                                         Inr (addStopState pf path_spec end_taz_id
                                                (mk deparr lcost cost0 e) st)
                                     | Some latest_time \<Rightarrow>
                                         if deparr - TIME_WINDOW pf > latest_time then Inr st
                                         else Inr (addStopState pf path_spec end_taz_id
                                                     (mk (latest_time - access_time - BUMP_BUFFER pf) lcost
                                                         (cost0 + (deparr_time css0 - latest_time) + BUMP_BUFFER pf)
                                                         e) st))
                                  else Inr (addStopState pf path_spec end_taz_id
                                              (mk deparr lcost cost0 e) st))))))"

fun finalize_links_loop ::
  "PathFinder \<Rightarrow> PathSpecification \<Rightarrow> int \<Rightarrow> int \<Rightarrow> NamedWeights \<Rightarrow> int \<Rightarrow> int \<Rightarrow>
   StopToAttr \<Rightarrow> LabelingState \<Rightarrow> PathFinderError + LabelingState" where
  "finalize_links_loop pf path_spec mtn supply_mode w end_taz_id li [] st = Inr st"
| "finalize_links_loop pf path_spec mtn supply_mode w end_taz_id li (link_iter # rest) st =
     (case finalize_link pf path_spec mtn supply_mode w end_taz_id li link_iter st of
        Inl e \<Rightarrow> Inl e
      | Inr st' \<Rightarrow> finalize_links_loop pf path_spec mtn supply_mode w end_taz_id li rest st')"

fun finalize_modes_loop ::
  "PathFinder \<Rightarrow> PathSpecification \<Rightarrow> int \<Rightarrow> int \<Rightarrow> int \<Rightarrow> (int \<rightharpoonup> StopToAttr) \<Rightarrow>
   SupplyModeToNamedWeights \<Rightarrow> LabelingState \<Rightarrow> PathFinderError + LabelingState" where
  "finalize_modes_loop pf path_spec mtn end_taz_id li tss2a [] st = Inr st"
| "finalize_modes_loop pf path_spec mtn end_taz_id li tss2a (iter_s2w # rest) st =
     (case tss2a (fst iter_s2w) of
        None \<Rightarrow> finalize_modes_loop pf path_spec mtn end_taz_id li tss2a rest st
      | Some links \<Rightarrow>
          (case finalize_links_loop pf path_spec mtn (fst iter_s2w) (snd iter_s2w) end_taz_id li links st of
             Inl e \<Rightarrow> Inl e
           | Inr st' \<Rightarrow> finalize_modes_loop pf path_spec mtn end_taz_id li tss2a rest st'))"

text \<open>The returned flag of the source is not used by its caller and is left out.\<close>

definition finalizeTazState ::
  "PathFinder \<Rightarrow> PathSpecification \<Rightarrow> int \<Rightarrow> int \<Rightarrow> LabelingState \<Rightarrow> PathFinderError + LabelingState" where
  "finalizeTazState pf path_spec mode_transit_num label_iteration st0 =
     (let end_taz_id = (if outbound path_spec then origin_taz_id path_spec
                        else destination_taz_id path_spec);
          st = snd (stop_states_at st0 end_taz_id)
      in case taz_access_links pf end_taz_id of
           None \<Rightarrow> Inr st
         | Some tss2a \<Rightarrow>
             (case weight_lookup pf (user_class path_spec,
                                     (if outbound path_spec then MODE_ACCESS else MODE_EGRESS),
                                     (if outbound path_spec then access_mode path_spec
                                      else egress_mode path_spec)) of
                None \<Rightarrow> Inr st
              | Some ws \<Rightarrow>
                  finalize_modes_loop pf path_spec mode_transit_num end_taz_id label_iteration tss2a ws st))"

section \<open>The found path (getFoundPath, calculatePathCost, findPath)\<close>

type_synonym Path = "(int \<times> StopState) list"

record PathInfo =
  pi_count :: int
  pi_cost :: real
  pi_capacity_problem :: bool
  pi_probability :: real
  pi_prob_i :: int

text \<open>Assignment to members of \<^verbatim>\<open>path[i].second\<close>.\<close>

definition upd_ss :: "Path \<Rightarrow> nat \<Rightarrow> (StopState \<Rightarrow> StopState) \<Rightarrow> Path" where
  "upd_ss path i f = path[i := (fst (path ! i), f (snd (path ! i)))]"

text \<open>
  The rewriting of link times after a state was appended to the path in deterministic
  mode; \<open>ss\<close> is the appended state, \<open>curr\<close> its index (at least 1) and \<open>prev\<close> the index
  before. \<^verbatim>\<open>path[prev_index-1]\<close> with \<open>prev = 0\<close> is a read out of range.
\<close>

definition rewrite_times :: "PathSpecification \<Rightarrow> StopState \<Rightarrow> Path \<Rightarrow> PathFinderError + Path" where
  "rewrite_times path_spec ss path =
     (let curr = length path - 1;
          prev = curr - 1
      in if outbound path_spec then
           (if deparr_mode (snd (path ! prev)) = MODE_ACCESS then
              (let p1 = upd_ss path prev (\<lambda>s. s\<lparr>arrdep_time := deparr_time ss\<rparr>);
                   p2 = upd_ss p1 prev (\<lambda>s. s\<lparr>deparr_time := arrdep_time s - link_time s\<rparr>);
                   p3 = upd_ss p2 curr (\<lambda>s. s\<lparr>link_time := arrdep_time s - deparr_time s\<rparr>)
               in Inr p3)
            else if isTrip (deparr_mode (snd (path ! curr))) then
              Inr (upd_ss path curr (\<lambda>s. s\<lparr>link_time := arrdep_time s - arrdep_time (snd (path ! prev))\<rparr>))
            else if deparr_mode (snd (path ! curr)) = MODE_TRANSFER then
              (let p1 = upd_ss path curr (\<lambda>s. s\<lparr>deparr_time := arrdep_time (snd (path ! prev))\<rparr>);
                   p2 = upd_ss p1 curr (\<lambda>s. s\<lparr>arrdep_time := deparr_time s + link_time s\<rparr>)
               in Inr p2)
            else if deparr_mode ss = MODE_EGRESS then
              (let p1 = upd_ss path curr (\<lambda>s. s\<lparr>deparr_time := arrdep_time (snd (path ! prev))\<rparr>);
                   p2 = upd_ss p1 curr (\<lambda>s. s\<lparr>arrdep_time := deparr_time s + link_time s\<rparr>)
               in Inr p2)
            else Inr path)
         else
           (case
              (if deparr_mode (snd (path ! curr)) = MODE_ACCESS then
                 (let p1 = upd_ss path curr (\<lambda>s. s\<lparr>deparr_time := arrdep_time (snd (path ! prev))\<rparr>);
                      p2 = upd_ss p1 curr (\<lambda>s. s\<lparr>arrdep_time := deparr_time s - link_time s\<rparr>);
                      p3 = upd_ss p2 prev (\<lambda>s. s\<lparr>link_time := deparr_time s - arrdep_time s\<rparr>)
                  in Inr p3)
               else if isTrip (deparr_mode (snd (path ! curr))) then
                 (if deparr_mode (snd (path ! prev)) = MODE_TRANSFER then
                    (if prev = 0 then Inl OUT_OF_RANGE
                     else
                       (let p1 = upd_ss path prev (\<lambda>s. s\<lparr>arrdep_time := deparr_time (snd (path ! curr))\<rparr>);
                            p2 = upd_ss p1 prev
                                   (\<lambda>s. s\<lparr>deparr_time := deparr_time (snd (path ! curr)) + link_time s\<rparr>);
                            p3 = upd_ss p2 (prev - 1)
                                   (\<lambda>s. s\<lparr>link_time := deparr_time s - deparr_time (snd (p2 ! prev))\<rparr>)
                        in Inr p3))
                  else if isTrip (deparr_mode (snd (path ! prev))) then
                    Inr (upd_ss path prev
                           (\<lambda>s. s\<lparr>link_time := deparr_time s - deparr_time (snd (path ! curr))\<rparr>))
                  else Inr path)
               else Inr path) of
              Inl e \<Rightarrow> Inl e
            | Inr p \<Rightarrow>
                if deparr_mode (snd (p ! prev)) = MODE_EGRESS then
                  (let p1 = upd_ss p prev (\<lambda>s. s\<lparr>arrdep_time := deparr_time ss\<rparr>);
                       p2 = upd_ss p1 prev (\<lambda>s. s\<lparr>deparr_time := arrdep_time s + link_time s\<rparr>)
                   in Inr p2)
                else Inr p))"

text \<open>
  The \<^verbatim>\<open>while (ss.deparr_mode_ != final_state_type)\<close> loop of the deterministic branch:
  follow \<^verbatim>\<open>stop_succpred_\<close> and take the front state of that stop. The loop state is the
  copy \<open>ss\<close> and the path.
\<close>

partial_function (option) found_path_loop ::
  "PathSpecification \<Rightarrow> (int \<rightharpoonup> StopState list) \<Rightarrow> StopState \<times> Path \<Rightarrow> (PathFinderError + Path) option" where
  "found_path_loop path_spec sts s =
     (case s of (ss, path) \<Rightarrow>
        if deparr_mode ss = (if outbound path_spec then MODE_EGRESS else MODE_ACCESS)
        then Some (Inr path)
        else
          (case sts (stop_succpred ss) of
             None \<Rightarrow> Some (Inl MISSING_KEY)
           | Some [] \<Rightarrow> Some (Inl EMPTY_STOP_STATE)
           | Some (ss' # _) \<Rightarrow>
               (case rewrite_times path_spec ss' (path @ [(stop_succpred ss, ss')]) of
                  Inl e \<Rightarrow> Some (Inl e)
                | Inr path' \<Rightarrow> found_path_loop path_spec sts (ss', path'))))"

text \<open>\<^verbatim>\<open>m.find(a)->second.find(b)->second\<close> on a table whose inner map is iterated
  elsewhere.\<close>

definition find2 :: "('a \<rightharpoonup> ('b \<times> 'c) list) \<Rightarrow> 'a \<Rightarrow> 'b \<Rightarrow> PathFinderError + 'c" where
  "find2 m a b =
     (case m a of
        None \<Rightarrow> Inl MISSING_KEY
      | Some inner \<Rightarrow> (case map_of inner b of None \<Rightarrow> Inl MISSING_KEY | Some c \<Rightarrow> Inr c))"

text \<open>The attributes of the access or egress link of a TAZ with a supply mode to a stop.\<close>

definition find_access_attr :: "PathFinder \<Rightarrow> int \<Rightarrow> int \<Rightarrow> int \<Rightarrow> PathFinderError + Attributes" where
  "find_access_attr pf taz supply_mode stop =
     (case taz_access_links pf taz of
        None \<Rightarrow> Inl MISSING_KEY
      | Some by_mode \<Rightarrow>
          (case by_mode supply_mode of
             None \<Rightarrow> Inl MISSING_KEY
           | Some links \<Rightarrow>
               (case map_of links stop of None \<Rightarrow> Inl MISSING_KEY | Some a \<Rightarrow> Inr a)))"

text \<open>
  The cost of the link at \<open>index\<close>, from the weights and attributes of its mode; for a
  trip link \<open>first_trip\<close> sets the transfer penalty.
\<close>

definition path_link_cost ::
  "PathFinder \<Rightarrow> PathSpecification \<Rightarrow> int \<Rightarrow> StopState \<Rightarrow> bool \<Rightarrow> PathFinderError + real" where
  "path_link_cost pf path_spec stop stop_state first_trip =
     (let dir_factor = (if outbound path_spec then 1 else - 1) in
      if deparr_mode stop_state = MODE_ACCESS then
        (let orig_departure_time = (if outbound path_spec then deparr_time stop_state
                                    else deparr_time stop_state - link_time stop_state);
             preference_delay = (if outbound path_spec then 0
                                 else orig_departure_time - preferred_time path_spec);
             transit_stop = (if outbound path_spec then stop_succpred stop_state else stop)
         in case find2 (weight_lookup pf) (user_class path_spec, MODE_ACCESS, access_mode path_spec)
                   (trip_id stop_state) of
              Inl e \<Rightarrow> Inl e
            | Inr named_weights \<Rightarrow>
                (case find_access_attr pf (origin_taz_id path_spec) (trip_id stop_state) transit_stop of
                   Inl e \<Rightarrow> Inl e
                 | Inr attributes \<Rightarrow>
                     Inr (tallyLinkCost named_weights
                            (attributes(''preferred_delay_min'' \<mapsto> preference_delay)))))
      else if deparr_mode stop_state = MODE_EGRESS then
        (let dest_arrival_time = (if outbound path_spec then deparr_time stop_state + link_time stop_state
                                  else deparr_time stop_state);
             preference_delay = (if outbound path_spec then preferred_time path_spec - dest_arrival_time
                                 else 0);
             transit_stop = (if outbound path_spec then stop else stop_succpred stop_state)
         in case find2 (weight_lookup pf) (user_class path_spec, MODE_EGRESS, egress_mode path_spec)
                   (trip_id stop_state) of
              Inl e \<Rightarrow> Inl e
            | Inr named_weights \<Rightarrow>
                (case find_access_attr pf (destination_taz_id path_spec) (trip_id stop_state) transit_stop of
                   Inl e \<Rightarrow> Inl e
                 | Inr attributes \<Rightarrow>
                     Inr (tallyLinkCost named_weights
                            (attributes(''preferred_delay_min'' \<mapsto> preference_delay)))))
      else if deparr_mode stop_state = MODE_TRANSFER then
        (let orig_stop = (if outbound path_spec then stop else stop_succpred stop_state);
             dest_stop = (if outbound path_spec then stop_succpred stop_state else stop)
         in case (if orig_stop \<noteq> dest_stop then find2 (transfer_links_o_d pf) orig_stop dest_stop
                  else Inr [''walk_time_min'' \<mapsto> 0]) of
              Inl e \<Rightarrow> Inl e
            | Inr link_attr \<Rightarrow>
                (case find2 (weight_lookup pf) (user_class path_spec, MODE_TRANSFER, ''transfer'')
                        (transfer_supply_mode pf) of
                   Inl e \<Rightarrow> Inl e
                 | Inr named_weights \<Rightarrow>
                     Inr (tallyLinkCost named_weights (link_attr(''transfer_penalty'' \<mapsto> 1)))))
      else
        (let trip_ivt_min = (arrdep_time stop_state - deparr_time stop_state) * dir_factor;
             wait_min = link_time stop_state - trip_ivt_min
         in case trip_info pf (trip_id stop_state) of
              None \<Rightarrow> Inl MISSING_KEY
            | Some tinfo \<Rightarrow>
                (case find2 (weight_lookup pf) (user_class path_spec, MODE_TRANSIT, transit_mode path_spec)
                        (supply_mode_num tinfo) of
                   Inl e \<Rightarrow> Inl e
                 | Inr named_weights \<Rightarrow>
                     Inr (tallyLinkCost named_weights
                            ((trip_attr tinfo)(''in_vehicle_time_min'' \<mapsto> trip_ivt_min,
                                               ''wait_time_min'' \<mapsto> wait_min,
                                               ''transfer_penalty'' \<mapsto> (if first_trip then 0 else 1)))))))"

text \<open>
  One round of the loop of \<^verbatim>\<open>calculatePathCost\<close>. The loop state is \<^verbatim>\<open>index\<close>,
  \<^verbatim>\<open>end_ind\<close>, the path, \<^verbatim>\<open>path_info.cost_\<close> and \<^verbatim>\<open>first_trip\<close>. Indexing the path
  outside its bounds is the error \<open>OUT_OF_RANGE\<close>.
\<close>

definition path_cost_step ::
  "PathFinder \<Rightarrow> PathSpecification \<Rightarrow> int \<times> int \<times> Path \<times> real \<times> bool \<Rightarrow>
   PathFinderError + (int \<times> int \<times> Path \<times> real \<times> bool)" where
  "path_cost_step pf path_spec s =
     (case s of (index, end_ind, path, cost_sum, first_trip) \<Rightarrow>
        (let inc = (if outbound path_spec then 1 else - 1) in
         if index < 0 \<or> int (length path) \<le> index then Inl OUT_OF_RANGE
         else
           (let stop = fst (path ! nat index);
                stop_state = snd (path ! nat index)
            in case path_link_cost pf path_spec stop stop_state first_trip of
                 Inl e \<Rightarrow> Inl e
               | Inr c \<Rightarrow>
                   (let path1 = upd_ss path (nat index) (\<lambda>s. s\<lparr>cost := c\<rparr>);
                        cost_sum1 = cost_sum + c
                    in if deparr_mode stop_state = MODE_ACCESS \<or> deparr_mode stop_state = MODE_EGRESS \<or>
                          deparr_mode stop_state = MODE_TRANSFER
                       then Inr (index + inc, end_ind, path1, cost_sum1, first_trip)
                       else if index + inc < 0 \<or> int (length path1) \<le> index + inc then Inl OUT_OF_RANGE
                       else if isTrip (deparr_mode (snd (path1 ! nat (index + inc)))) then
                         (let xfer_stop_id = (if outbound path_spec then stop_succpred stop_state else stop);
                              t = (if outbound path_spec then arrdep_time stop_state
                                   else deparr_time stop_state);
                              xfer_state =
                                \<lparr>deparr_time = t, deparr_mode = MODE_TRANSFER,
                                 trip_id = transfer_supply_mode pf, stop_succpred = xfer_stop_id,
                                 seq = - 1, seq_succpred = - 1, link_time = 0, link_cost = 0,
                                 cost = c, iteration = - 1, arrdep_time = t\<rparr>
                          in if outbound path_spec
                             then Inr (index + inc, end_ind + 1,
                                       take (nat index + 1) path1 @ [(xfer_stop_id, xfer_state)] @
                                         drop (nat index + 1) path1,
                                       cost_sum1, False)
                             else Inr (index + 1 + inc, end_ind,
                                       take (nat index) path1 @ [(stop, xfer_state)] @
                                         drop (nat index) path1,
                                       cost_sum1, False))
                       else Inr (index + inc, end_ind, path1, cost_sum1, False)))))"

partial_function (option) calculatePathCost_loop ::
  "PathFinder \<Rightarrow> PathSpecification \<Rightarrow> int \<times> int \<times> Path \<times> real \<times> bool \<Rightarrow>
   (PathFinderError + (Path \<times> real)) option" where
  "calculatePathCost_loop pf path_spec s =
     (case s of (index, end_ind, path, cost_sum, first_trip) \<Rightarrow>
        if index = end_ind then Some (Inr (path, cost_sum))
        else
          (case path_cost_step pf path_spec (index, end_ind, path, cost_sum, first_trip) of
             Inl e \<Rightarrow> Some (Inl e)
           | Inr s' \<Rightarrow> calculatePathCost_loop pf path_spec s'))"

definition calculatePathCost ::
  "PathFinder \<Rightarrow> PathSpecification \<Rightarrow> Path \<Rightarrow> PathInfo \<Rightarrow> (PathFinderError + (Path \<times> PathInfo)) option" where
  "calculatePathCost pf path_spec path path_info =
     (if length path = 0 then Some (Inr (path, path_info))
      else
        (let start_ind = (if outbound path_spec then 0 else int (length path) - 1);
             end_ind = (if outbound path_spec then int (length path) else - 1)
         in case calculatePathCost_loop pf path_spec (start_ind, end_ind, path, 0, True) of
              None \<Rightarrow> None
            | Some (Inl e) \<Rightarrow> Some (Inl e)
            | Some (Inr (path', cost_sum)) \<Rightarrow> Some (Inr (path', path_info\<lparr>pi_cost := cost_sum\<rparr>))))"

text \<open>
  \<open>getFoundPath\<close> writes the path and the path information through its reference
  arguments. The pathset generation and choice of hyperpath mode
  (\<^verbatim>\<open>hyperpathGeneratePath\<close>, \<^verbatim>\<open>choosePath\<close>, \<^verbatim>\<open>chooseState\<close>) draw numbers from the C
  library's \<^verbatim>\<open>rand()\<close> and truncate floating-point probabilities to integers; they are
  the argument \<open>choose_hyperpath\<close>, called where the source enters the hyperpath branch.
\<close>

type_synonym hyperpath_chooser =
  "LabelingState \<Rightarrow> Path \<Rightarrow> PathInfo \<Rightarrow> (PathFinderError + (Path \<times> PathInfo)) option"

definition getFoundPath ::
  "PathFinder \<Rightarrow> PathSpecification \<Rightarrow> hyperpath_chooser \<Rightarrow> LabelingState \<Rightarrow> Path \<Rightarrow> PathInfo \<Rightarrow>
   (PathFinderError + (Path \<times> PathInfo)) option" where
  "getFoundPath pf path_spec choose_hyperpath st path path_info =
     (let end_taz_id = (if outbound path_spec then origin_taz_id path_spec
                        else destination_taz_id path_spec)
      in case stop_states st end_taz_id of
           None \<Rightarrow> Some (Inl MISSING_KEY)
         | Some [] \<Rightarrow> Some (Inr (path, path_info))
         | Some (ss # taz_rest) \<Rightarrow>
             if hyperpath path_spec then choose_hyperpath st path path_info
             else
               (case found_path_loop path_spec (stop_states st) (ss, path @ [(end_taz_id, ss)]) of
                  None \<Rightarrow> None
                | Some (Inl e) \<Rightarrow> Some (Inl e)
                | Some (Inr path') \<Rightarrow> calculatePathCost pf path_spec path' path_info))"

text \<open>
  \<open>findPath\<close>: seeding (its flag is ignored by the source), labeling, finalization, path.
  The results are the path, the path information, \<^verbatim>\<open>label_iterations_\<close> and
  \<^verbatim>\<open>max_process_count_\<close>; the measured milliseconds are not modelled.
\<close>

definition findPath ::
  "PathFinder \<Rightarrow> PathSpecification \<Rightarrow> hyperpath_chooser \<Rightarrow> int \<Rightarrow> int \<Rightarrow> Path \<Rightarrow> PathInfo \<Rightarrow> int \<Rightarrow>
   (PathFinderError + (Path \<times> PathInfo \<times> int \<times> int)) option" where
  "findPath pf path_spec choose_hyperpath mode_transit_num uninit_last_stop_id path path_info
       max_process_count =
     (case initializeStopStates pf path_spec LabelingState_init of
        Inl e \<Rightarrow> Some (Inl e)
      | Inr (success, st1) \<Rightarrow>
          (case labelStops pf path_spec uninit_last_stop_id st1 max_process_count of
             None \<Rightarrow> None
           | Some (Inl e) \<Rightarrow> Some (Inl e)
           | Some (Inr (st2, label_iterations, mpc)) \<Rightarrow>
               (case finalizeTazState pf path_spec mode_transit_num label_iterations st2 of
                  Inl e \<Rightarrow> Some (Inl e)
                | Inr st3 \<Rightarrow>
                    (case getFoundPath pf path_spec choose_hyperpath st3 path path_info of
                       None \<Rightarrow> None
                     | Some (Inl e) \<Rightarrow> Some (Inl e)
                     | Some (Inr (path', path_info')) \<Rightarrow>
                         Some (Inr (path', path_info', label_iterations, mpc))))))"

text \<open>
  The entry point \<^verbatim>\<open>_fasttrips_find_path\<close> of \<^verbatim>\<open>fasttrips.cpp\<close> calls \<open>findPath\<close> with an
  empty path, the path information \<^verbatim>\<open>{0, 0, false, 0, 0}\<close> and zeroed performance
  counters, and returns the path and \<^verbatim>\<open>path_info.cost_\<close>.
\<close>

definition fasttrips_find_path ::
  "PathFinder \<Rightarrow> PathSpecification \<Rightarrow> hyperpath_chooser \<Rightarrow> int \<Rightarrow> int \<Rightarrow>
   (PathFinderError + (Path \<times> PathInfo \<times> int \<times> int)) option" where
  "fasttrips_find_path pf path_spec choose_hyperpath mode_transit_num uninit_last_stop_id =
     findPath pf path_spec choose_hyperpath mode_transit_num uninit_last_stop_id []
       \<lparr>pi_count = 0, pi_cost = 0, pi_capacity_problem = False, pi_probability = 0, pi_prob_i = 0\<rparr> 0"

section \<open>Invariants of the Label-Stop Queue\<close>

definition stop_instances :: "int \<Rightarrow> LabelStop list \<Rightarrow> nat" where
  "stop_instances s h = length (filter (\<lambda>ls. stop_id ls = s) h)"

definition valid_stops :: "(int \<rightharpoonup> LabelCount) \<Rightarrow> int set" where
  "valid_stops m = {s. \<exists>lc. m s = Some lc \<and> lc_valid lc}"

definition heap_inv :: "LabelStop list \<Rightarrow> (int \<rightharpoonup> LabelCount) \<Rightarrow> bool" where
  "heap_inv h m \<longleftrightarrow>
     (\<forall>ls \<in> set h. m (stop_id ls) \<noteq> None) \<and>
     (\<forall>s lc. m s = Some lc \<longrightarrow> lc_count lc = int (stop_instances s h)) \<and>
     (\<forall>s lc. m s = Some lc \<longrightarrow> lc_valid lc \<longrightarrow> \<lparr>label = lc_label lc, stop_id = s\<rparr> \<in> set h)"

definition queue_inv :: "LabelStopQueue \<Rightarrow> bool" where
  "queue_inv q \<longleftrightarrow>
     heap_inv (labelstop_priority_queue q) (labelstop_map q) \<and>
     finite (dom (labelstop_map q)) \<and>
     valid_count q = int (card (valid_stops (labelstop_map q)))"

definition pop_post ::
  "LabelStop list \<Rightarrow> (int \<rightharpoonup> LabelCount) \<Rightarrow> int \<Rightarrow> LabelStop \<Rightarrow> LabelStopQueue \<Rightarrow> bool" where
  "pop_post h m vc ls q' \<longleftrightarrow>
     (\<exists>lc. m (stop_id ls) = Some lc \<and> lc_valid lc \<and> lc_label lc = label ls) \<and>
     (\<exists>stale. h = stale @ ls # labelstop_priority_queue q') \<and>
     (\<exists>lc'. labelstop_map q' (stop_id ls) = Some lc' \<and> \<not> lc_valid lc') \<and>
     dom (labelstop_map q') = dom m \<and>
     valid_stops (labelstop_map q') = valid_stops m - {stop_id ls} \<and>
     valid_count q' = vc - 1 \<and>
     heap_inv (labelstop_priority_queue q') (labelstop_map q')"

section \<open>Auxiliary notions for the properties\<close>

text \<open>
  The aggregate hyperpath cost of a list of stop states: the value \<^verbatim>\<open>addStopState\<close>
  computes from the states it tallies, \<open>None\<close> standing for the plus infinity that the
  source gets from \<^verbatim>\<open>log(0)\<close>. \<open>agg_le\<close> is the order on these values.
\<close>

definition aggregate_cost :: "real \<Rightarrow> StopState list \<Rightarrow> real option" where
  "aggregate_cost theta states =
     (let s = (\<Sum>\<sigma>\<leftarrow>states. exp_cost theta (cost \<sigma>))
      in if s = 0 then None else Some (logsum_cost theta s))"

definition agg_le :: "real option \<Rightarrow> real option \<Rightarrow> bool" where
  "agg_le a b = (case b of None \<Rightarrow> True | Some y \<Rightarrow> (case a of None \<Rightarrow> False | Some x \<Rightarrow> x \<le> y))"

text \<open>
  The window invariant of the hyperpath stop-state store: every stop with stop states has
  a hyperpath state, and every stop state lies within the time window of the stop's anchor
  \<open>latest_dep_earliest_arr\<close>, on the side that the direction prunes. \<open>scan_inv\<close> is the
  invariant of the scan loop of \<open>addStopState\<close> after \<open>k\<close> rounds.
\<close>

definition window_inv :: "PathFinder \<Rightarrow> PathSpecification \<Rightarrow> LabelingState \<Rightarrow> bool" where
  "window_inv pf path_spec st \<longleftrightarrow>
     (\<forall>stop v. stop_states st stop = Some v \<longrightarrow> v \<noteq> [] \<longrightarrow>
        (\<exists>hss. hyperpath_ss st stop = Some hss \<and>
           (\<forall>\<sigma> \<in> set v.
              if outbound path_spec
              then latest_dep_earliest_arr hss - TIME_WINDOW pf \<le> deparr_time \<sigma>
              else deparr_time \<sigma> \<le> latest_dep_earliest_arr hss + TIME_WINDOW pf)))"

definition scan_inv :: "PathFinder \<Rightarrow> bool \<Rightarrow> real \<Rightarrow> nat \<Rightarrow> nat \<Rightarrow> scan_state \<Rightarrow> bool" where
  "scan_inv pf outb anchor n k sc \<longleftrightarrow>
     length (fst sc) = n \<and>
     sorted_wrt (>) (snd (snd (snd sc))) \<and>
     (\<forall>p \<in> set (snd (snd (snd sc))). p < k) \<and>
     (\<forall>i < k. i \<notin> set (snd (snd (snd sc))) \<longrightarrow>
          \<not> outside_window outb (TIME_WINDOW pf) anchor (deparr_time (fst sc ! i)))"


text \<open>
  What the hyperpath branch of \<open>addStopState\<close> stores for a stop with hyperpath state
  \<open>hss0\<close> when the new state is not rejected: whether the anchor moves, the new anchor,
  the new vector of stop states, the sum under the logarithm, and the new hyperpath state.
\<close>

definition hp_window :: "bool \<Rightarrow> StopState \<Rightarrow> HyperpathState \<Rightarrow> bool" where
  "hp_window outb ss hss0 =
     ((outb \<and> deparr_time ss > latest_dep_earliest_arr hss0) \<or>
      (\<not> outb \<and> deparr_time ss < latest_dep_earliest_arr hss0))"

definition hp_anchor :: "bool \<Rightarrow> StopState \<Rightarrow> HyperpathState \<Rightarrow> real" where
  "hp_anchor outb ss hss0 =
     (if hp_window outb ss hss0 then deparr_time ss else latest_dep_earliest_arr hss0)"

definition hp_stop_states ::
  "PathFinder \<Rightarrow> bool \<Rightarrow> int \<Rightarrow> StopState \<Rightarrow> HyperpathState \<Rightarrow> LabelingState \<Rightarrow> StopState list" where
  "hp_stop_states pf outb stop ss hss0 st =
     (let sc = scan_stop_states pf outb (hp_anchor outb ss hss0) ss (fst (stop_states_at st stop));
          v2 = prune_window (fst sc) (snd (snd (snd sc)))
      in if \<not> fst (snd sc) then v2 @ [ss] else v2)"

definition hp_sum ::
  "PathFinder \<Rightarrow> bool \<Rightarrow> int \<Rightarrow> StopState \<Rightarrow> HyperpathState \<Rightarrow> LabelingState \<Rightarrow> real" where
  "hp_sum pf outb stop ss hss0 st =
     (let sc = scan_stop_states pf outb (hp_anchor outb ss hss0) ss (fst (stop_states_at st stop))
      in if \<not> fst (snd sc) then fst (snd (snd sc)) + exp_cost (STOCH_DISPERSION pf) (cost ss)
         else fst (snd (snd sc)))"

definition hp_hyperpath_state ::
  "PathFinder \<Rightarrow> bool \<Rightarrow> int \<Rightarrow> StopState \<Rightarrow> HyperpathState \<Rightarrow> LabelingState \<Rightarrow> HyperpathState" where
  "hp_hyperpath_state pf outb stop ss hss0 st =
     (let hss1 = (if hp_window outb ss hss0
                  then hss0\<lparr>latest_dep_earliest_arr := deparr_time ss, lder_trip_id := trip_id ss\<rparr>
                  else hss0);
          hc = logsum_cost (STOCH_DISPERSION pf) (hp_sum pf outb stop ss hss0 st)
      in if \<bar>hc - hyperpath_cost hss1\<bar> > 1 / 10000 then hss1\<lparr>hyperpath_cost := hc\<rparr> else hss1)"


text \<open>
  The exact result of the scan loop after \<open>k\<close> rounds: the first \<open>k\<close> states with the
  matching ones replaced by the new state, whether one matched, the sum of the terms of
  those inside the window, and the indices of those outside it, last first.
\<close>

definition substitute_link :: "StopState \<Rightarrow> StopState \<Rightarrow> StopState" where
  "substitute_link ss x = (if same_link x ss then ss else x)"

definition scan_exact :: "PathFinder \<Rightarrow> bool \<Rightarrow> real \<Rightarrow> StopState \<Rightarrow> StopState list \<Rightarrow> nat \<Rightarrow> scan_state \<Rightarrow> bool" where
  "scan_exact pf outb anchor ss v k sc \<longleftrightarrow>
     fst sc = map (substitute_link ss) (take k v) @ drop k v \<and>
     fst (snd sc) = (\<exists>x \<in> set (take k v). same_link x ss) \<and>
     fst (snd (snd sc)) =
       (\<Sum>x\<leftarrow>filter (\<lambda>x. \<not> outside_window outb (TIME_WINDOW pf) anchor (deparr_time x))
                  (map (substitute_link ss) (take k v)). exp_cost (STOCH_DISPERSION pf) (cost x)) \<and>
     snd (snd (snd sc)) =
       rev (filter (\<lambda>i. outside_window outb (TIME_WINDOW pf) anchor
                          (deparr_time (map (substitute_link ss) v ! i))) [0..<k])"

text \<open>
  Well-formedness of the access and egress links of a TAZ: every link has the mandatory
  attribute \<open>time_min\<close>, and leads to a stop other than the TAZ itself.
\<close>

definition access_links_wf :: "PathFinder \<Rightarrow> int \<Rightarrow> bool" where
  "access_links_wf pf taz \<longleftrightarrow>
     (\<forall>by_mode supply_mode links link.
        taz_access_links pf taz = Some by_mode \<longrightarrow> by_mode supply_mode = Some links \<longrightarrow>
        link \<in> set links \<longrightarrow> snd link ''time_min'' \<noteq> None \<and> fst link \<noteq> taz)"

section \<open>Example inputs\<close>

text \<open>
  A small network after scenario S2 of the specification: TAZ 1 (origin) with an access
  link of 5 minutes to stop 11, TAZ 2 (destination) with an egress link of 5 minutes from
  stop 12, and trip 1 from stop 11 (departure 500) to stop 12 (arrival 510). Stop 12 is
  also served by trips 2 and 3, whose events lie on the borders of the time window of
  timepoint 515. A transfer link of 10 minutes leads from stop 13 to stop 11. The configuration is that of the repository's example configuration file:
  a time window of 30 minutes, a bump buffer of 5 minutes, dispersion 0.2.
\<close>

definition ex_stop_times_12 :: "TripStopTime list" where
  "ex_stop_times_12 =
     [\<lparr>tst_trip_id = 1, tst_seq = 2, tst_stop_id = 12, arrive_time = 510, depart_time = 510\<rparr>,
      \<lparr>tst_trip_id = 2, tst_seq = 1, tst_stop_id = 12, arrive_time = 515, depart_time = 515\<rparr>,
      \<lparr>tst_trip_id = 3, tst_seq = 1, tst_stop_id = 12, arrive_time = 485, depart_time = 545\<rparr>]"

definition ex_walk_weights :: NamedWeights where
  "ex_walk_weights = [(''preferred_delay_min'', 1 / 2), (''time_min'', 2)]"

definition ex_transit_weights :: NamedWeights where
  "ex_transit_weights = [(''in_vehicle_time_min'', 1), (''transfer_penalty'', 10), (''wait_time_min'', 2)]"

definition ex_pf :: PathFinder where
  "ex_pf =
     \<lparr>TIME_WINDOW = 30, BUMP_BUFFER = 5, STOCH_PATHSET_SIZE = 1000, STOCH_DISPERSION = 1 / 5,
      STOCH_MAX_STOP_PROCESS_COUNT = 1,
      trip_stop_times =
        [1 \<mapsto> [\<lparr>tst_trip_id = 1, tst_seq = 1, tst_stop_id = 11, arrive_time = 500, depart_time = 500\<rparr>,
                \<lparr>tst_trip_id = 1, tst_seq = 2, tst_stop_id = 12, arrive_time = 510, depart_time = 510\<rparr>],
         2 \<mapsto> [\<lparr>tst_trip_id = 2, tst_seq = 1, tst_stop_id = 12, arrive_time = 515, depart_time = 515\<rparr>],
         3 \<mapsto> [\<lparr>tst_trip_id = 3, tst_seq = 1, tst_stop_id = 12, arrive_time = 485, depart_time = 545\<rparr>]],
      stop_trip_times =
        [11 \<mapsto> [\<lparr>tst_trip_id = 1, tst_seq = 1, tst_stop_id = 11, arrive_time = 500, depart_time = 500\<rparr>],
         12 \<mapsto> ex_stop_times_12],
      taz_access_links =
        [1 \<mapsto> [101 \<mapsto> [(11, [''time_min'' \<mapsto> 5])]],
         2 \<mapsto> [101 \<mapsto> [(12, [''time_min'' \<mapsto> 5])]]],
      transfer_links_o_d = [13 \<mapsto> [(11, [''time_min'' \<mapsto> 10])]],
      transfer_links_d_o = [11 \<mapsto> [(13, [''time_min'' \<mapsto> 10])]],
      trip_info =
        [1 \<mapsto> \<lparr>supply_mode_num = 201, route_id = 1, trip_attr = Map.empty\<rparr>,
         2 \<mapsto> \<lparr>supply_mode_num = 201, route_id = 2, trip_attr = Map.empty\<rparr>,
         3 \<mapsto> \<lparr>supply_mode_num = 201, route_id = 3, trip_attr = Map.empty\<rparr>],
      weight_lookup =
        [(''all'', MODE_ACCESS, ''walk'') \<mapsto> [(101, ex_walk_weights)],
         (''all'', MODE_EGRESS, ''walk'') \<mapsto> [(101, ex_walk_weights)],
         (''all'', MODE_TRANSIT, ''transit'') \<mapsto> [(201, ex_transit_weights)],
         (''all'', MODE_TRANSFER, ''transfer'') \<mapsto> [(1, [(''time_min'', 2), (''transfer_penalty'', 10)])]],
      bump_wait = Map.empty,
      transfer_supply_mode = 1\<rparr>"

definition ex_spec :: PathSpecification where
  "ex_spec =
     \<lparr>spec_iteration = 1, passenger_id = 1, path_id = 1, hyperpath = False, outbound = True,
      user_class = ''all'', access_mode = ''walk'', transit_mode = ''transit'', egress_mode = ''walk'',
      origin_taz_id = 1, destination_taz_id = 2, preferred_time = 520, trace = False\<rparr>"

text \<open>Stop states for the examples: a trip link at stop 11 as the labeling of the network
  produces it, and two hyperpath candidates of one stop that are 50 minutes apart.\<close>

definition ex_trip_state :: StopState where
  "ex_trip_state =
     \<lparr>deparr_time = 500, deparr_mode = MODE_TRANSIT, trip_id = 1, stop_succpred = 12,
      seq = 1, seq_succpred = 2, link_time = 15, link_cost = 15, cost = 20,
      iteration = 1, arrdep_time = 510\<rparr>"

definition ex_early_state :: StopState where
  "ex_early_state =
     \<lparr>deparr_time = 100, deparr_mode = MODE_TRANSIT, trip_id = 7, stop_succpred = 12,
      seq = 1, seq_succpred = 2, link_time = 15, link_cost = 15, cost = 20,
      iteration = 1, arrdep_time = 115\<rparr>"

definition ex_late_state :: StopState where
  "ex_late_state =
     \<lparr>deparr_time = 150, deparr_mode = MODE_TRANSIT, trip_id = 8, stop_succpred = 12,
      seq = 1, seq_succpred = 2, link_time = 15, link_cost = 15, cost = 22,
      iteration = 1, arrdep_time = 165\<rparr>"

section \<open>Properties of the Label-Stop Queue\<close>

lemma set_pq_push: "set (pq_push x h) = insert x (set h)"
  by (induction h) auto

lemma stop_instances_pq_push:
  "stop_instances s (pq_push x h) = (if stop_id x = s then Suc (stop_instances s h) else stop_instances s h)"
  by (induction h) (auto simp: stop_instances_def)

lemma stop_instances_Cons:
  "stop_instances s (x # h) = (if stop_id x = s then Suc (stop_instances s h) else stop_instances s h)"
  by (simp add: stop_instances_def)

lemma LabelStop_eq: "\<lparr>label = label (x::LabelStop), stop_id = stop_id x\<rparr> = x"
  by simp

lemma finite_valid_stops: "finite (dom m) \<Longrightarrow> finite (valid_stops m)"
  by (rule finite_subset[of _ "dom m"]) (auto simp: valid_stops_def)

lemma stop_instances_absent:
  "\<forall>ls \<in> set h. stop_id ls \<noteq> s \<Longrightarrow> stop_instances s h = 0"
  by (induction h) (auto simp: stop_instances_def)

lemma heap_inv_unmapped:
  assumes "heap_inv h m" and "m s = None"
  shows "stop_instances s h = 0"
proof (rule stop_instances_absent, rule ballI)
  fix ls assume "ls \<in> set h"
  with assms(1) have "m (stop_id ls) \<noteq> None" by (simp add: heap_inv_def)
  with assms(2) show "stop_id ls \<noteq> s" by auto
qed

lemma heap_inv_push:
  assumes "heap_inv (labelstop_priority_queue q) (labelstop_map q)"
  shows "heap_inv (labelstop_priority_queue (push val q)) (labelstop_map (push val q))"
proof (cases "labelstop_map q (stop_id val)")
  case None
  from heap_inv_unmapped[OF assms None] assms None show ?thesis
    unfolding heap_inv_def push_def
    by (auto simp: set_pq_push stop_instances_pq_push)
next
  case (Some lc)
  with assms show ?thesis
    unfolding heap_inv_def push_def
    by (auto simp: set_pq_push stop_instances_pq_push)
qed

lemma valid_stops_upd_valid:
  "lc_valid lc \<Longrightarrow> valid_stops (m(s \<mapsto> lc)) = insert s (valid_stops m)"
  by (auto simp: valid_stops_def)

lemma valid_stops_upd_invalid:
  "\<not> lc_valid lc \<Longrightarrow> valid_stops (m(s \<mapsto> lc)) = valid_stops m - {s}"
  by (auto simp: valid_stops_def)

lemma queue_inv_push:
  assumes "queue_inv q"
  shows "queue_inv (push val q)"
proof -
  have h: "heap_inv (labelstop_priority_queue (push val q)) (labelstop_map (push val q))"
    using assms heap_inv_push by (simp add: queue_inv_def)
  have f: "finite (dom (labelstop_map (push val q)))"
    using assms by (auto simp: queue_inv_def push_def split: option.splits)
  have fv: "finite (valid_stops (labelstop_map q))"
    using assms by (simp add: queue_inv_def finite_valid_stops)
  have c: "valid_count (push val q) = int (card (valid_stops (labelstop_map (push val q))))"
  proof (cases "labelstop_map q (stop_id val)")
    case None
    then have "stop_id val \<notin> valid_stops (labelstop_map q)" by (simp add: valid_stops_def)
    with None fv assms show ?thesis
      by (simp add: push_def queue_inv_def valid_stops_upd_valid)
  next
    case (Some lc)
    show ?thesis
    proof (cases "lc_valid lc")
      case False
      with Some have "stop_id val \<notin> valid_stops (labelstop_map q)" by (simp add: valid_stops_def)
      with Some False fv assms show ?thesis
        by (simp add: push_def queue_inv_def valid_stops_upd_valid)
    next
      case True
      with Some have "stop_id val \<in> valid_stops (labelstop_map q)" by (auto simp: valid_stops_def)
      then have "insert (stop_id val) (valid_stops (labelstop_map q)) = valid_stops (labelstop_map q)"
        by auto
      with Some True assms show ?thesis
        by (simp add: push_def queue_inv_def valid_stops_upd_valid)
    qed
  qed
  from h f c show ?thesis by (simp add: queue_inv_def)
qed

lemma heap_inv_stale:
  assumes "heap_inv (ls # rest) m" and "m (stop_id ls) = Some lc"
    and "\<not> lc_valid lc \<or> lc_label lc \<noteq> label ls"
  shows "heap_inv rest (m(stop_id ls \<mapsto> lc\<lparr>lc_count := lc_count lc - 1\<rparr>))"
  unfolding heap_inv_def
proof (intro conjI ballI allI impI)
  fix x assume "x \<in> set rest"
  with assms(1) show "(m(stop_id ls \<mapsto> lc\<lparr>lc_count := lc_count lc - 1\<rparr>)) (stop_id x) \<noteq> None"
    by (auto simp: heap_inv_def)
next
  fix s lc' assume a: "(m(stop_id ls \<mapsto> lc\<lparr>lc_count := lc_count lc - 1\<rparr>)) s = Some lc'"
  show "lc_count lc' = int (stop_instances s rest)"
  proof (cases "s = stop_id ls")
    case True
    with a have "lc' = lc\<lparr>lc_count := lc_count lc - 1\<rparr>" by simp
    moreover have "lc_count lc = int (stop_instances (stop_id ls) (ls # rest))"
      using assms(1,2) by (simp add: heap_inv_def)
    ultimately show ?thesis using True by (simp add: stop_instances_Cons)
  next
    case False
    with a have "m s = Some lc'" by simp
    then have "lc_count lc' = int (stop_instances s (ls # rest))"
      using assms(1) by (simp add: heap_inv_def)
    with False show ?thesis by (simp add: stop_instances_Cons)
  qed
next
  fix s lc' assume a: "(m(stop_id ls \<mapsto> lc\<lparr>lc_count := lc_count lc - 1\<rparr>)) s = Some lc'"
    and v: "lc_valid lc'"
  show "\<lparr>label = lc_label lc', stop_id = s\<rparr> \<in> set rest"
  proof (cases "s = stop_id ls")
    case True
    with a have e: "lc' = lc\<lparr>lc_count := lc_count lc - 1\<rparr>" by simp
    with v have "lc_valid lc" by simp
    with assms(3) have ne: "lc_label lc \<noteq> label ls" by simp
    from assms(1,2) \<open>lc_valid lc\<close> have "\<lparr>label = lc_label lc, stop_id = stop_id ls\<rparr> \<in> set (ls # rest)"
      by (simp add: heap_inv_def)
    moreover from ne have "\<lparr>label = lc_label lc, stop_id = stop_id ls\<rparr> \<noteq> ls"
      by (cases ls) auto
    ultimately show ?thesis using True e by simp
  next
    case False
    with a have ms: "m s = Some lc'" by simp
    with v assms(1) have "\<lparr>label = lc_label lc', stop_id = s\<rparr> \<in> set (ls # rest)"
      by (simp add: heap_inv_def)
    moreover from False have "\<lparr>label = lc_label lc', stop_id = s\<rparr> \<noteq> ls"
      by (cases ls) auto
    ultimately show ?thesis by simp
  qed
qed

lemma heap_inv_return:
  assumes "heap_inv (ls # rest) m" and "m (stop_id ls) = Some lc"
  shows "heap_inv rest (m(stop_id ls \<mapsto> lc\<lparr>lc_valid := False, lc_count := lc_count lc - 1\<rparr>))"
proof -
  define lc0 where "lc0 = lc\<lparr>lc_valid := False\<rparr>"
  define m0 where "m0 = m(stop_id ls \<mapsto> lc0)"
  have 1: "heap_inv (ls # rest) m0"
    using assms unfolding heap_inv_def m0_def lc0_def by (auto split: if_splits)
  have 2: "m0 (stop_id ls) = Some lc0" by (simp add: m0_def)
  have 3: "\<not> lc_valid lc0 \<or> lc_label lc0 \<noteq> label ls" by (simp add: lc0_def)
  have "m0(stop_id ls \<mapsto> lc0\<lparr>lc_count := lc_count lc0 - 1\<rparr>)
        = m(stop_id ls \<mapsto> lc\<lparr>lc_valid := False, lc_count := lc_count lc - 1\<rparr>)"
    by (simp add: m0_def lc0_def)
  with heap_inv_stale[OF 1 2 3] show ?thesis by simp
qed


lemma pop_post_stale:
  assumes p: "pop_post rest (m(stop_id ls \<mapsto> lc\<lparr>lc_count := lc_count lc - 1\<rparr>)) vc ls' q'"
    and lc: "m (stop_id ls) = Some lc"
  shows "pop_post (ls # rest) m vc ls' q'"
proof -
  let ?lc = "lc\<lparr>lc_count := lc_count lc - 1\<rparr>"
  have vs: "valid_stops (m(stop_id ls \<mapsto> ?lc)) = valid_stops m"
    using lc by (auto simp: valid_stops_def)
  have dm: "dom (m(stop_id ls \<mapsto> ?lc)) = dom m" using lc by auto
  from p obtain lc1 where l1: "(m(stop_id ls \<mapsto> ?lc)) (stop_id ls') = Some lc1"
    "lc_valid lc1" "lc_label lc1 = label ls'"
    unfolding pop_post_def by blast
  have a: "\<exists>lc2. m (stop_id ls') = Some lc2 \<and> lc_valid lc2 \<and> lc_label lc2 = label ls'"
  proof (cases "stop_id ls' = stop_id ls")
    case True
    with l1 have "lc1 = ?lc" by simp
    with l1 True lc show ?thesis by simp
  next
    case False
    with l1 show ?thesis by simp
  qed
  from p obtain stale where "rest = stale @ ls' # labelstop_priority_queue q'"
    unfolding pop_post_def by blast
  then have "ls # rest = (ls # stale) @ ls' # labelstop_priority_queue q'" by simp
  then have b: "\<exists>stale. ls # rest = stale @ ls' # labelstop_priority_queue q'" by blast
  from p have c: "\<exists>lc'. labelstop_map q' (stop_id ls') = Some lc' \<and> \<not> lc_valid lc'"
    unfolding pop_post_def by blast
  from p dm have d: "dom (labelstop_map q') = dom m" unfolding pop_post_def by simp
  from p vs have e: "valid_stops (labelstop_map q') = valid_stops m - {stop_id ls'}"
    unfolding pop_post_def by simp
  from p have f: "valid_count q' = vc - 1" unfolding pop_post_def by blast
  from p have g: "heap_inv (labelstop_priority_queue q') (labelstop_map q')"
    unfolding pop_post_def by blast
  show ?thesis unfolding pop_post_def using a b c d e f g by blast
qed

lemma pop_post_return:
  assumes hi: "heap_inv (ls # rest) m" and lc: "m (stop_id ls) = Some lc"
    and v: "lc_valid lc" and e: "lc_label lc = label ls"
  shows "pop_post (ls # rest) m vc ls
           \<lparr>labelstop_priority_queue = rest,
            labelstop_map = m(stop_id ls \<mapsto> lc\<lparr>lc_valid := False, lc_count := lc_count lc - 1\<rparr>),
            valid_count = vc - 1\<rparr>"
proof -
  have a: "\<exists>lc. m (stop_id ls) = Some lc \<and> lc_valid lc \<and> lc_label lc = label ls"
    using lc v e by blast
  have b: "ls # rest = [] @ ls # rest" by simp
  have d: "dom (m(stop_id ls \<mapsto> lc\<lparr>lc_valid := False, lc_count := lc_count lc - 1\<rparr>)) = dom m"
    using lc by auto
  have vs: "valid_stops (m(stop_id ls \<mapsto> lc\<lparr>lc_valid := False, lc_count := lc_count lc - 1\<rparr>))
            = valid_stops m - {stop_id ls}"
    by (simp add: valid_stops_upd_invalid)
  show ?thesis
    unfolding pop_post_def
    using a b d vs heap_inv_return[OF hi lc] by (simp del: append_Nil)
qed

lemma pop_top_loop_returns:
  assumes "heap_inv h m" and "valid_stops m \<noteq> {}"
  shows "\<exists>ls q'. pop_top_loop h m vc = Inr (ls, q') \<and> pop_post h m vc ls q'"
  using assms
proof (induction h arbitrary: m)
  case Nil
  then show ?case by (auto simp: heap_inv_def valid_stops_def)
next
  case (Cons ls rest)
  from Cons.prems(1) obtain lc where lc: "m (stop_id ls) = Some lc"
    by (auto simp: heap_inv_def)
  with Cons.prems(1) have "lc_count lc = int (stop_instances (stop_id ls) (ls # rest))"
    by (simp add: heap_inv_def)
  then have pos: "\<not> lc_count lc \<le> 0" by (simp add: stop_instances_Cons)
  show ?case
  proof (cases "\<not> lc_valid lc \<or> lc_label lc \<noteq> label ls")
    case True
    define m' where "m' = m(stop_id ls \<mapsto> lc\<lparr>lc_count := lc_count lc - 1\<rparr>)"
    have hi: "heap_inv rest m'" unfolding m'_def by (rule heap_inv_stale[OF Cons.prems(1) lc True])
    have "valid_stops m' = valid_stops m"
      using lc by (auto simp: valid_stops_def m'_def)
    with Cons.prems(2) have ne: "valid_stops m' \<noteq> {}" by simp
    from Cons.IH[OF hi ne] obtain ls' q' where r:
      "pop_top_loop rest m' vc = Inr (ls', q')" "pop_post rest m' vc ls' q'"
      by blast
    have step: "pop_top_loop (ls # rest) m vc = pop_top_loop rest m' vc"
      using lc pos True by (simp add: m'_def)
    from r(2) lc have "pop_post (ls # rest) m vc ls' q'"
      unfolding m'_def by (rule pop_post_stale)
    with step r(1) show ?thesis by simp
  next
    case False
    then have v: "lc_valid lc" and e: "lc_label lc = label ls" by auto
    have ret: "pop_top_loop (ls # rest) m vc = Inr (ls,
        \<lparr>labelstop_priority_queue = rest,
            labelstop_map = m(stop_id ls \<mapsto> lc\<lparr>lc_valid := False, lc_count := lc_count lc - 1\<rparr>),
            valid_count = vc - 1\<rparr>)"
      using lc pos v e by simp
    with pop_post_return[OF Cons.prems(1) lc v e] show ?thesis by simp
  qed
qed

lemma queue_inv_init: "queue_inv LabelStopQueue_init"
  by (simp add: queue_inv_def LabelStopQueue_init_def heap_inv_def valid_stops_def stop_instances_def)

lemma pop_top_returns:
  assumes "queue_inv q" and "0 < valid_count q"
  shows "\<exists>ls q'. pop_top q = Inr (ls, q') \<and>
           pop_post (labelstop_priority_queue q) (labelstop_map q) (valid_count q) ls q'"
proof -
  from assms have "card (valid_stops (labelstop_map q)) \<noteq> 0" by (simp add: queue_inv_def)
  then have "valid_stops (labelstop_map q) \<noteq> {}" by auto
  with assms(1) show ?thesis
    unfolding pop_top_def queue_inv_def by (intro pop_top_loop_returns) simp_all
qed

lemma pop_top_loop_post:
  assumes "heap_inv h m" and "pop_top_loop h m vc = Inr (ls', q')"
  shows "pop_post h m vc ls' q'"
  using assms
proof (induction h arbitrary: m)
  case Nil
  then show ?case by simp
next
  case (Cons ls rest)
  from Cons.prems(1) obtain lc where lc: "m (stop_id ls) = Some lc"
    by (auto simp: heap_inv_def)
  from Cons.prems(2) lc have pos: "\<not> lc_count lc \<le> 0" by (auto split: if_splits)
  show ?case
  proof (cases "\<not> lc_valid lc \<or> lc_label lc \<noteq> label ls")
    case True
    define m' where "m' = m(stop_id ls \<mapsto> lc\<lparr>lc_count := lc_count lc - 1\<rparr>)"
    have hi: "heap_inv rest m'" unfolding m'_def by (rule heap_inv_stale[OF Cons.prems(1) lc True])
    have step: "pop_top_loop (ls # rest) m vc = pop_top_loop rest m' vc"
      using lc pos True by (simp add: m'_def)
    with Cons.prems(2) have "pop_top_loop rest m' vc = Inr (ls', q')" by simp
    from Cons.IH[OF hi this] lc show ?thesis
      unfolding m'_def by (rule pop_post_stale)
  next
    case False
    then have v: "lc_valid lc" and e: "lc_label lc = label ls" by auto
    have ret: "pop_top_loop (ls # rest) m vc = Inr (ls,
        \<lparr>labelstop_priority_queue = rest,
            labelstop_map = m(stop_id ls \<mapsto> lc\<lparr>lc_valid := False, lc_count := lc_count lc - 1\<rparr>),
            valid_count = vc - 1\<rparr>)"
      using lc pos v e by simp
    with Cons.prems(2) pop_post_return[OF Cons.prems(1) lc v e] show ?thesis by simp
  qed
qed

lemma queue_inv_pop_top:
  assumes "queue_inv q" and "pop_top q = Inr (ls, q')"
  shows "queue_inv q'"
proof -
  from assms have p: "pop_post (labelstop_priority_queue q) (labelstop_map q) (valid_count q) ls q'"
    unfolding pop_top_def queue_inv_def by (intro pop_top_loop_post) simp_all
  from p have h: "heap_inv (labelstop_priority_queue q') (labelstop_map q')"
    by (simp add: pop_post_def)
  from p assms(1) have f: "finite (dom (labelstop_map q'))"
    by (simp add: pop_post_def queue_inv_def)
  from p have mem: "stop_id ls \<in> valid_stops (labelstop_map q)"
    by (auto simp: pop_post_def valid_stops_def)
  have fv: "finite (valid_stops (labelstop_map q))"
    using assms(1) by (simp add: queue_inv_def finite_valid_stops)
  from mem fv have "card (valid_stops (labelstop_map q) - {stop_id ls}) = card (valid_stops (labelstop_map q)) - 1"
    by simp
  moreover from mem fv have "0 < card (valid_stops (labelstop_map q))"
    by (auto simp: card_gt_0_iff)
  ultimately have c: "valid_count q' = int (card (valid_stops (labelstop_map q')))"
    using p assms(1) by (simp add: pop_post_def queue_inv_def)
  from h f c show ?thesis by (simp add: queue_inv_def)
qed

lemma queue_inv_run_ops:
  assumes "queue_inv q" and "run_ops ops q = Inr q'"
  shows "queue_inv q'"
  using assms
proof (induction ops q rule: run_ops.induct)
  case (1 q)
  then show ?case by simp
next
  case (2 val ops q)
  then show ?case by (simp add: queue_inv_push)
next
  case (3 ops q)
  then show ?case by (auto split: sum.splits dest: queue_inv_pop_top)
qed

text \<open>
  Claim C10. In every queue state reached from the empty queue by pushes and returning
  pops, if \<open>valid_count\<close> is positive then \<open>pop_top\<close> returns (neither fatal error is
  thrown, and \<^verbatim>\<open>top()\<close> is never taken of an empty heap). The loop removes the stale
  entries \<open>stale\<close> and the returned entry from the front of the heap, so it ends after at
  most as many removals as the heap has entries. The returned entry's stop was marked valid
  with the returned label as its remembered label, it is marked invalid afterwards, and
  \<open>valid_count\<close> is decremented.
\<close>

theorem pop_top_valid_entry:
  assumes "run_ops ops LabelStopQueue_init = Inr q" and "0 < valid_count q"
  shows "\<exists>ls q' lc lc' stale.
           pop_top q = Inr (ls, q') \<and>
           labelstop_map q (stop_id ls) = Some lc \<and> lc_valid lc \<and> lc_label lc = label ls \<and>
           labelstop_map q' (stop_id ls) = Some lc' \<and> \<not> lc_valid lc' \<and>
           labelstop_priority_queue q = stale @ ls # labelstop_priority_queue q' \<and>
           valid_count q' = valid_count q - 1"
proof -
  have "queue_inv q" using queue_inv_init assms(1) by (rule queue_inv_run_ops)
  from pop_top_returns[OF this assms(2)] obtain ls q' where r: "pop_top q = Inr (ls, q')"
    and p: "pop_post (labelstop_priority_queue q) (labelstop_map q) (valid_count q) ls q'"
    by blast
  from p obtain lc where a: "labelstop_map q (stop_id ls) = Some lc" "lc_valid lc" "lc_label lc = label ls"
    unfolding pop_post_def by blast
  from p obtain stale where b: "labelstop_priority_queue q = stale @ ls # labelstop_priority_queue q'"
    unfolding pop_post_def by blast
  from p obtain lc' where c: "labelstop_map q' (stop_id ls) = Some lc'" "\<not> lc_valid lc'"
    unfolding pop_post_def by blast
  from p have d: "valid_count q' = valid_count q - 1"
    unfolding pop_post_def by blast
  show ?thesis
    apply (rule exI[of _ ls], rule exI[of _ q'], rule exI[of _ lc], rule exI[of _ lc'], rule exI[of _ stale])
    using r a b c d by simp
qed

theorem pop_top_valid_entry_witness:
  "\<exists>q. run_ops [Push \<lparr>label = 5, stop_id = 1\<rparr>, Push \<lparr>label = 3, stop_id = 1\<rparr>,
                 Push \<lparr>label = 4, stop_id = 2\<rparr>, PopTop, Push \<lparr>label = 7, stop_id = 1\<rparr>]
         LabelStopQueue_init = Inr q \<and> 0 < valid_count q \<and>
       (\<exists>ls q' lc lc' stale.
           pop_top q = Inr (ls, q') \<and>
           labelstop_map q (stop_id ls) = Some lc \<and> lc_valid lc \<and> lc_label lc = label ls \<and>
           labelstop_map q' (stop_id ls) = Some lc' \<and> \<not> lc_valid lc' \<and>
           labelstop_priority_queue q = stale @ ls # labelstop_priority_queue q' \<and>
           valid_count q' = valid_count q - 1)"
proof -
  obtain q where q: "run_ops [Push \<lparr>label = 5, stop_id = 1\<rparr>, Push \<lparr>label = 3, stop_id = 1\<rparr>,
                 Push \<lparr>label = 4, stop_id = 2\<rparr>, PopTop, Push \<lparr>label = 7, stop_id = 1\<rparr>]
         LabelStopQueue_init = Inr q" and v: "0 < valid_count q"
    by (simp add: LabelStopQueue_init_def push_def pop_top_def LabelStopCompare_def)
  from pop_top_valid_entry[OF q v] q v show ?thesis by (intro exI[of _ q] conjI)
qed

text \<open>The same run, evaluated: the pop returns the entry \<open>(4, 2)\<close> and leaves the two
  entries of stop 1, of which \<open>(5, 1)\<close> is stale.\<close>

lemma pop_top_example:
  "\<exists>q q'. run_ops [Push \<lparr>label = 5, stop_id = 1\<rparr>, Push \<lparr>label = 3, stop_id = 1\<rparr>,
                 Push \<lparr>label = 4, stop_id = 2\<rparr>, PopTop, Push \<lparr>label = 7, stop_id = 1\<rparr>]
         LabelStopQueue_init = Inr q \<and> valid_count q = 2 \<and>
         pop_top q = Inr (\<lparr>label = 4, stop_id = 2\<rparr>, q') \<and>
         labelstop_priority_queue q' = [\<lparr>label = 5, stop_id = 1\<rparr>, \<lparr>label = 7, stop_id = 1\<rparr>]"
  by (simp add: LabelStopQueue_init_def push_def pop_top_def LabelStopCompare_def)

text \<open>
  Claim C2. \<open>push val q\<close> on a queue reached from the empty queue:
  \<^item> the stop is absent from the map or marked invalid: the entry is inserted into the heap,
    the stop is marked valid with that label, and \<open>valid_count\<close> grows by one;
  \<^item> the stop is valid and the new label is strictly smaller than the remembered one: the
    entry is inserted, the remembered label is updated, \<open>valid_count\<close> stays, and the heap
    still holds the entry with the old, larger label;
  \<^item> the stop is valid and the new label is greater than or equal to the remembered one:
    the queue is unchanged.
  In every case the map entries of the other stops are unchanged.
\<close>

theorem push_contract:
  assumes "run_ops ops LabelStopQueue_init = Inr q"
  shows "((labelstop_map q (stop_id val) = None \<or>
           (\<exists>lc. labelstop_map q (stop_id val) = Some lc \<and> \<not> lc_valid lc)) \<longrightarrow>
            labelstop_priority_queue (push val q) = pq_push val (labelstop_priority_queue q) \<and>
            set (labelstop_priority_queue (push val q)) = insert val (set (labelstop_priority_queue q)) \<and>
            (\<exists>lc'. labelstop_map (push val q) (stop_id val) = Some lc' \<and> lc_valid lc' \<and>
                   lc_label lc' = label val) \<and>
            valid_count (push val q) = valid_count q + 1) \<and>
         (\<forall>lc. labelstop_map q (stop_id val) = Some lc \<and> lc_valid lc \<and> label val < lc_label lc \<longrightarrow>
            labelstop_priority_queue (push val q) = pq_push val (labelstop_priority_queue q) \<and>
            set (labelstop_priority_queue (push val q)) = insert val (set (labelstop_priority_queue q)) \<and>
            labelstop_map (push val q) (stop_id val) =
              Some (lc\<lparr>lc_label := label val, lc_count := lc_count lc + 1\<rparr>) \<and>
            valid_count (push val q) = valid_count q \<and>
            \<lparr>label = lc_label lc, stop_id = stop_id val\<rparr> \<in> set (labelstop_priority_queue (push val q))) \<and>
         (\<forall>lc. labelstop_map q (stop_id val) = Some lc \<and> lc_valid lc \<and> lc_label lc \<le> label val \<longrightarrow>
            push val q = q) \<and>
         (\<forall>s. s \<noteq> stop_id val \<longrightarrow> labelstop_map (push val q) s = labelstop_map q s)"
proof -
  have inv: "queue_inv q" using queue_inv_init assms by (rule queue_inv_run_ops)
  have stale: "\<lparr>label = lc_label lc, stop_id = stop_id val\<rparr> \<in> set (labelstop_priority_queue q)"
    if "labelstop_map q (stop_id val) = Some lc" "lc_valid lc" for lc
    using inv that by (simp add: queue_inv_def heap_inv_def)
  have 1: "(labelstop_map q (stop_id val) = None \<or>
           (\<exists>lc. labelstop_map q (stop_id val) = Some lc \<and> \<not> lc_valid lc)) \<longrightarrow>
            labelstop_priority_queue (push val q) = pq_push val (labelstop_priority_queue q) \<and>
            set (labelstop_priority_queue (push val q)) = insert val (set (labelstop_priority_queue q)) \<and>
            (\<exists>lc'. labelstop_map (push val q) (stop_id val) = Some lc' \<and> lc_valid lc' \<and>
                   lc_label lc' = label val) \<and>
            valid_count (push val q) = valid_count q + 1"
    by (auto simp: push_def set_pq_push)
  have 2: "\<forall>lc. labelstop_map q (stop_id val) = Some lc \<and> lc_valid lc \<and> label val < lc_label lc \<longrightarrow>
            labelstop_priority_queue (push val q) = pq_push val (labelstop_priority_queue q) \<and>
            set (labelstop_priority_queue (push val q)) = insert val (set (labelstop_priority_queue q)) \<and>
            labelstop_map (push val q) (stop_id val) =
              Some (lc\<lparr>lc_label := label val, lc_count := lc_count lc + 1\<rparr>) \<and>
            valid_count (push val q) = valid_count q \<and>
            \<lparr>label = lc_label lc, stop_id = stop_id val\<rparr> \<in> set (labelstop_priority_queue (push val q))"
    using stale by (auto simp: push_def set_pq_push)
  have 3: "\<forall>lc. labelstop_map q (stop_id val) = Some lc \<and> lc_valid lc \<and> lc_label lc \<le> label val \<longrightarrow>
            push val q = q"
    by (auto simp: push_def)
  have 4: "\<forall>s. s \<noteq> stop_id val \<longrightarrow> labelstop_map (push val q) s = labelstop_map q s"
    by (auto simp: push_def split: option.splits)
  from 1 2 3 4 show ?thesis by (intro conjI)
qed

theorem push_contract_witness:
  "push \<lparr>label = 5, stop_id = 1\<rparr> LabelStopQueue_init =
     \<lparr>labelstop_priority_queue = [\<lparr>label = 5, stop_id = 1\<rparr>],
      labelstop_map = [1 \<mapsto> \<lparr>lc_label = 5, lc_valid = True, lc_count = 1\<rparr>],
      valid_count = 1\<rparr> \<and>
   labelstop_priority_queue (push \<lparr>label = 3, stop_id = 1\<rparr> (push \<lparr>label = 5, stop_id = 1\<rparr> LabelStopQueue_init))
     = [\<lparr>label = 3, stop_id = 1\<rparr>, \<lparr>label = 5, stop_id = 1\<rparr>] \<and>
   labelstop_map (push \<lparr>label = 3, stop_id = 1\<rparr> (push \<lparr>label = 5, stop_id = 1\<rparr> LabelStopQueue_init)) 1
     = Some \<lparr>lc_label = 3, lc_valid = True, lc_count = 2\<rparr> \<and>
   valid_count (push \<lparr>label = 3, stop_id = 1\<rparr> (push \<lparr>label = 5, stop_id = 1\<rparr> LabelStopQueue_init)) = 1 \<and>
   push \<lparr>label = 5, stop_id = 1\<rparr> (push \<lparr>label = 5, stop_id = 1\<rparr> LabelStopQueue_init)
     = push \<lparr>label = 5, stop_id = 1\<rparr> LabelStopQueue_init"
proof -
  have r0: "run_ops [] LabelStopQueue_init = Inr LabelStopQueue_init" by simp
  have r1: "run_ops [Push \<lparr>label = 5, stop_id = 1\<rparr>] LabelStopQueue_init
            = Inr (push \<lparr>label = 5, stop_id = 1\<rparr> LabelStopQueue_init)" by simp
  have m0: "labelstop_map LabelStopQueue_init (stop_id \<lparr>label = 5, stop_id = 1\<rparr>) = None"
    by (simp add: LabelStopQueue_init_def)
  have m1: "labelstop_map (push \<lparr>label = 5, stop_id = 1\<rparr> LabelStopQueue_init) 1
            = Some \<lparr>lc_label = 5, lc_valid = True, lc_count = 1\<rparr>"
    by (simp add: LabelStopQueue_init_def push_def)
  have a: "push \<lparr>label = 5, stop_id = 1\<rparr> LabelStopQueue_init =
     \<lparr>labelstop_priority_queue = [\<lparr>label = 5, stop_id = 1\<rparr>],
      labelstop_map = [1 \<mapsto> \<lparr>lc_label = 5, lc_valid = True, lc_count = 1\<rparr>],
      valid_count = 1\<rparr>"
    using push_contract[OF r0, of "\<lparr>label = 5, stop_id = 1\<rparr>"] m0
    by (simp add: LabelStopQueue_init_def push_def)
  have b: "labelstop_priority_queue (push \<lparr>label = 3, stop_id = 1\<rparr> (push \<lparr>label = 5, stop_id = 1\<rparr> LabelStopQueue_init))
     = [\<lparr>label = 3, stop_id = 1\<rparr>, \<lparr>label = 5, stop_id = 1\<rparr>] \<and>
   labelstop_map (push \<lparr>label = 3, stop_id = 1\<rparr> (push \<lparr>label = 5, stop_id = 1\<rparr> LabelStopQueue_init)) 1
     = Some \<lparr>lc_label = 3, lc_valid = True, lc_count = 2\<rparr> \<and>
   valid_count (push \<lparr>label = 3, stop_id = 1\<rparr> (push \<lparr>label = 5, stop_id = 1\<rparr> LabelStopQueue_init)) = 1"
    using push_contract[OF r1, of "\<lparr>label = 3, stop_id = 1\<rparr>"] m1 a
    by (simp add: LabelStopCompare_def)
  have c: "push \<lparr>label = 5, stop_id = 1\<rparr> (push \<lparr>label = 5, stop_id = 1\<rparr> LabelStopQueue_init)
     = push \<lparr>label = 5, stop_id = 1\<rparr> LabelStopQueue_init"
    using push_contract[OF r1, of "\<lparr>label = 5, stop_id = 1\<rparr>"] m1 by simp
  from a b c show ?thesis by (intro conjI) simp_all
qed

section \<open>Properties of the cost tally, the trip window and the aggregate cost\<close>

lemma tallyLinkCost_loop_sum:
  "tallyLinkCost_loop ws attrs c =
     c + (\<Sum>p\<leftarrow>ws. case attrs (fst p) of None \<Rightarrow> 0 | Some a \<Rightarrow> snd p * a)"
  by (induction ws arbitrary: c) (auto split: option.splits)

lemma tallyLinkCost_sum_set:
  assumes "distinct (map fst weights)"
  shows "tallyLinkCost weights attributes =
           (\<Sum>k \<in> fst ` set weights \<inter> dom attributes. the (map_of weights k) * the (attributes k))"
proof -
  let ?g = "\<lambda>p. case attributes (fst p) of None \<Rightarrow> 0 | Some a \<Rightarrow> snd p * a"
  let ?h = "\<lambda>k. case attributes k of None \<Rightarrow> 0 | Some a \<Rightarrow> the (map_of weights k) * a"
  from assms have d: "distinct weights" by (simp add: distinct_map)
  from assms have inj: "inj_on fst (set weights)" by (simp add: distinct_map)
  have "tallyLinkCost weights attributes = sum_list (map ?g weights)"
    by (simp add: tallyLinkCost_def tallyLinkCost_loop_sum)
  also have "\<dots> = sum ?g (set weights)" using d by (rule sum_list_distinct_conv_sum_set)
  also have "\<dots> = sum (\<lambda>p. ?h (fst p)) (set weights)"
  proof (rule sum.cong[OF refl])
    fix p assume "p \<in> set weights"
    then have "(fst p, snd p) \<in> set weights" by simp
    with assms have "map_of weights (fst p) = Some (snd p)" by (simp only: map_of_eq_Some_iff)
    then show "?g p = ?h (fst p)" by (simp split: option.splits)
  qed
  also have "\<dots> = sum ?h (fst ` set weights)" using inj by (simp add: sum.reindex)
  also have "\<dots> = sum ?h (fst ` set weights \<inter> dom attributes)"
    by (rule sum.mono_neutral_right) (auto split: option.splits)
  also have "\<dots> = (\<Sum>k \<in> fst ` set weights \<inter> dom attributes. the (map_of weights k) * the (attributes k))"
    by (rule sum.cong[OF refl]) auto
  finally show ?thesis .
qed

lemma tallyLinkCost_loop_cong:
  assumes "\<forall>k \<in> fst ` set ws. attrs k = attrs' k"
  shows "tallyLinkCost_loop ws attrs c = tallyLinkCost_loop ws attrs' c"
  using assms by (induction ws arbitrary: c) (auto split: option.splits)

text \<open>
  Claim C6. \<open>tallyLinkCost\<close> returns the sum of weight times attribute over the weight
  names that are attributes too (the weights are the entries of a \<^verbatim>\<open>std::map\<close>, so their
  names are distinct). A weight whose name is not an attribute adds nothing, and the result
  depends on the attributes at the weight names only.
\<close>

theorem tallyLinkCost_contract:
  assumes "distinct (map fst weights)"
  shows "tallyLinkCost weights attributes =
           (\<Sum>k \<in> fst ` set weights \<inter> dom attributes. the (map_of weights k) * the (attributes k)) \<and>
         ((\<forall>k \<in> fst ` set weights. attributes k = attributes' k) \<longrightarrow>
            tallyLinkCost weights attributes = tallyLinkCost weights attributes') \<and>
         (attributes k0 = None \<longrightarrow>
            tallyLinkCost ((k0, w0) # weights) attributes = tallyLinkCost weights attributes)"
proof (intro conjI impI)
  show "tallyLinkCost weights attributes =
           (\<Sum>k \<in> fst ` set weights \<inter> dom attributes. the (map_of weights k) * the (attributes k))"
    by (rule tallyLinkCost_sum_set[OF assms])
next
  assume "\<forall>k \<in> fst ` set weights. attributes k = attributes' k"
  then show "tallyLinkCost weights attributes = tallyLinkCost weights attributes'"
    unfolding tallyLinkCost_def by (rule tallyLinkCost_loop_cong)
next
  assume "attributes k0 = None"
  then show "tallyLinkCost ((k0, w0) # weights) attributes = tallyLinkCost weights attributes"
    by (simp add: tallyLinkCost_def)
qed

theorem tallyLinkCost_contract_witness:
  "tallyLinkCost [(''in_vehicle_time_min'', 2), (''transfer_penalty'', 3), (''wait_time_min'', 5)]
     [''wait_time_min'' \<mapsto> 7, ''in_vehicle_time_min'' \<mapsto> 10, ''fare'' \<mapsto> 100] = 55"
proof -
  have d: "distinct (map fst [(''in_vehicle_time_min'', 2::real), (''transfer_penalty'', 3), (''wait_time_min'', 5)])"
    by simp
  have s: "fst ` set [(''in_vehicle_time_min'', 2::real), (''transfer_penalty'', 3), (''wait_time_min'', 5)]
         \<inter> dom [''wait_time_min'' \<mapsto> 7::real, ''in_vehicle_time_min'' \<mapsto> 10, ''fare'' \<mapsto> 100]
         = {''in_vehicle_time_min'', ''wait_time_min''}"
    by auto
  from tallyLinkCost_contract[OF d, of "[''wait_time_min'' \<mapsto> 7, ''in_vehicle_time_min'' \<mapsto> 10, ''fare'' \<mapsto> 100]"]
  show ?thesis unfolding s by simp
qed

lemma getTripsWithinTime_loop_filter:
  "getTripsWithinTime_loop tw outb tp trips acc =
     acc @ filter (\<lambda>it. if outb then tp - tw < arrive_time it \<and> arrive_time it \<le> tp
                        else tp \<le> depart_time it \<and> depart_time it < tp + tw) trips"
  by (induction trips arbitrary: acc) auto

text \<open>
  Claim C3. Called with an empty result vector, \<open>getTripsWithinTime\<close> returns exactly the
  trip-stop-times of the stop whose arrival lies in \<open>(timepoint - TIME_WINDOW, timepoint]\<close>
  (outbound) or whose departure lies in \<open>[timepoint, timepoint + TIME_WINDOW)\<close> (inbound),
  in the stored order. An event at \<open>timepoint - TIME_WINDOW\<close> (outbound) or at
  \<open>timepoint + TIME_WINDOW\<close> (inbound) is excluded; an event exactly at \<open>timepoint\<close> is
  included, the window being non-empty (\<open>0 < TIME_WINDOW\<close>).
\<close>

theorem getTripsWithinTime_window:
  "(stop_trip_times pf stop = None \<longrightarrow> getTripsWithinTime pf stop outb timepoint [] = []) \<and>
   (\<forall>trips. stop_trip_times pf stop = Some trips \<longrightarrow>
      getTripsWithinTime pf stop outb timepoint [] =
        filter (\<lambda>it. if outb then timepoint - TIME_WINDOW pf < arrive_time it \<and> arrive_time it \<le> timepoint
                     else timepoint \<le> depart_time it \<and> depart_time it < timepoint + TIME_WINDOW pf) trips \<and>
      (\<forall>it \<in> set trips.
         (0 < TIME_WINDOW pf \<and> arrive_time it = timepoint \<longrightarrow>
            it \<in> set (getTripsWithinTime pf stop True timepoint [])) \<and>
         (arrive_time it = timepoint - TIME_WINDOW pf \<longrightarrow>
            it \<notin> set (getTripsWithinTime pf stop True timepoint [])) \<and>
         (0 < TIME_WINDOW pf \<and> depart_time it = timepoint \<longrightarrow>
            it \<in> set (getTripsWithinTime pf stop False timepoint [])) \<and>
         (depart_time it = timepoint + TIME_WINDOW pf \<longrightarrow>
            it \<notin> set (getTripsWithinTime pf stop False timepoint []))))"
  by (auto simp: getTripsWithinTime_def getTripsWithinTime_loop_filter)

lemma exp_cost_pos: "0 < exp_cost theta c"
  by (simp add: exp_cost_def)

lemma sum_exp_cost_nonneg: "0 \<le> (\<Sum>\<sigma>\<leftarrow>states. exp_cost theta (cost \<sigma>))"
  by (induction states) (auto simp: exp_cost_def intro: add_nonneg_nonneg)

theorem getTripsWithinTime_window_witness:
  "getTripsWithinTime ex_pf 12 True 515 [] =
     [\<lparr>tst_trip_id = 1, tst_seq = 2, tst_stop_id = 12, arrive_time = 510, depart_time = 510\<rparr>,
      \<lparr>tst_trip_id = 2, tst_seq = 1, tst_stop_id = 12, arrive_time = 515, depart_time = 515\<rparr>] \<and>
   getTripsWithinTime ex_pf 12 False 515 [] =
     [\<lparr>tst_trip_id = 2, tst_seq = 1, tst_stop_id = 12, arrive_time = 515, depart_time = 515\<rparr>] \<and>
   getTripsWithinTime ex_pf 99 True 515 [] = []"
proof -
  have s: "stop_trip_times ex_pf 12 = Some ex_stop_times_12" by (simp add: ex_pf_def)
  have n: "stop_trip_times ex_pf 99 = None" by (simp add: ex_pf_def)
  have tw: "TIME_WINDOW ex_pf = 30" by (simp add: ex_pf_def)
  from getTripsWithinTime_window[of ex_pf 12 True 515] s tw
  have a: "getTripsWithinTime ex_pf 12 True 515 [] =
     [\<lparr>tst_trip_id = 1, tst_seq = 2, tst_stop_id = 12, arrive_time = 510, depart_time = 510\<rparr>,
      \<lparr>tst_trip_id = 2, tst_seq = 1, tst_stop_id = 12, arrive_time = 515, depart_time = 515\<rparr>]"
    by (simp add: ex_stop_times_12_def)
  from getTripsWithinTime_window[of ex_pf 12 False 515] s tw
  have b: "getTripsWithinTime ex_pf 12 False 515 [] =
     [\<lparr>tst_trip_id = 2, tst_seq = 1, tst_stop_id = 12, arrive_time = 515, depart_time = 515\<rparr>]"
    by (simp add: ex_stop_times_12_def)
  from getTripsWithinTime_window[of ex_pf 99 True 515] n
  have c: "getTripsWithinTime ex_pf 99 True 515 [] = []" by simp
  from a b c show ?thesis by (intro conjI)
qed

text \<open>
  Claim C7. For a positive dispersion, the aggregate cost over a list of states extended by
  one more state is at most the aggregate over the list. (That \<open>aggregate_cost\<close> is what
  \<open>addStopState\<close> computes over the states it leaves at a stop is lemma
  \<open>addStopState_aggregate_cost\<close> below.)
\<close>

theorem aggregate_cost_monotone:
  assumes "0 < theta"
  shows "agg_le (aggregate_cost theta (states @ [ss])) (aggregate_cost theta states)"
proof -
  let ?s = "\<Sum>\<sigma>\<leftarrow>states. exp_cost theta (cost \<sigma>)"
  have e: "0 < exp_cost theta (cost ss)" by (rule exp_cost_pos)
  have n: "0 \<le> ?s" by (rule sum_exp_cost_nonneg)
  have ext: "(\<Sum>\<sigma>\<leftarrow>states @ [ss]. exp_cost theta (cost \<sigma>)) = ?s + exp_cost theta (cost ss)" by simp
  show ?thesis
  proof (cases "?s = 0")
    case True
    then show ?thesis by (simp add: agg_le_def aggregate_cost_def)
  next
    case False
    with n have p: "0 < ?s" by simp
    with e have "ln ?s \<le> ln (?s + exp_cost theta (cost ss))" by simp
    then have "ln ?s / theta \<le> ln (?s + exp_cost theta (cost ss)) / theta"
      using assms by (simp add: divide_right_mono)
    then have "logsum_cost theta (?s + exp_cost theta (cost ss)) \<le> logsum_cost theta ?s"
      by (simp add: logsum_cost_def)
    moreover from p e have "?s + exp_cost theta (cost ss) \<noteq> 0" by simp
    ultimately show ?thesis using False
      by (simp add: agg_le_def aggregate_cost_def Let_def)
  qed
qed

theorem aggregate_cost_monotone_witness:
  "(0::real) < 1 / 5 \<and>
   agg_le (aggregate_cost (1 / 5)
             ([\<lparr>deparr_time = 500, deparr_mode = MODE_TRANSIT, trip_id = 1, stop_succpred = 12,
                seq = 1, seq_succpred = 2, link_time = 15, link_cost = 15, cost = 20,
                iteration = 1, arrdep_time = 510\<rparr>] @
              [\<lparr>deparr_time = 495, deparr_mode = MODE_TRANSIT, trip_id = 2, stop_succpred = 12,
                seq = 1, seq_succpred = 2, link_time = 18, link_cost = 18, cost = 23,
                iteration = 1, arrdep_time = 508\<rparr>]))
          (aggregate_cost (1 / 5)
             [\<lparr>deparr_time = 500, deparr_mode = MODE_TRANSIT, trip_id = 1, stop_succpred = 12,
               seq = 1, seq_succpred = 2, link_time = 15, link_cost = 15, cost = 20,
               iteration = 1, arrdep_time = 510\<rparr>])"
proof -
  have h: "(0::real) < 1 / 5" by simp
  from aggregate_cost_monotone[OF h] h show ?thesis by blast
qed

section \<open>The time window of the hyperpath stop states\<close>

lemma not_outside_window:
  "\<not> outside_window outb tw anchor t \<longleftrightarrow> (if outb then anchor - tw \<le> t else t \<le> anchor + tw)"
  by (auto simp: outside_window_def)

lemma erase_at_nth:
  "p < length v \<Longrightarrow> j < length v - 1 \<Longrightarrow> erase_at v p ! j = (if j < p then v ! j else v ! Suc j)"
  by (auto simp: erase_at_def nth_append min_def)

lemma length_erase_at: "p < length v \<Longrightarrow> length (erase_at v p) = length v - 1"
  by (auto simp: erase_at_def)

lemma prune_window_subset:
  assumes "sorted_wrt (>) ps" and "\<forall>p \<in> set ps. p < length v"
  shows "\<forall>x \<in> set (prune_window v ps). \<exists>i. i < length v \<and> i \<notin> set ps \<and> x = v ! i"
  using assms
proof (induction ps arbitrary: v)
  case Nil
  then show ?case by (auto simp: prune_window_def in_set_conv_nth)
next
  case (Cons p ps)
  from Cons.prems have pl: "p < length v" by simp
  from Cons.prems have lt: "\<forall>q \<in> set ps. q < p" by auto
  have len: "length (erase_at v p) = length v - 1" using pl by (rule length_erase_at)
  have s: "sorted_wrt (>) ps" using Cons.prems(1) by simp
  have b: "\<forall>q \<in> set ps. q < length (erase_at v p)" using lt pl len by auto
  have pw: "prune_window v (p # ps) = prune_window (erase_at v p) ps"
    by (simp add: prune_window_def)
  show ?case
  proof
    fix x assume "x \<in> set (prune_window v (p # ps))"
    with pw have "x \<in> set (prune_window (erase_at v p) ps)" by simp
    with Cons.IH[OF s b] obtain j where j: "j < length (erase_at v p)" "j \<notin> set ps"
      "x = erase_at v p ! j" by blast
    from j(1) len have jl: "j < length v - 1" by simp
    show "\<exists>i. i < length v \<and> i \<notin> set (p # ps) \<and> x = v ! i"
    proof (cases "j < p")
      case True
      with j jl pl have "j < length v \<and> j \<notin> set (p # ps) \<and> x = v ! j"
        by (simp add: erase_at_nth)
      then show ?thesis by blast
    next
      case False
      with lt have "Suc j \<notin> set ps" by auto
      with False j jl pl have "Suc j < length v \<and> Suc j \<notin> set (p # ps) \<and> x = v ! Suc j"
        by (simp add: erase_at_nth)
      then show ?thesis by blast
    qed
  qed
qed

lemma scan_inv_step:
  assumes "scan_inv pf outb anchor n k sc" and "k < n"
  shows "scan_inv pf outb anchor n (Suc k) (scan_step pf outb anchor ss sc k)"
proof -
  obtain v f s pr where sc: "sc = (v, f, s, pr)" by (cases sc) auto
  from assms(1) sc have l: "length v = n" and so: "sorted_wrt (>) pr"
    and b: "\<forall>p \<in> set pr. p < k"
    and w: "\<forall>i < k. i \<notin> set pr \<longrightarrow> \<not> outside_window outb (TIME_WINDOW pf) anchor (deparr_time (v ! i))"
    by (auto simp: scan_inv_def)
  define v1 where "v1 = (if same_link (v ! k) ss then v[k := ss] else v)"
  have l1: "length v1 = n" using l by (simp add: v1_def)
  have same: "\<forall>i < k. v1 ! i = v ! i" by (auto simp: v1_def)
  show ?thesis
  proof (cases "outside_window outb (TIME_WINDOW pf) anchor (deparr_time (v1 ! k))")
    case True
    then have r: "scan_step pf outb anchor ss sc k =
        (v1, (if same_link (v ! k) ss then True else f), s, k # pr)"
      by (simp add: scan_step_def sc v1_def Let_def)
    have "\<forall>i < Suc k. i \<notin> set (k # pr) \<longrightarrow>
            \<not> outside_window outb (TIME_WINDOW pf) anchor (deparr_time (v1 ! i))"
      using w same by (auto simp: less_Suc_eq)
    with l1 so b show ?thesis unfolding r scan_inv_def by auto
  next
    case False
    then have r: "scan_step pf outb anchor ss sc k =
        (v1, (if same_link (v ! k) ss then True else f),
         s + exp_cost (STOCH_DISPERSION pf) (cost (v1 ! k)), pr)"
      by (simp add: scan_step_def sc v1_def Let_def)
    have "\<forall>i < Suc k. i \<notin> set pr \<longrightarrow>
            \<not> outside_window outb (TIME_WINDOW pf) anchor (deparr_time (v1 ! i))"
      using w same False by (auto simp: less_Suc_eq)
    moreover have "\<forall>p \<in> set pr. p < Suc k" using b by auto
    ultimately show ?thesis using l1 so unfolding r scan_inv_def by auto
  qed
qed

lemma scan_inv_foldl:
  "k \<le> length v \<Longrightarrow>
   scan_inv pf outb anchor (length v) k (foldl (scan_step pf outb anchor ss) (v, False, 0, []) [0..<k])"
proof (induction k)
  case 0
  then show ?case by (simp add: scan_inv_def)
next
  case (Suc k)
  then have "scan_inv pf outb anchor (length v) k (foldl (scan_step pf outb anchor ss) (v, False, 0, []) [0..<k])"
    by simp
  from scan_inv_step[OF this] Suc.prems show ?case by simp
qed

lemma scan_pruned_within:
  assumes "sc = scan_stop_states pf outb anchor ss v"
  shows "\<forall>x \<in> set (prune_window (fst sc) (snd (snd (snd sc)))).
           \<not> outside_window outb (TIME_WINDOW pf) anchor (deparr_time x)"
proof -
  have inv: "scan_inv pf outb anchor (length v) (length v) sc"
    unfolding assms scan_stop_states_def by (rule scan_inv_foldl) simp
  then have l: "length (fst sc) = length v" and so: "sorted_wrt (>) (snd (snd (snd sc)))"
    and b: "\<forall>p \<in> set (snd (snd (snd sc))). p < length (fst sc)"
    and w: "\<forall>i < length v. i \<notin> set (snd (snd (snd sc))) \<longrightarrow>
          \<not> outside_window outb (TIME_WINDOW pf) anchor (deparr_time (fst sc ! i))"
    by (auto simp: scan_inv_def)
  show ?thesis
  proof
    fix x assume "x \<in> set (prune_window (fst sc) (snd (snd (snd sc))))"
    with prune_window_subset[OF so b] obtain i where
      "i < length (fst sc)" "i \<notin> set (snd (snd (snd sc)))" "x = fst sc ! i" by blast
    with w l show "\<not> outside_window outb (TIME_WINDOW pf) anchor (deparr_time x)" by simp
  qed
qed

lemma window_inv_init: "window_inv pf path_spec LabelingState_init"
  by (simp add: window_inv_def LabelingState_init_def)

lemma window_invD:
  assumes "window_inv pf path_spec st" and "stop_states st stop = Some v" and "v \<noteq> []"
  shows "\<exists>hss. hyperpath_ss st stop = Some hss \<and>
           (\<forall>\<sigma> \<in> set v. \<not> outside_window (outbound path_spec) (TIME_WINDOW pf)
                              (latest_dep_earliest_arr hss) (deparr_time \<sigma>))"
proof -
  from assms(1) have "stop_states st stop = Some v \<longrightarrow> v \<noteq> [] \<longrightarrow>
        (\<exists>hss. hyperpath_ss st stop = Some hss \<and>
           (\<forall>\<sigma> \<in> set v.
              if outbound path_spec
              then latest_dep_earliest_arr hss - TIME_WINDOW pf \<le> deparr_time \<sigma>
              else deparr_time \<sigma> \<le> latest_dep_earliest_arr hss + TIME_WINDOW pf))"
    unfolding window_inv_def by blast
  with assms(2,3) show ?thesis by (simp add: not_outside_window)
qed

lemma window_invI:
  assumes "\<And>stop v. stop_states st stop = Some v \<Longrightarrow> v \<noteq> [] \<Longrightarrow>
             \<exists>hss. hyperpath_ss st stop = Some hss \<and>
               (\<forall>\<sigma> \<in> set v. \<not> outside_window (outbound path_spec) (TIME_WINDOW pf)
                              (latest_dep_earliest_arr hss) (deparr_time \<sigma>))"
  shows "window_inv pf path_spec st"
  unfolding window_inv_def
proof (intro allI impI)
  fix stop v assume "stop_states st stop = Some v" "v \<noteq> []"
  from assms[OF this] show "\<exists>hss. hyperpath_ss st stop = Some hss \<and>
           (\<forall>\<sigma> \<in> set v.
              if outbound path_spec
              then latest_dep_earliest_arr hss - TIME_WINDOW pf \<le> deparr_time \<sigma>
              else deparr_time \<sigma> \<le> latest_dep_earliest_arr hss + TIME_WINDOW pf)"
    by (simp add: not_outside_window)
qed

lemma window_inv_cong:
  "stop_states st' = stop_states st \<Longrightarrow> hyperpath_ss st' = hyperpath_ss st \<Longrightarrow>
   window_inv pf path_spec st' = window_inv pf path_spec st"
  by (simp add: window_inv_def)

lemma window_inv_update:
  assumes inv: "window_inv pf path_spec st"
    and s': "stop_states st' = (stop_states st)(stop \<mapsto> v')"
    and h': "hyperpath_ss st' = (hyperpath_ss st)(stop \<mapsto> hss')"
    and w': "\<forall>\<sigma> \<in> set v'. \<not> outside_window (outbound path_spec) (TIME_WINDOW pf)
                              (latest_dep_earliest_arr hss') (deparr_time \<sigma>)"
  shows "window_inv pf path_spec st'"
proof (rule window_invI)
  fix stop2 v2 assume a: "stop_states st' stop2 = Some v2" and ne: "v2 \<noteq> []"
  show "\<exists>hss. hyperpath_ss st' stop2 = Some hss \<and>
               (\<forall>\<sigma> \<in> set v2. \<not> outside_window (outbound path_spec) (TIME_WINDOW pf)
                              (latest_dep_earliest_arr hss) (deparr_time \<sigma>))"
  proof (cases "stop2 = stop")
    case True
    with a s' have "v2 = v'" by simp
    with True h' w' show ?thesis by simp
  next
    case False
    with a s' have "stop_states st stop2 = Some v2" by simp
    from window_invD[OF inv this ne] False h' show ?thesis by simp
  qed
qed

lemma window_inv_new:
  assumes inv: "window_inv pf path_spec st" and tw: "0 \<le> TIME_WINDOW pf"
    and hp: "hyperpath path_spec" and n: "hyperpath_ss st stop = None"
  shows "window_inv pf path_spec (addStopState pf path_spec stop ss st)"
proof -
  have e: "fst (stop_states_at st stop) = []"
  proof (cases "stop_states st stop")
    case None
    then show ?thesis by (simp add: stop_states_at_def)
  next
    case (Some v)
    have "v = []"
    proof (rule ccontr)
      assume "v \<noteq> []"
      from window_invD[OF inv Some this] n show False by simp
    qed
    with Some show ?thesis by (simp add: stop_states_at_def)
  qed
  define hss where "hss = \<lparr>latest_dep_earliest_arr = deparr_time ss, lder_trip_id = trip_id ss,
                    hyperpath_cost = cost ss, process_count = 0\<rparr>"
  have r: "addStopState pf path_spec stop ss st =
          st\<lparr>hyperpath_ss := (hyperpath_ss st)(stop \<mapsto> hss),
                stop_states := (stop_states st)(stop \<mapsto> [ss]),
                label_stop_queue := push \<lparr>label = cost ss, stop_id = stop\<rparr> (label_stop_queue st)\<rparr>"
    using hp n e by (simp add: addStopState_def hss_def)
  have w: "\<forall>\<sigma> \<in> set [ss]. \<not> outside_window (outbound path_spec) (TIME_WINDOW pf)
                              (latest_dep_earliest_arr hss) (deparr_time \<sigma>)"
    using tw by (simp add: outside_window_def hss_def)
  show ?thesis unfolding r by (rule window_inv_update[OF inv _ _ w]) simp_all
qed

lemma addStopState_hyperpath_rejected:
  assumes "outside_window (outbound path_spec) (TIME_WINDOW pf) (latest_dep_earliest_arr hss0) (deparr_time ss)"
    and "0 \<le> TIME_WINDOW pf"
  shows "addStopState_hyperpath pf path_spec stop ss hss0 st =
           st\<lparr>hyperpath_ss := (hyperpath_ss st)(stop \<mapsto> hss0)\<rparr>"
proof -
  from assms have w: "\<not> ((outbound path_spec \<and> deparr_time ss > latest_dep_earliest_arr hss0) \<or>
                    (\<not> outbound path_spec \<and> deparr_time ss < latest_dep_earliest_arr hss0))"
    by (auto simp: outside_window_def)
  show ?thesis
    unfolding addStopState_hyperpath_def Let_def if_not_P[OF w] if_P[OF assms(1)] by (rule refl)
qed

lemma addStopState_hyperpath_stop_states:
  assumes "\<not> outside_window (outbound path_spec) (TIME_WINDOW pf) (latest_dep_earliest_arr hss0) (deparr_time ss)"
  shows "stop_states (addStopState_hyperpath pf path_spec stop ss hss0 st) =
           (stop_states st)(stop \<mapsto> hp_stop_states pf (outbound path_spec) stop ss hss0 st)"
proof (cases "hp_window (outbound path_spec) ss hss0")
  case True
  then have w: "(outbound path_spec \<and> deparr_time ss > latest_dep_earliest_arr hss0) \<or>
                    (\<not> outbound path_spec \<and> deparr_time ss < latest_dep_earliest_arr hss0)"
    by (simp add: hp_window_def)
  from assms True show ?thesis
    unfolding addStopState_hyperpath_def Let_def hp_stop_states_def hp_anchor_def if_P[OF w]
    by simp
next
  case False
  then have w: "\<not> ((outbound path_spec \<and> deparr_time ss > latest_dep_earliest_arr hss0) \<or>
                    (\<not> outbound path_spec \<and> deparr_time ss < latest_dep_earliest_arr hss0))"
    by (simp add: hp_window_def)
  from assms False show ?thesis
    unfolding addStopState_hyperpath_def Let_def hp_stop_states_def hp_anchor_def if_not_P[OF w]
    by simp
qed

lemma addStopState_hyperpath_hyperpath_ss:
  assumes "\<not> outside_window (outbound path_spec) (TIME_WINDOW pf) (latest_dep_earliest_arr hss0) (deparr_time ss)"
  shows "hyperpath_ss (addStopState_hyperpath pf path_spec stop ss hss0 st) =
           (hyperpath_ss st)(stop \<mapsto> hp_hyperpath_state pf (outbound path_spec) stop ss hss0 st)"
proof (cases "hp_window (outbound path_spec) ss hss0")
  case True
  then have w: "(outbound path_spec \<and> deparr_time ss > latest_dep_earliest_arr hss0) \<or>
                    (\<not> outbound path_spec \<and> deparr_time ss < latest_dep_earliest_arr hss0)"
    by (simp add: hp_window_def)
  from assms True show ?thesis
    unfolding addStopState_hyperpath_def Let_def hp_hyperpath_state_def hp_sum_def hp_anchor_def if_P[OF w]
    by simp
next
  case False
  then have w: "\<not> ((outbound path_spec \<and> deparr_time ss > latest_dep_earliest_arr hss0) \<or>
                    (\<not> outbound path_spec \<and> deparr_time ss < latest_dep_earliest_arr hss0))"
    by (simp add: hp_window_def)
  from assms False show ?thesis
    unfolding addStopState_hyperpath_def Let_def hp_hyperpath_state_def hp_sum_def hp_anchor_def if_not_P[OF w]
    by simp
qed

lemma hp_hyperpath_state_anchor:
  "latest_dep_earliest_arr (hp_hyperpath_state pf outb stop ss hss0 st) = hp_anchor outb ss hss0"
  by (simp add: hp_hyperpath_state_def hp_anchor_def Let_def)

lemma hp_stop_states_within:
  assumes "\<not> outside_window outb (TIME_WINDOW pf) (latest_dep_earliest_arr hss0) (deparr_time ss)"
    and "0 \<le> TIME_WINDOW pf"
  shows "\<forall>x \<in> set (hp_stop_states pf outb stop ss hss0 st).
           \<not> outside_window outb (TIME_WINDOW pf) (hp_anchor outb ss hss0) (deparr_time x)"
proof -
  define sc where "sc = scan_stop_states pf outb (hp_anchor outb ss hss0) ss (fst (stop_states_at st stop))"
  have ssin: "\<not> outside_window outb (TIME_WINDOW pf) (hp_anchor outb ss hss0) (deparr_time ss)"
    using assms by (auto simp: hp_anchor_def hp_window_def outside_window_def)
  have v2in: "\<forall>x \<in> set (prune_window (fst sc) (snd (snd (snd sc)))).
                \<not> outside_window outb (TIME_WINDOW pf) (hp_anchor outb ss hss0) (deparr_time x)"
    by (rule scan_pruned_within[OF sc_def])
  have "hp_stop_states pf outb stop ss hss0 st =
          (if \<not> fst (snd sc) then prune_window (fst sc) (snd (snd (snd sc))) @ [ss]
           else prune_window (fst sc) (snd (snd (snd sc))))"
    by (simp add: hp_stop_states_def sc_def Let_def)
  with ssin v2in show ?thesis by auto
qed

lemma window_inv_existing:
  assumes inv: "window_inv pf path_spec st" and tw: "0 \<le> TIME_WINDOW pf"
    and h: "hyperpath_ss st stop = Some hss0"
  shows "window_inv pf path_spec (addStopState_hyperpath pf path_spec stop ss hss0 st)"
proof (cases "outside_window (outbound path_spec) (TIME_WINDOW pf) (latest_dep_earliest_arr hss0) (deparr_time ss)")
  case True
  have "(hyperpath_ss st)(stop \<mapsto> hss0) = hyperpath_ss st" using h by (rule map_upd_triv)
  then show ?thesis
    unfolding addStopState_hyperpath_rejected[OF True tw] using inv
    by (simp add: window_inv_cong[of "st\<lparr>hyperpath_ss := hyperpath_ss st\<rparr>" st])
next
  case False
  have w: "\<forall>\<sigma> \<in> set (hp_stop_states pf (outbound path_spec) stop ss hss0 st).
             \<not> outside_window (outbound path_spec) (TIME_WINDOW pf)
                  (latest_dep_earliest_arr (hp_hyperpath_state pf (outbound path_spec) stop ss hss0 st))
                  (deparr_time \<sigma>)"
    unfolding hp_hyperpath_state_anchor by (rule hp_stop_states_within[OF False tw])
  show ?thesis
    by (rule window_inv_update[OF inv addStopState_hyperpath_stop_states[OF False]
              addStopState_hyperpath_hyperpath_ss[OF False] w])
qed

lemma window_inv_addStopState:
  assumes "window_inv pf path_spec st" and "0 \<le> TIME_WINDOW pf" and "hyperpath path_spec"
  shows "window_inv pf path_spec (addStopState pf path_spec stop ss st)"
proof (cases "hyperpath_ss st stop")
  case None
  with assms show ?thesis by (intro window_inv_new)
next
  case (Some hss0)
  with assms(3) have "addStopState pf path_spec stop ss st =
      addStopState_hyperpath pf path_spec stop ss hss0 st"
    by (simp add: addStopState_def)
  with window_inv_existing[OF assms(1,2) Some] show ?thesis by simp
qed

lemma window_inv_foldl:
  assumes "0 \<le> TIME_WINDOW pf" and "hyperpath path_spec"
  shows "window_inv pf path_spec st \<Longrightarrow>
         window_inv pf path_spec (foldl (\<lambda>s c. addStopState pf path_spec (fst c) (snd c) s) st calls)"
  by (induction calls arbitrary: st) (simp_all add: window_inv_addStopState[OF _ assms])

text \<open>
  Claim C1. In hyperpath mode and with a non-negative time window, the window invariant
  holds for the empty store, every call of \<open>addStopState\<close> preserves it, and so it holds
  after every sequence of calls: each surviving stop state \<open>\<sigma>\<close> of a stop has
  \<open>deparr_time \<sigma> \<ge> anchor - TIME_WINDOW\<close> (outbound) or
  \<open>deparr_time \<sigma> \<le> anchor + TIME_WINDOW\<close> (inbound) for the stop's anchor
  \<open>latest_dep_earliest_arr\<close>. The other statements of the labeling change neither the
  stop states nor the anchors.
\<close>

theorem hyperpath_window_invariant:
  assumes "hyperpath path_spec" and "0 \<le> TIME_WINDOW pf"
  shows "window_inv pf path_spec LabelingState_init \<and>
         (window_inv pf path_spec st \<longrightarrow>
            window_inv pf path_spec (addStopState pf path_spec stop ss st)) \<and>
         window_inv pf path_spec
           (foldl (\<lambda>s c. addStopState pf path_spec (fst c) (snd c) s) LabelingState_init calls)"
  using window_inv_init window_inv_addStopState[OF _ assms(2,1)]
    window_inv_foldl[OF assms(2,1) window_inv_init]
  by blast

theorem hyperpath_window_invariant_witness:
  "hyperpath (ex_spec\<lparr>hyperpath := True\<rparr>) \<and> 0 \<le> TIME_WINDOW ex_pf \<and>
   window_inv ex_pf (ex_spec\<lparr>hyperpath := True\<rparr>)
     (foldl (\<lambda>s c. addStopState ex_pf (ex_spec\<lparr>hyperpath := True\<rparr>) (fst c) (snd c) s)
        LabelingState_init [(11, ex_early_state), (11, ex_late_state)]) \<and>
   stop_states
     (foldl (\<lambda>s c. addStopState ex_pf (ex_spec\<lparr>hyperpath := True\<rparr>) (fst c) (snd c) s)
        LabelingState_init [(11, ex_early_state), (11, ex_late_state)]) 11 = Some [ex_late_state]"
proof -
  have h: "hyperpath (ex_spec\<lparr>hyperpath := True\<rparr>)" by simp
  have t: "0 \<le> TIME_WINDOW ex_pf" by (simp add: ex_pf_def)
  have o: "outbound (ex_spec\<lparr>hyperpath := True\<rparr>)" by (simp add: ex_spec_def)
  define st1 where "st1 = addStopState ex_pf (ex_spec\<lparr>hyperpath := True\<rparr>) 11 ex_early_state LabelingState_init"
  have s1: "stop_states st1 11 = Some [ex_early_state]"
    and h1: "hyperpath_ss st1 11 = Some \<lparr>latest_dep_earliest_arr = 100, lder_trip_id = 7,
                    hyperpath_cost = 20, process_count = 0\<rparr>"
    by (simp_all add: st1_def addStopState_def LabelingState_init_def stop_states_at_def ex_early_state_def)
  define hss where "hss = \<lparr>latest_dep_earliest_arr = 100, lder_trip_id = 7,
                    hyperpath_cost = 20, process_count = (0::int)\<rparr>"
  have nr: "\<not> outside_window (outbound (ex_spec\<lparr>hyperpath := True\<rparr>)) (TIME_WINDOW ex_pf)
              (latest_dep_earliest_arr hss) (deparr_time ex_late_state)"
    by (simp add: outside_window_def ex_pf_def ex_late_state_def ex_spec_def hss_def)
  have e1: "addStopState ex_pf (ex_spec\<lparr>hyperpath := True\<rparr>) 11 ex_late_state st1 =
            addStopState_hyperpath ex_pf (ex_spec\<lparr>hyperpath := True\<rparr>) 11 ex_late_state hss st1"
    using h1 by (simp add: addStopState_def hss_def)
  have e2: "hp_stop_states ex_pf True 11 ex_late_state hss st1 = [ex_late_state]"
    using s1
    by (simp add: hp_stop_states_def hp_anchor_def hp_window_def scan_stop_states_def scan_step_def
          prune_window_def erase_at_def outside_window_def same_link_def stop_states_at_def
          ex_pf_def ex_early_state_def ex_late_state_def Let_def hss_def)
  have s2: "stop_states (addStopState ex_pf (ex_spec\<lparr>hyperpath := True\<rparr>) 11 ex_late_state st1) 11
            = Some [ex_late_state]"
    unfolding e1 addStopState_hyperpath_stop_states[OF nr] using o e2 by simp
  from hyperpath_window_invariant[OF h t, of _ _ _ "[(11, ex_early_state), (11, ex_late_state)]"] h t s2
  show ?thesis by (simp add: st1_def)
qed

section \<open>The stop states and the sum that the hyperpath update leaves\<close>

lemma update_next:
  assumes "k < length v"
  shows "(map f (take k v) @ drop k v)[k := f (v ! k)] = map f (take (Suc k) v) @ drop (Suc k) v"
proof -
  have l: "length (map f (take k v)) = k" using assms by simp
  have "drop k v = v ! k # drop (Suc k) v" using assms by (simp add: Cons_nth_drop_Suc)
  then have "(map f (take k v) @ drop k v)[k := f (v ! k)]
           = (map f (take k v) @ (v ! k # drop (Suc k) v))[length (map f (take k v)) := f (v ! k)]"
    using l by simp
  also have "\<dots> = map f (take k v) @ (f (v ! k) # drop (Suc k) v)"
    by (rule list_update_length)
  also have "\<dots> = map f (take (Suc k) v) @ drop (Suc k) v"
    using assms by (simp add: take_Suc_conv_app_nth)
  finally show ?thesis .
qed

lemma nth_next:
  assumes "k < length v"
  shows "(map f (take k v) @ drop k v) ! k = v ! k"
  using assms by (simp add: nth_append)

lemma scan_exact_step:
  assumes "scan_exact pf outb anchor ss v k sc" and "k < length v"
  shows "scan_exact pf outb anchor ss v (Suc k) (scan_step pf outb anchor ss sc k)"
proof -
  obtain w f s pr where sc: "sc = (w, f, s, pr)" by (cases sc) auto
  let ?g = "substitute_link ss"
  let ?out = "\<lambda>x. outside_window outb (TIME_WINDOW pf) anchor (deparr_time x)"
  from assms(1) sc have w: "w = map ?g (take k v) @ drop k v"
    and f: "f = (\<exists>x \<in> set (take k v). same_link x ss)"
    and s: "s = (\<Sum>x\<leftarrow>filter (\<lambda>x. \<not> ?out x) (map ?g (take k v)). exp_cost (STOCH_DISPERSION pf) (cost x))"
    and pr: "pr = rev (filter (\<lambda>i. ?out (map ?g v ! i)) [0..<k])"
    by (simp_all add: scan_exact_def)
  have wk: "w ! k = v ! k" unfolding w by (rule nth_next[OF assms(2)])
  define w1 where "w1 = (if same_link (v ! k) ss then w[k := ss] else w)"
  have same: "w[k := v ! k] = w" using wk by (metis list_update_id)
  have "w1 = w[k := ?g (v ! k)]"
    using same by (simp add: w1_def substitute_link_def)
  then have w1: "w1 = map ?g (take (Suc k) v) @ drop (Suc k) v"
    unfolding w by (simp add: update_next[OF assms(2)])
  have w1k: "w1 ! k = ?g (v ! k)"
    using assms(2) by (simp add: w1 nth_append take_Suc_conv_app_nth)
  have gk: "map ?g v ! k = ?g (v ! k)" using assms(2) by simp
  have tk: "take (Suc k) v = take k v @ [v ! k]" using assms(2) by (simp add: take_Suc_conv_app_nth)
  have f1: "(if same_link (v ! k) ss then True else f) = (\<exists>x \<in> set (take (Suc k) v). same_link x ss)"
    by (auto simp: f tk)
  show ?thesis
  proof (cases "?out (w1 ! k)")
    case True
    then have r: "scan_step pf outb anchor ss sc k =
        (w1, (if same_link (v ! k) ss then True else f), s, k # pr)"
      by (simp add: scan_step_def sc w1_def wk Let_def)
    have s1: "s = (\<Sum>x\<leftarrow>filter (\<lambda>x. \<not> ?out x) (map ?g (take (Suc k) v)). exp_cost (STOCH_DISPERSION pf) (cost x))"
      using True by (simp add: s tk w1k)
    have p1: "k # pr = rev (filter (\<lambda>i. ?out (map ?g v ! i)) [0..<Suc k])"
      using True by (simp add: pr gk w1k)
    show ?thesis unfolding r scan_exact_def using w1 f1 s1 p1 by simp
  next
    case False
    then have r: "scan_step pf outb anchor ss sc k =
        (w1, (if same_link (v ! k) ss then True else f),
         s + exp_cost (STOCH_DISPERSION pf) (cost (w1 ! k)), pr)"
      by (simp add: scan_step_def sc w1_def wk Let_def)
    have s1: "s + exp_cost (STOCH_DISPERSION pf) (cost (w1 ! k)) =
              (\<Sum>x\<leftarrow>filter (\<lambda>x. \<not> ?out x) (map ?g (take (Suc k) v)). exp_cost (STOCH_DISPERSION pf) (cost x))"
      using False by (simp add: s tk w1k)
    have p1: "pr = rev (filter (\<lambda>i. ?out (map ?g v ! i)) [0..<Suc k])"
      using False by (simp add: pr gk w1k)
    show ?thesis unfolding r scan_exact_def using w1 f1 s1 p1 by simp
  qed
qed

lemma scan_exact_foldl:
  "k \<le> length v \<Longrightarrow>
   scan_exact pf outb anchor ss v k (foldl (scan_step pf outb anchor ss) (v, False, 0, []) [0..<k])"
proof (induction k)
  case 0
  then show ?case by (simp add: scan_exact_def)
next
  case (Suc k)
  then have "scan_exact pf outb anchor ss v k (foldl (scan_step pf outb anchor ss) (v, False, 0, []) [0..<k])"
    by simp
  from scan_exact_step[OF this] Suc.prems show ?case by simp
qed

lemma erase_at_append:
  "p < length u \<Longrightarrow> erase_at (u @ w) p = erase_at u p @ w"
  by (simp add: erase_at_def)

lemma prune_window_append:
  assumes "sorted_wrt (>) ps" and "\<forall>p \<in> set ps. p < length u"
  shows "prune_window (u @ w) ps = prune_window u ps @ w"
  using assms
proof (induction ps arbitrary: u)
  case Nil
  then show ?case by (simp add: prune_window_def)
next
  case (Cons p ps)
  from Cons.prems have pl: "p < length u" by simp
  from Cons.prems have lt: "\<forall>q \<in> set ps. q < p" by auto
  have b: "\<forall>q \<in> set ps. q < length (erase_at u p)"
    using lt pl by (auto simp: length_erase_at)
  have s: "sorted_wrt (>) ps" using Cons.prems(1) by simp
  have "prune_window (u @ w) (p # ps) = prune_window (erase_at u p @ w) ps"
    using pl by (simp add: prune_window_def erase_at_append)
  also have "\<dots> = prune_window (erase_at u p) ps @ w" by (rule Cons.IH[OF s b])
  also have "\<dots> = prune_window u (p # ps) @ w" by (simp add: prune_window_def)
  finally show ?case .
qed

lemma sorted_rev_filter_upt: "sorted_wrt (>) (rev (filter P [0..<n]))"
proof -
  have "sorted_wrt (<) (filter P [0..<n])" by (rule sorted_wrt_filter) simp
  then show ?thesis by (simp add: sorted_wrt_rev)
qed

lemma prune_window_filter:
  "prune_window w (rev (filter (\<lambda>i. P (w ! i)) [0..<length w])) = filter (\<lambda>x. \<not> P x) w"
proof (induction w rule: rev_induct)
  case Nil
  then show ?case by (simp add: prune_window_def)
next
  case (snoc x u)
  have idx: "filter (\<lambda>i. P ((u @ [x]) ! i)) [0..<length u] = filter (\<lambda>i. P (u ! i)) [0..<length u]"
    by (rule filter_cong) (auto simp: nth_append)
  have so: "sorted_wrt (>) (rev (filter (\<lambda>i. P (u ! i)) [0..<length u]))"
    by (rule sorted_rev_filter_upt)
  have bd: "\<forall>p \<in> set (rev (filter (\<lambda>i. P (u ! i)) [0..<length u])). p < length u" by auto
  show ?case
  proof (cases "P x")
    case True
    have "prune_window (u @ [x]) (rev (filter (\<lambda>i. P ((u @ [x]) ! i)) [0..<length (u @ [x])]))
          = prune_window (u @ [x]) (length u # rev (filter (\<lambda>i. P (u ! i)) [0..<length u]))"
      using True by (simp add: idx)
    also have "\<dots> = prune_window u (rev (filter (\<lambda>i. P (u ! i)) [0..<length u]))"
      by (simp add: prune_window_def erase_at_def)
    also have "\<dots> = filter (\<lambda>x. \<not> P x) u" by (rule snoc.IH)
    finally show ?thesis using True by simp
  next
    case False
    have "prune_window (u @ [x]) (rev (filter (\<lambda>i. P ((u @ [x]) ! i)) [0..<length (u @ [x])]))
          = prune_window (u @ [x]) (rev (filter (\<lambda>i. P (u ! i)) [0..<length u]))"
      using False by (simp add: idx)
    also have "\<dots> = prune_window u (rev (filter (\<lambda>i. P (u ! i)) [0..<length u])) @ [x]"
      by (rule prune_window_append[OF so bd])
    also have "\<dots> = filter (\<lambda>x. \<not> P x) u @ [x]" by (simp add: snoc.IH)
    finally show ?thesis using False by simp
  qed
qed

lemma hp_stop_states_exact:
  "hp_stop_states pf outb stop ss hss0 st =
     filter (\<lambda>x. \<not> outside_window outb (TIME_WINDOW pf) (hp_anchor outb ss hss0) (deparr_time x))
       (map (substitute_link ss) (fst (stop_states_at st stop))) @
     (if \<exists>x \<in> set (fst (stop_states_at st stop)). same_link x ss then [] else [ss])"
proof -
  define v where "v = fst (stop_states_at st stop)"
  define sc where "sc = scan_stop_states pf outb (hp_anchor outb ss hss0) ss v"
  have ex: "scan_exact pf outb (hp_anchor outb ss hss0) ss v (length v) sc"
    unfolding sc_def scan_stop_states_def by (rule scan_exact_foldl) simp
  then have 1: "fst sc = map (substitute_link ss) v"
    and 2: "fst (snd sc) = (\<exists>x \<in> set v. same_link x ss)"
    and 4: "snd (snd (snd sc)) =
       rev (filter (\<lambda>i. outside_window outb (TIME_WINDOW pf) (hp_anchor outb ss hss0)
                          (deparr_time (map (substitute_link ss) v ! i))) [0..<length v])"
    by (simp_all add: scan_exact_def)
  have "prune_window (fst sc) (snd (snd (snd sc))) =
        filter (\<lambda>x. \<not> outside_window outb (TIME_WINDOW pf) (hp_anchor outb ss hss0) (deparr_time x))
          (map (substitute_link ss) v)"
    unfolding 1 4
    using prune_window_filter[where P = "\<lambda>x. outside_window outb (TIME_WINDOW pf) (hp_anchor outb ss hss0) (deparr_time x)"
             and w = "map (substitute_link ss) v"]
    by simp
  then show ?thesis
    unfolding hp_stop_states_def Let_def sc_def[symmetric] v_def[symmetric] using 2 by simp
qed

lemma hp_sum_exact:
  assumes "\<not> outside_window outb (TIME_WINDOW pf) (latest_dep_earliest_arr hss0) (deparr_time ss)"
    and "0 \<le> TIME_WINDOW pf"
  shows "hp_sum pf outb stop ss hss0 st =
           (\<Sum>x\<leftarrow>hp_stop_states pf outb stop ss hss0 st. exp_cost (STOCH_DISPERSION pf) (cost x))"
proof -
  define v where "v = fst (stop_states_at st stop)"
  define sc where "sc = scan_stop_states pf outb (hp_anchor outb ss hss0) ss v"
  have ex: "scan_exact pf outb (hp_anchor outb ss hss0) ss v (length v) sc"
    unfolding sc_def scan_stop_states_def by (rule scan_exact_foldl) simp
  then have 2: "fst (snd sc) = (\<exists>x \<in> set v. same_link x ss)"
    and 3: "fst (snd (snd sc)) =
       (\<Sum>x\<leftarrow>filter (\<lambda>x. \<not> outside_window outb (TIME_WINDOW pf) (hp_anchor outb ss hss0) (deparr_time x))
                  (map (substitute_link ss) v). exp_cost (STOCH_DISPERSION pf) (cost x))"
    by (simp_all add: scan_exact_def)
  show ?thesis
    unfolding hp_stop_states_exact hp_sum_def Let_def sc_def[symmetric] v_def[symmetric]
    using 2 3 by simp
qed

lemma sum_exp_cost_pos:
  "states \<noteq> [] \<Longrightarrow> 0 < (\<Sum>\<sigma>\<leftarrow>states. exp_cost theta (cost \<sigma>))"
proof (induction states)
  case Nil
  then show ?case by simp
next
  case (Cons x xs)
  have "0 < exp_cost theta (cost x)" by (rule exp_cost_pos)
  moreover have "0 \<le> (\<Sum>\<sigma>\<leftarrow>xs. exp_cost theta (cost \<sigma>))" by (rule sum_exp_cost_nonneg)
  ultimately show ?case by simp
qed

lemma hp_stop_states_nonempty:
  assumes "\<not> outside_window outb (TIME_WINDOW pf) (latest_dep_earliest_arr hss0) (deparr_time ss)"
    and "0 \<le> TIME_WINDOW pf"
  shows "hp_stop_states pf outb stop ss hss0 st \<noteq> []"
proof (cases "\<exists>x \<in> set (fst (stop_states_at st stop)). same_link x ss")
  case False
  then show ?thesis by (simp add: hp_stop_states_exact)
next
  case True
  then obtain x where x: "x \<in> set (fst (stop_states_at st stop))" "same_link x ss" by blast
  have ssin: "\<not> outside_window outb (TIME_WINDOW pf) (hp_anchor outb ss hss0) (deparr_time ss)"
    using assms by (auto simp: hp_anchor_def hp_window_def outside_window_def)
  from x have "ss \<in> set (map (substitute_link ss) (fst (stop_states_at st stop)))"
    by (force simp: substitute_link_def)
  with ssin have "ss \<in> set (hp_stop_states pf outb stop ss hss0 st)"
    by (simp add: hp_stop_states_exact)
  then show ?thesis by auto
qed

text \<open>
  The value under the logarithm in \<open>addStopState\<close> is the sum over the stop states it
  leaves at the stop, so the hyperpath cost it computes is their aggregate cost.
\<close>

lemma addStopState_aggregate_cost:
  assumes "\<not> outside_window outb (TIME_WINDOW pf) (latest_dep_earliest_arr hss0) (deparr_time ss)"
    and "0 \<le> TIME_WINDOW pf"
  shows "aggregate_cost (STOCH_DISPERSION pf) (hp_stop_states pf outb stop ss hss0 st) =
           Some (logsum_cost (STOCH_DISPERSION pf) (hp_sum pf outb stop ss hss0 st))"
proof -
  have "0 < (\<Sum>x\<leftarrow>hp_stop_states pf outb stop ss hss0 st. exp_cost (STOCH_DISPERSION pf) (cost x))"
    by (rule sum_exp_cost_pos[OF hp_stop_states_nonempty[OF assms]])
  then show ?thesis
    by (simp add: aggregate_cost_def Let_def hp_sum_exact[OF assms])
qed

section \<open>Bump wait in the transfer relaxation\<close>

text \<open>
  How \<open>updateStopStatesForTransfers\<close> uses the loop body: in deterministic mode, for a
  current stop whose first state is a trip link and that has one transfer link, the
  candidate is computed from the departure time and the trip of that first state and is
  offered to \<open>addStopState\<close> at the other end of the link.
\<close>

lemma updateStopStatesForTransfers_single:
  assumes "\<not> hyperpath path_spec"
    and "stop_states st (stop_id current_label_stop) = Some (css0 # css_rest)"
    and "deparr_mode css0 = MODE_TRANSIT"
    and "(if outbound path_spec then transfer_links_d_o pf (stop_id current_label_stop)
          else transfer_links_o_d pf (stop_id current_label_stop)) = Some [transfer_it]"
    and "weight_lookup pf (user_class path_spec, MODE_TRANSFER, ''transfer'') = Some sm2nw"
    and "map_of sm2nw (transfer_supply_mode pf) = Some transfer_weights"
  shows "updateStopStatesForTransfers pf path_spec label_iteration current_label_stop st =
           (case transfer_stop_state pf path_spec transfer_weights 0 (deparr_time css0) (trip_id css0)
                   current_label_stop label_iteration (css0 # css_rest) transfer_it of
              Inl e \<Rightarrow> Inl e
            | Inr None \<Rightarrow> Inr st
            | Inr (Some ss) \<Rightarrow> Inr (addStopState pf path_spec (fst transfer_it) ss st))"
  using assms
  by (simp add: updateStopStatesForTransfers_def stop_states_at_def Let_def
           split: sum.splits option.splits)

text \<open>
  Claim C4. Deterministic outbound transfer relaxation, with a bump-wait entry
  \<open>latest_bump_time\<close> for (current trip, sequence of the current stop's first state, current
  stop). The candidate's departure time before the check is \<open>ldea - transfer_time\<close>. If
  that minus the time window is greater than \<open>latest_bump_time\<close> the transfer is skipped.
  Otherwise the candidate is offered with the cost without bump wait,
  \<open>label + transfer_time\<close>, increased by
  \<open>(deparr_time css0 - latest_bump_time) + BUMP_BUFFER\<close>, and with departure time
  \<open>latest_bump_time - transfer_time - BUMP_BUFFER\<close>.
\<close>

theorem transfer_bump_wait:
  assumes "\<not> hyperpath path_spec" and "outbound path_spec"
    and "snd transfer_it ''time_min'' = Some transfer_time"
    and "bump_wait pf (current_trip, seq css0, stop_id current_label_stop) = Some latest_bump_time"
  shows "(ldea - transfer_time - TIME_WINDOW pf > latest_bump_time \<longrightarrow>
            transfer_stop_state pf path_spec transfer_weights nonwalk_label ldea current_trip
              current_label_stop label_iteration (css0 # css_rest) transfer_it = Inr None) \<and>
         (\<not> ldea - transfer_time - TIME_WINDOW pf > latest_bump_time \<longrightarrow>
            (\<exists>ss. transfer_stop_state pf path_spec transfer_weights nonwalk_label ldea current_trip
                    current_label_stop label_iteration (css0 # css_rest) transfer_it = Inr (Some ss) \<and>
                  cost ss = (label current_label_stop + transfer_time) +
                            (deparr_time css0 - latest_bump_time) + BUMP_BUFFER pf \<and>
                  deparr_time ss = latest_bump_time - transfer_time - BUMP_BUFFER pf \<and>
                  link_cost ss = transfer_time \<and> link_time ss = transfer_time \<and>
                  deparr_mode ss = MODE_TRANSFER \<and>
                  stop_succpred ss = stop_id current_label_stop \<and> arrdep_time ss = ldea))"
  using assms by (simp add: transfer_stop_state_def Let_def)

text \<open>Without a bump-wait entry the candidate keeps the plain cost and departure time.\<close>

lemma transfer_no_bump_wait:
  assumes "\<not> hyperpath path_spec" and "outbound path_spec"
    and "snd transfer_it ''time_min'' = Some transfer_time"
    and "bump_wait pf (current_trip, seq css0, stop_id current_label_stop) = None"
  shows "\<exists>ss. transfer_stop_state pf path_spec transfer_weights nonwalk_label ldea current_trip
                    current_label_stop label_iteration (css0 # css_rest) transfer_it = Inr (Some ss) \<and>
              cost ss = label current_label_stop + transfer_time \<and>
              deparr_time ss = ldea - transfer_time"
  using assms by (simp add: transfer_stop_state_def Let_def)

theorem transfer_bump_wait_witness:
  "transfer_stop_state (ex_pf\<lparr>bump_wait := [(1, 1, 11) \<mapsto> 470]\<rparr>) ex_spec [] 0 500 1
       \<lparr>label = 20, stop_id = 11\<rparr> 2 [ex_trip_state] (13, [''time_min'' \<mapsto> 10])
     = Inr (Some \<lparr>deparr_time = 455, deparr_mode = MODE_TRANSFER, trip_id = 1, stop_succpred = 11,
                  seq = - 1, seq_succpred = - 1, link_time = 10, link_cost = 10, cost = 65,
                  iteration = 2, arrdep_time = 500\<rparr>) \<and>
   transfer_stop_state (ex_pf\<lparr>bump_wait := [(1, 1, 11) \<mapsto> 450]\<rparr>) ex_spec [] 0 500 1
       \<lparr>label = 20, stop_id = 11\<rparr> 2 [ex_trip_state] (13, [''time_min'' \<mapsto> 10])
     = Inr None"
proof -
  have a: "\<not> hyperpath ex_spec" "outbound ex_spec" by (simp_all add: ex_spec_def)
  have t: "snd (13::int, [''time_min'' \<mapsto> 10::real]) ''time_min'' = Some 10" by simp
  have b1: "bump_wait (ex_pf\<lparr>bump_wait := [(1, 1, 11) \<mapsto> 470]\<rparr>)
              (1, seq ex_trip_state, stop_id \<lparr>label = 20, stop_id = 11\<rparr>) = Some 470"
    by (simp add: ex_trip_state_def)
  have b2: "bump_wait (ex_pf\<lparr>bump_wait := [(1, 1, 11) \<mapsto> 450]\<rparr>)
              (1, seq ex_trip_state, stop_id \<lparr>label = 20, stop_id = 11\<rparr>) = Some 450"
    by (simp add: ex_trip_state_def)
  have tw: "TIME_WINDOW ex_pf = 30" "BUMP_BUFFER ex_pf = 5" by (simp_all add: ex_pf_def)
  from transfer_bump_wait[OF a t b1, of 500 "[]" 0 2 "[]"] tw
  have 1: "transfer_stop_state (ex_pf\<lparr>bump_wait := [(1, 1, 11) \<mapsto> 470]\<rparr>) ex_spec [] 0 500 1
       \<lparr>label = 20, stop_id = 11\<rparr> 2 [ex_trip_state] (13, [''time_min'' \<mapsto> 10])
     = Inr (Some \<lparr>deparr_time = 455, deparr_mode = MODE_TRANSFER, trip_id = 1, stop_succpred = 11,
                  seq = - 1, seq_succpred = - 1, link_time = 10, link_cost = 10, cost = 65,
                  iteration = 2, arrdep_time = 500\<rparr>)"
    by (simp add: transfer_stop_state_def Let_def ex_trip_state_def ex_spec_def)
  from transfer_bump_wait[OF a t b2, of 500 "[]" 0 2 "[]"] tw
  have 2: "transfer_stop_state (ex_pf\<lparr>bump_wait := [(1, 1, 11) \<mapsto> 450]\<rparr>) ex_spec [] 0 500 1
       \<lparr>label = 20, stop_id = 11\<rparr> 2 [ex_trip_state] (13, [''time_min'' \<mapsto> 10])
     = Inr None"
    by simp
  from 1 2 show ?thesis by (intro conjI)
qed

text \<open>
  Claim C5 says that a candidate with \<open>deparr_time - TIME_WINDOW\<close> exactly equal to the
  bump-wait time is skipped. The source skips on \<^verbatim>\<open>deparr_time - TIME_WINDOW_ > latest_time\<close>
  only, here and in the same check of \<^verbatim>\<open>finalizeTazState\<close>: with departure 500 at the
  current stop, a transfer of 10 minutes, a window of 30 minutes and a bump-wait time of
  460, the candidate is not skipped.
\<close>

theorem transfer_bump_wait_boundary_counterexample:
  "transfer_stop_state (ex_pf\<lparr>bump_wait := [(1, 1, 11) \<mapsto> 460]\<rparr>) ex_spec [] 0 500 1
       \<lparr>label = 20, stop_id = 11\<rparr> 2 [ex_trip_state] (13, [''time_min'' \<mapsto> 10])
     \<noteq> Inr None \<and>
   (500 - 10 :: real) - TIME_WINDOW (ex_pf\<lparr>bump_wait := [(1, 1, 11) \<mapsto> 460]\<rparr>) = 460"
  by (simp add: transfer_stop_state_def Let_def ex_trip_state_def ex_spec_def ex_pf_def)

text \<open>
  Claim C5, amended. At exact equality the transfer candidate is kept: it is offered with
  the bump-wait penalty on its cost and the shifted departure time. It is skipped only when
  \<open>deparr_time - TIME_WINDOW\<close> is strictly greater than the bump-wait time (claim C4).
\<close>

theorem transfer_bump_wait_boundary:
  assumes "\<not> hyperpath path_spec" and "outbound path_spec"
    and "snd transfer_it ''time_min'' = Some transfer_time"
    and "bump_wait pf (current_trip, seq css0, stop_id current_label_stop) = Some latest_bump_time"
    and "ldea - transfer_time - TIME_WINDOW pf = latest_bump_time"
  shows "transfer_stop_state pf path_spec transfer_weights nonwalk_label ldea current_trip
              current_label_stop label_iteration (css0 # css_rest) transfer_it =
           Inr (Some \<lparr>deparr_time = latest_bump_time - transfer_time - BUMP_BUFFER pf,
                      deparr_mode = MODE_TRANSFER, trip_id = 1,
                      stop_succpred = stop_id current_label_stop, seq = - 1, seq_succpred = - 1,
                      link_time = transfer_time, link_cost = transfer_time,
                      cost = label current_label_stop + transfer_time +
                             (deparr_time css0 - latest_bump_time) + BUMP_BUFFER pf,
                      iteration = label_iteration, arrdep_time = ldea\<rparr>)"
  using assms by (simp add: transfer_stop_state_def Let_def)

theorem transfer_bump_wait_boundary_witness:
  "transfer_stop_state (ex_pf\<lparr>bump_wait := [(1, 1, 11) \<mapsto> 460]\<rparr>) ex_spec [] 0 500 1
       \<lparr>label = 20, stop_id = 11\<rparr> 2 [ex_trip_state] (13, [''time_min'' \<mapsto> 10])
     = Inr (Some \<lparr>deparr_time = 445, deparr_mode = MODE_TRANSFER, trip_id = 1, stop_succpred = 11,
                  seq = - 1, seq_succpred = - 1, link_time = 10, link_cost = 10, cost = 75,
                  iteration = 2, arrdep_time = 500\<rparr>)"
proof -
  have a: "\<not> hyperpath ex_spec" "outbound ex_spec" by (simp_all add: ex_spec_def)
  have t: "snd (13::int, [''time_min'' \<mapsto> 10::real]) ''time_min'' = Some 10" by simp
  have b: "bump_wait (ex_pf\<lparr>bump_wait := [(1, 1, 11) \<mapsto> 460]\<rparr>)
              (1, seq ex_trip_state, stop_id \<lparr>label = 20, stop_id = 11\<rparr>) = Some 460"
    by (simp add: ex_trip_state_def)
  have e: "(500::real) - 10 - TIME_WINDOW (ex_pf\<lparr>bump_wait := [(1, 1, 11) \<mapsto> 460]\<rparr>) = 460"
    by (simp add: ex_pf_def)
  from transfer_bump_wait_boundary[OF a t b e, of "[]" 0 2 "[]"]
  show ?thesis by (simp add: ex_trip_state_def ex_pf_def)
qed

section \<open>Seed failure\<close>

lemma initializeStopStates_no_seed:
  assumes "taz_access_links pf (if outbound path_spec then destination_taz_id path_spec
                                else origin_taz_id path_spec) = None \<or>
           weight_lookup pf (user_class path_spec,
                             (if outbound path_spec then MODE_EGRESS else MODE_ACCESS),
                             (if outbound path_spec then egress_mode path_spec
                              else access_mode path_spec)) = None"
  shows "initializeStopStates pf path_spec st = Inr (False, st)"
  using assms by (auto simp: initializeStopStates_def Let_def split: option.splits)

lemma labelStops_empty_queue:
  assumes "empty_q (label_stop_queue st)"
  shows "labelStops pf path_spec uninit st mpc = Some (Inr (st, 1, mpc))"
  unfolding labelStops_def using assms by (subst labelStops_loop.simps) simp

lemma finalize_link_no_state:
  assumes "snd link ''time_min'' \<noteq> None" and "stop_states st (fst link) = None"
  shows "finalize_link pf path_spec mtn supply_mode w end_taz_id li link st = Inr st"
  using assms by (auto simp: finalize_link_def Let_def)

lemma finalize_links_loop_no_state:
  assumes "\<forall>link \<in> set links. snd link ''time_min'' \<noteq> None \<and> stop_states st (fst link) = None"
  shows "finalize_links_loop pf path_spec mtn supply_mode w end_taz_id li links st = Inr st"
  using assms by (induction links) (simp_all add: finalize_link_no_state)

lemma finalize_modes_loop_no_state:
  assumes "\<forall>supply_mode links link. tss2a supply_mode = Some links \<longrightarrow> link \<in> set links \<longrightarrow>
             snd link ''time_min'' \<noteq> None \<and> stop_states st (fst link) = None"
  shows "finalize_modes_loop pf path_spec mtn end_taz_id li tss2a ws st = Inr st"
proof (induction ws)
  case Nil
  then show ?case by simp
next
  case (Cons iter_s2w rest)
  show ?case
  proof (cases "tss2a (fst iter_s2w)")
    case None
    with Cons show ?thesis by simp
  next
    case (Some links)
    with assms have "\<forall>link \<in> set links. snd link ''time_min'' \<noteq> None \<and> stop_states st (fst link) = None"
      by blast
    then have "finalize_links_loop pf path_spec mtn (fst iter_s2w) (snd iter_s2w) end_taz_id li links st = Inr st"
      by (rule finalize_links_loop_no_state)
    with Some Cons show ?thesis by simp
  qed
qed

lemma finalizeTazState_no_state:
  assumes wf: "access_links_wf pf (if outbound path_spec then origin_taz_id path_spec
                                   else destination_taz_id path_spec)"
    and e: "stop_states st = Map.empty"
  shows "finalizeTazState pf path_spec mtn li st =
           Inr (st\<lparr>stop_states := [(if outbound path_spec then origin_taz_id path_spec
                                     else destination_taz_id path_spec) \<mapsto> []]\<rparr>)"
proof -
  define end_taz where "end_taz = (if outbound path_spec then origin_taz_id path_spec
                                   else destination_taz_id path_spec)"
  define st' where "st' = st\<lparr>stop_states := [end_taz \<mapsto> []]\<rparr>"
  have s: "snd (stop_states_at st end_taz) = st'"
    using e by (simp add: stop_states_at_def st'_def)
  have loop: "finalize_modes_loop pf path_spec mtn end_taz li tss2a ws st' = Inr st'"
    if "taz_access_links pf end_taz = Some tss2a" for tss2a ws
  proof (rule finalize_modes_loop_no_state, intro allI impI)
    fix supply_mode links link
    assume "tss2a supply_mode = Some links" "link \<in> set links"
    with wf that have "snd link ''time_min'' \<noteq> None \<and> fst link \<noteq> end_taz"
      unfolding access_links_wf_def end_taz_def by blast
    then show "snd link ''time_min'' \<noteq> None \<and> stop_states st' (fst link) = None"
      by (simp add: st'_def)
  qed
  show ?thesis
    unfolding finalizeTazState_def Let_def end_taz_def[symmetric] s st'_def[symmetric]
    using loop by (auto split: option.splits)
qed

lemma getFoundPath_no_taz_state:
  assumes "stop_states st (if outbound path_spec then origin_taz_id path_spec
                           else destination_taz_id path_spec) = Some []"
  shows "getFoundPath pf path_spec ch st path path_info = Some (Inr (path, path_info))"
  using assms by (simp add: getFoundPath_def Let_def)

text \<open>
  Claim C8. If the anchor TAZ (the destination for outbound, the origin for inbound) has no
  access/egress links, or no weights are configured for the user class with the egress
  (outbound) or access (inbound) demand mode, then a path request returns a path of length
  0 and path cost 0, after one label iteration. \<open>findPath\<close> itself leaves the caller's
  path and path information as they are; the entry point passes them empty and zero. The
  access/egress links of the opposite TAZ, which the finalization reads, are well-formed.
\<close>

theorem findPath_seed_failure:
  assumes seed: "taz_access_links pf (if outbound path_spec then destination_taz_id path_spec
                                else origin_taz_id path_spec) = None \<or>
           weight_lookup pf (user_class path_spec,
                             (if outbound path_spec then MODE_EGRESS else MODE_ACCESS),
                             (if outbound path_spec then egress_mode path_spec
                              else access_mode path_spec)) = None"
    and wf: "access_links_wf pf (if outbound path_spec then origin_taz_id path_spec
                                   else destination_taz_id path_spec)"
  shows "\<exists>path path_info label_iterations mpc.
           fasttrips_find_path pf path_spec choose_hyperpath mode_transit_num uninit_last_stop_id =
             Some (Inr (path, path_info, label_iterations, mpc)) \<and>
           length path = 0 \<and> pi_cost path_info = 0 \<and> label_iterations = 1"
proof -
  have 1: "initializeStopStates pf path_spec LabelingState_init = Inr (False, LabelingState_init)"
    using seed by (rule initializeStopStates_no_seed)
  have 2: "labelStops pf path_spec uninit_last_stop_id LabelingState_init 0 =
             Some (Inr (LabelingState_init, 1, 0))"
    by (rule labelStops_empty_queue)
       (simp add: LabelingState_init_def LabelStopQueue_init_def empty_q_def)
  have 3: "finalizeTazState pf path_spec mode_transit_num 1 LabelingState_init =
           Inr (LabelingState_init\<lparr>stop_states := [(if outbound path_spec then origin_taz_id path_spec
                                     else destination_taz_id path_spec) \<mapsto> []]\<rparr>)"
    using wf by (rule finalizeTazState_no_state) (simp add: LabelingState_init_def)
  have 4: "getFoundPath pf path_spec choose_hyperpath
             (LabelingState_init\<lparr>stop_states := [(if outbound path_spec then origin_taz_id path_spec
                                     else destination_taz_id path_spec) \<mapsto> []]\<rparr>) []
             \<lparr>pi_count = 0, pi_cost = 0, pi_capacity_problem = False, pi_probability = 0, pi_prob_i = 0\<rparr>
           = Some (Inr ([], \<lparr>pi_count = 0, pi_cost = 0, pi_capacity_problem = False,
                            pi_probability = 0, pi_prob_i = 0\<rparr>))"
    by (rule getFoundPath_no_taz_state) simp
  have "fasttrips_find_path pf path_spec choose_hyperpath mode_transit_num uninit_last_stop_id =
          Some (Inr ([], \<lparr>pi_count = 0, pi_cost = 0, pi_capacity_problem = False,
                            pi_probability = 0, pi_prob_i = 0\<rparr>, 1, 0))"
    unfolding fasttrips_find_path_def findPath_def 1 by (simp add: 2 3 4)
  then show ?thesis by simp
qed

lemma ex_wf: "access_links_wf ex_pf 1"
  by (auto simp: access_links_wf_def ex_pf_def split: if_splits)

theorem findPath_seed_failure_witness:
  "(\<exists>path path_info label_iterations mpc.
      fasttrips_find_path ex_pf (ex_spec\<lparr>destination_taz_id := 3\<rparr>) (\<lambda>st path path_info. None) 3 0 =
        Some (Inr (path, path_info, label_iterations, mpc)) \<and>
      length path = 0 \<and> pi_cost path_info = 0 \<and> label_iterations = 1) \<and>
   (\<exists>path path_info label_iterations mpc.
      fasttrips_find_path ex_pf (ex_spec\<lparr>user_class := ''unknown''\<rparr>) (\<lambda>st path path_info. None) 3 0 =
        Some (Inr (path, path_info, label_iterations, mpc)) \<and>
      length path = 0 \<and> pi_cost path_info = 0 \<and> label_iterations = 1)"
proof -
  have a: "taz_access_links ex_pf
             (if outbound (ex_spec\<lparr>destination_taz_id := 3\<rparr>)
              then destination_taz_id (ex_spec\<lparr>destination_taz_id := 3\<rparr>)
              else origin_taz_id (ex_spec\<lparr>destination_taz_id := 3\<rparr>)) = None"
    by (simp add: ex_spec_def ex_pf_def)
  have b: "weight_lookup ex_pf (user_class (ex_spec\<lparr>user_class := ''unknown''\<rparr>),
             (if outbound (ex_spec\<lparr>user_class := ''unknown''\<rparr>) then MODE_EGRESS else MODE_ACCESS),
             (if outbound (ex_spec\<lparr>user_class := ''unknown''\<rparr>)
              then egress_mode (ex_spec\<lparr>user_class := ''unknown''\<rparr>)
              else access_mode (ex_spec\<lparr>user_class := ''unknown''\<rparr>))) = None"
    by (simp add: ex_spec_def ex_pf_def)
  have w1: "access_links_wf ex_pf
              (if outbound (ex_spec\<lparr>destination_taz_id := 3\<rparr>)
               then origin_taz_id (ex_spec\<lparr>destination_taz_id := 3\<rparr>)
               else destination_taz_id (ex_spec\<lparr>destination_taz_id := 3\<rparr>))"
    using ex_wf by (simp add: ex_spec_def)
  have w2: "access_links_wf ex_pf
              (if outbound (ex_spec\<lparr>user_class := ''unknown''\<rparr>)
               then origin_taz_id (ex_spec\<lparr>user_class := ''unknown''\<rparr>)
               else destination_taz_id (ex_spec\<lparr>user_class := ''unknown''\<rparr>))"
    using ex_wf by (simp add: ex_spec_def)
  from findPath_seed_failure[OF disjI1[OF a] w1] findPath_seed_failure[OF disjI2[OF b] w2]
  show ?thesis by (intro conjI)
qed

section \<open>The uninitialised \<^verbatim>\<open>last_label_stop\<close>\<close>

text \<open>The definitions that the evaluation of a path request on the example network
  unfolds.\<close>

lemmas findPath_eval =
  initializeStopStates_def addStopState_def stop_states_at_def hyperpath_ss_at_def
  LabelingState_init_def LabelStopQueue_init_def push_def pop_top_def empty_q_def size_q_def
  labelStops_def labelStops_process_def updateStopStatesForTransfers_def updateStopStatesForTrips_def
  transfer_stop_state_def trips_relevant_trip_def trips_board_alight_def trips_bump_skip_def
  getTripsWithinTime_def to_unsigned_def finalizeTazState_def finalize_link_def
  getFoundPath_def rewrite_times_def upd_ss_def calculatePathCost_def path_cost_step_def
  path_link_cost_def find2_def find_access_attr_def tallyLinkCost_def isTrip_def
  fasttrips_find_path_def findPath_def LabelStopCompare_def
  ex_pf_def ex_spec_def ex_stop_times_12_def ex_walk_weights_def ex_transit_weights_def Let_def

text \<open>
  Claim C9 says that two runs of \<open>findPath\<close> with identical network tables, configuration
  and path specification give identical paths and costs. In the source the first round of
  the labeling loop compares the popped stop with \<^verbatim>\<open>last_label_stop.stop_id_\<close>, which has
  not been given a value. On the example network, for one and the same deterministic
  outbound request from TAZ 1 to TAZ 2: if that indeterminate value is 12, the id of the
  only seeded stop, the stop is skipped, the labeling ends after one iteration and the
  path is empty with cost 0; if it is 0, the labeling takes 4 iterations and the path is
  access link, trip 1 from stop 11 to stop 12, egress link, with cost 32.5.
\<close>

theorem findPath_depends_on_uninitialised_last_label_stop:
  "fasttrips_find_path ex_pf ex_spec (\<lambda>st path path_info. None) 3 12 =
     Some (Inr ([],
                \<lparr>pi_count = 0, pi_cost = 0, pi_capacity_problem = False,
                 pi_probability = 0, pi_prob_i = 0\<rparr>,
                1, 0)) \<and>
   fasttrips_find_path ex_pf ex_spec (\<lambda>st path path_info. None) 3 0 =
     Some (Inr ([(1, \<lparr>deparr_time = 495, deparr_mode = MODE_ACCESS, trip_id = 101,
                       stop_succpred = 11, seq = - 1, seq_succpred = - 1, link_time = 5,
                       link_cost = 5, cost = 10, iteration = 4, arrdep_time = 500\<rparr>),
                 (11, \<lparr>deparr_time = 500, deparr_mode = MODE_TRANSIT, trip_id = 1,
                        stop_succpred = 12, seq = 1, seq_succpred = 2, link_time = 10,
                        link_cost = 15, cost = 10, iteration = 1, arrdep_time = 510\<rparr>),
                 (12, \<lparr>deparr_time = 510, deparr_mode = MODE_EGRESS, trip_id = 101,
                        stop_succpred = 2, seq = - 1, seq_succpred = - 1, link_time = 5,
                        link_cost = 5, cost = 25 / 2, iteration = 0, arrdep_time = 515\<rparr>)],
                \<lparr>pi_count = 0, pi_cost = 65 / 2, pi_capacity_problem = False,
                 pi_probability = 0, pi_prob_i = 0\<rparr>,
                4, 0))"
proof
  show "fasttrips_find_path ex_pf ex_spec (\<lambda>st path path_info. None) 3 12 =
     Some (Inr ([],
                \<lparr>pi_count = 0, pi_cost = 0, pi_capacity_problem = False,
                 pi_probability = 0, pi_prob_i = 0\<rparr>,
                1, 0))"
    by (simp add: findPath_eval labelStops_loop.simps)
next
  show "fasttrips_find_path ex_pf ex_spec (\<lambda>st path path_info. None) 3 0 =
     Some (Inr ([(1, \<lparr>deparr_time = 495, deparr_mode = MODE_ACCESS, trip_id = 101,
                       stop_succpred = 11, seq = - 1, seq_succpred = - 1, link_time = 5,
                       link_cost = 5, cost = 10, iteration = 4, arrdep_time = 500\<rparr>),
                 (11, \<lparr>deparr_time = 500, deparr_mode = MODE_TRANSIT, trip_id = 1,
                        stop_succpred = 12, seq = 1, seq_succpred = 2, link_time = 10,
                        link_cost = 15, cost = 10, iteration = 1, arrdep_time = 510\<rparr>),
                 (12, \<lparr>deparr_time = 510, deparr_mode = MODE_EGRESS, trip_id = 101,
                        stop_succpred = 2, seq = - 1, seq_succpred = - 1, link_time = 5,
                        link_cost = 5, cost = 25 / 2, iteration = 0, arrdep_time = 515\<rparr>)],
                \<lparr>pi_count = 0, pi_cost = 65 / 2, pi_capacity_problem = False,
                 pi_probability = 0, pi_prob_i = 0\<rparr>,
                4, 0))"
    by (simp add: findPath_eval labelStops_loop.simps found_path_loop.simps
                  calculatePathCost_loop.simps)
qed

end
